(* ===== verification/Prelude.thy ===== *)
theory Prelude
  imports Main "HOL-Library.Multiset"
begin

text \<open>
  Shared vocabulary of the development: the Python character classes and string
  methods that \<open>src/p4java/generate-error-codes.py\<close> relies on (\<open>str.isspace\<close>,
  \<open>str.isupper\<close>, \<open>str.isdigit\<close>, \<open>str.upper\<close>, \<open>str.strip\<close>,
  \<open>str.startswith\<close>, \<open>str.find\<close>, \<open>str.count\<close>, \<open>str.replace\<close>, slicing), written
  over Isabelle's \<open>string = char list\<close> for ASCII text, and the generic lemmas about
  them that the component theories share.  The collection \<open>py_char_defs\<close> unfolds the
  character classes so that \<open>simp\<close> decides them on literals.
\<close>

named_theorems py_char_defs "definitions of the Python character classes"

section \<open>Character classes (ASCII)\<close>

text \<open>
  \<open>str.isspace\<close> on an ASCII character: space, the C0 controls \<open>\t \n \v \f \r\<close> and
  the separators \<open>0x1C\<close>--\<open>0x1F\<close> (Python counts those as whitespace too).
  The same set is what the regular expression class \<open>\s\<close> and \<open>str.strip()\<close> use.
\<close>

definition py_isspace :: "char \<Rightarrow> bool" where
  [py_char_defs]: "py_isspace c \<longleftrightarrow> c \<in> set [CHR 0x20, CHR 0x09, CHR 0x0A, CHR 0x0B,
     CHR 0x0C, CHR 0x0D, CHR 0x1C, CHR 0x1D, CHR 0x1E, CHR 0x1F]"

definition is_upper :: "char \<Rightarrow> bool" where
  [py_char_defs]: "is_upper c \<longleftrightarrow> c \<in> set ''ABCDEFGHIJKLMNOPQRSTUVWXYZ''"

definition is_lower :: "char \<Rightarrow> bool" where
  [py_char_defs]: "is_lower c \<longleftrightarrow> c \<in> set ''abcdefghijklmnopqrstuvwxyz''"

definition is_digit :: "char \<Rightarrow> bool" where
  [py_char_defs]: "is_digit c \<longleftrightarrow> c \<in> set ''0123456789''"

text \<open>The regular-expression class \<open>\w\<close>: letters, digits and the underscore.\<close>

definition is_word :: "char \<Rightarrow> bool" where
  [py_char_defs]: "is_word c \<longleftrightarrow> is_upper c \<or> is_lower c \<or> is_digit c \<or> c = CHR ''_''"

definition py_upper :: "char \<Rightarrow> char" where
  [py_char_defs]: "py_upper c =
     (case map_of (zip ''abcdefghijklmnopqrstuvwxyz'' ''ABCDEFGHIJKLMNOPQRSTUVWXYZ'') c of
        Some u \<Rightarrow> u | None \<Rightarrow> c)"

lemma py_upper_lower_iff: "py_upper c \<noteq> c \<longleftrightarrow> is_lower c"
  by (simp add: py_upper_def is_lower_def split: if_splits)

lemma py_upper_not_lower [simp]: "\<not> is_lower (py_upper c)"
  by (simp add: py_upper_def is_lower_def split: if_splits)

lemma py_upper_eq_underscore [simp]: "py_upper c = CHR ''_'' \<longleftrightarrow> c = CHR ''_''"
  by (auto simp: py_upper_def split: if_splits)

lemma py_upper_underscore [simp]: "py_upper (CHR ''_'') = CHR ''_''"
  by (simp add: py_upper_def)

lemma py_upper_idem [simp]: "py_upper (py_upper c) = py_upper c"
  by (simp add: py_upper_def split: if_splits)

lemma underscore_not_upper_digit [simp]:
  "\<not> is_upper (CHR ''_'')" "\<not> is_digit (CHR ''_'')" "\<not> is_lower (CHR ''_'')"
  by (simp_all add: py_char_defs)

section \<open>String methods\<close>

text \<open>\<open>str.lstrip()\<close>, \<open>str.rstrip()\<close> and \<open>str.strip()\<close> with no argument.\<close>

definition py_lstrip :: "string \<Rightarrow> string" where
  "py_lstrip s = dropWhile py_isspace s"

definition py_rstrip :: "string \<Rightarrow> string" where
  "py_rstrip s = rev (dropWhile py_isspace (rev s))"

definition py_strip :: "string \<Rightarrow> string" where
  "py_strip s = py_rstrip (py_lstrip s)"

lemma py_rstrip_Nil_iff: "py_rstrip s = [] \<longleftrightarrow> (\<forall>c \<in> set s. py_isspace c)"
  by (simp add: py_rstrip_def)

lemma py_lstrip_Nil_iff: "py_lstrip s = [] \<longleftrightarrow> (\<forall>c \<in> set s. py_isspace c)"
  by (simp add: py_lstrip_def)

lemma py_lstrip_hd: "py_lstrip s = c # r \<Longrightarrow> \<not> py_isspace c"
  by (simp add: py_lstrip_def dropWhile_eq_Cons_conv)

lemma py_strip_Nil_iff: "py_strip s = [] \<longleftrightarrow> (\<forall>c \<in> set s. py_isspace c)"
proof
  assume "py_strip s = []"
  then have "\<forall>c \<in> set (py_lstrip s). py_isspace c"
    by (simp add: py_strip_def py_rstrip_Nil_iff)
  then have "py_lstrip s = []"
    by (cases "py_lstrip s") (auto dest: py_lstrip_hd)
  then show "\<forall>c \<in> set s. py_isspace c" by (simp add: py_lstrip_Nil_iff)
next
  assume "\<forall>c \<in> set s. py_isspace c"
  then have "py_lstrip s = []" by (simp add: py_lstrip_Nil_iff)
  then show "py_strip s = []" by (simp add: py_strip_def py_rstrip_def)
qed

lemma py_rstrip_idem [simp]: "py_rstrip (py_rstrip s) = py_rstrip s"
proof -
  have "dropWhile py_isspace (dropWhile py_isspace (rev s)) = dropWhile py_isspace (rev s)"
    by (cases "dropWhile py_isspace (rev s)") (auto simp: dropWhile_eq_Cons_conv)
  then show ?thesis by (simp add: py_rstrip_def)
qed

lemma py_lstrip_rstrip: "py_lstrip (py_rstrip s) = py_rstrip (py_lstrip s)"
proof -
  have "dropWhile py_isspace (rev (dropWhile py_isspace (rev s))) =
        rev (dropWhile py_isspace (rev (dropWhile py_isspace s)))"
  proof (induction s rule: rev_induct)
    case Nil
    then show ?case by simp
  next
    case (snoc x xs)
    show ?case
    proof (cases "\<forall>c \<in> set xs. py_isspace c")
      case True
      then have "dropWhile py_isspace xs = []" by simp
      with True snoc show ?thesis by simp
    next
      case False
      then show ?thesis using snoc by (auto simp: dropWhile_append1)
    qed
  qed
  then show ?thesis by (simp add: py_lstrip_def py_rstrip_def)
qed

lemma py_lstrip_idem [simp]: "py_lstrip (py_lstrip s) = py_lstrip s"
  by (cases "py_lstrip s") (auto simp: py_lstrip_def dropWhile_eq_Cons_conv)

lemma py_lstrip_id: "\<forall>c \<in> set s. \<not> py_isspace c \<Longrightarrow> py_lstrip s = s"
  by (cases s) (simp_all add: py_lstrip_def)

lemma py_rstrip_id: "\<forall>c \<in> set s. \<not> py_isspace c \<Longrightarrow> py_rstrip s = s"
  by (cases "rev s") (simp_all add: py_rstrip_def)

lemma py_strip_id: "\<forall>c \<in> set s. \<not> py_isspace c \<Longrightarrow> py_strip s = s"
  by (simp add: py_strip_def py_lstrip_id py_rstrip_id)

lemma set_py_strip: "set (py_strip s) \<subseteq> set s"
proof
  fix x assume "x \<in> set (py_strip s)"
  then have "x \<in> set (dropWhile py_isspace (rev (dropWhile py_isspace s)))"
    by (simp add: py_strip_def py_lstrip_def py_rstrip_def)
  then have "x \<in> set (rev (dropWhile py_isspace s))" by (rule set_dropWhileD)
  then have "x \<in> set (dropWhile py_isspace s)" by simp
  then show "x \<in> set s" by (rule set_dropWhileD)
qed

lemma py_strip_idem [simp]: "py_strip (py_strip s) = py_strip s"
  by (simp add: py_strip_def py_lstrip_rstrip)

text \<open>\<open>s.startswith(p)\<close>.\<close>

definition startswith :: "string \<Rightarrow> string \<Rightarrow> bool" where
  "startswith s p \<longleftrightarrow> take (length p) s = p"

lemma startswith_append [simp]: "startswith (p @ r) p"
  by (simp add: startswith_def)

lemma startswith_Nil [simp]: "startswith s []"
  by (simp add: startswith_def)

lemma startswith_Cons_Cons [simp]:
  "startswith (c # s) (d # p) \<longleftrightarrow> c = d \<and> startswith s p"
  by (simp add: startswith_def)

lemma startswith_Nil_Cons [simp]: "\<not> startswith [] (d # p)"
  by (simp add: startswith_def)

lemma startswith_conv: "startswith s p \<longleftrightarrow> (\<exists>r. s = p @ r)"
  by (metis append_eq_conv_conj startswith_def)

text \<open>
  \<open>hay.find(needle)\<close>: the least index at which \<open>needle\<close> starts, \<open>-1\<close> if there
  is none.  The script only tests \<open>p >= 0\<close>, so the model returns \<open>None\<close> for \<open>-1\<close>.
\<close>

fun find_from :: "string \<Rightarrow> string \<Rightarrow> nat \<Rightarrow> nat option" where
  "find_from hay needle i =
     (if startswith hay needle then Some i
      else (case hay of [] \<Rightarrow> None | _ # hs \<Rightarrow> find_from hs needle (Suc i)))"

definition py_find :: "string \<Rightarrow> string \<Rightarrow> nat option" where
  "py_find hay needle = find_from hay needle 0"

declare find_from.simps [simp del]

lemma find_from_Some:
  "find_from hay needle i = Some p \<Longrightarrow>
     i \<le> p \<and> p \<le> i + length hay \<and> startswith (drop (p - i) hay) needle \<and>
     (\<forall>q < p - i. \<not> startswith (drop q hay) needle)"
proof (induction hay needle i rule: find_from.induct)
  case (1 hay needle i)
  show ?case
  proof (cases "startswith hay needle")
    case True
    with "1.prems" show ?thesis by (simp add: find_from.simps)
  next
    case False
    then obtain c hs where hay: "hay = c # hs"
      using "1.prems" by (cases hay) (simp_all add: find_from.simps)
    with False "1.prems" have "find_from hs needle (Suc i) = Some p"
      by (simp add: find_from.simps)
    with "1.IH" [OF False hay] have ih:
      "Suc i \<le> p \<and> p \<le> Suc i + length hs \<and> startswith (drop (p - Suc i) hs) needle \<and>
       (\<forall>q < p - Suc i. \<not> startswith (drop q hs) needle)" .
    have "\<forall>q < p - i. \<not> startswith (drop q hay) needle"
    proof (intro allI impI)
      fix q assume "q < p - i"
      with ih False hay show "\<not> startswith (drop q hay) needle"
        by (cases q) auto
    qed
    moreover from ih have "p - i = Suc (p - Suc i)" by arith
    ultimately show ?thesis using ih hay by simp
  qed
qed

lemma all_le_Suc_conv: "(\<forall>q \<le> Suc n. P q) \<longleftrightarrow> P 0 \<and> (\<forall>q \<le> n. P (Suc q))"
proof
  assume "P 0 \<and> (\<forall>q \<le> n. P (Suc q))"
  then show "\<forall>q \<le> Suc n. P q"
    by (metis Suc_le_mono not0_implies_Suc)
qed simp

lemma find_from_None:
  "find_from hay needle i = None \<longleftrightarrow> (\<forall>q \<le> length hay. \<not> startswith (drop q hay) needle)"
proof (induction hay needle i rule: find_from.induct)
  case (1 hay needle i)
  show ?case
  proof (cases hay)
    case Nil
    then show ?thesis by (simp add: find_from.simps)
  next
    case (Cons c hs)
    have "(\<forall>q \<le> length hay. \<not> startswith (drop q hay) needle) \<longleftrightarrow>
          \<not> startswith hay needle \<and> (\<forall>q \<le> length hs. \<not> startswith (drop q hs) needle)"
      using Cons by (simp only: length_Cons all_le_Suc_conv) simp
    moreover have "find_from hay needle i =
        (if startswith hay needle then Some i else find_from hs needle (Suc i))"
      using Cons by (subst find_from.simps) simp
    moreover have "\<not> startswith hay needle \<Longrightarrow>
        find_from hs needle (Suc i) = None \<longleftrightarrow> (\<forall>q \<le> length hs. \<not> startswith (drop q hs) needle)"
      using "1.IH" Cons by simp
    ultimately show ?thesis by auto
  qed
qed

lemma py_find_Some:
  "py_find hay needle = Some p \<Longrightarrow>
     p \<le> length hay \<and> startswith (drop p hay) needle \<and> (\<forall>q < p. \<not> startswith (drop q hay) needle)"
  using find_from_Some [of hay needle 0 p] by (simp add: py_find_def)

lemma py_find_None:
  "py_find hay needle = None \<longleftrightarrow> (\<forall>q \<le> length hay. \<not> startswith (drop q hay) needle)"
  by (simp add: py_find_def find_from_None)

lemma py_find_append_needle:
  "py_find (a @ needle @ b) needle \<noteq> None"
proof
  assume "py_find (a @ needle @ b) needle = None"
  then have "\<forall>q \<le> length (a @ needle @ b). \<not> startswith (drop q (a @ needle @ b)) needle"
    by (simp only: py_find_None)
  then have "\<not> startswith (drop (length a) (a @ needle @ b)) needle"
    by (erule_tac x = "length a" in allE) simp
  then show False by simp
qed

text \<open>\<open>s.replace(a, b)\<close> for one-character \<open>a\<close> and \<open>b\<close>.\<close>

definition replace_char :: "char \<Rightarrow> char \<Rightarrow> string \<Rightarrow> string" where
  "replace_char a b s = map (\<lambda>c. if c = a then b else c) s"

lemma replace_char_Cons [simp]:
  "replace_char a b (c # s) = (if c = a then b else c) # replace_char a b s"
  by (simp add: replace_char_def)

lemma replace_char_append [simp]:
  "replace_char a b (xs @ ys) = replace_char a b xs @ replace_char a b ys"
  by (simp add: replace_char_def)

lemma startswith_append_right: "startswith s p \<Longrightarrow> startswith (s @ t) p"
  by (metis append.assoc startswith_conv)

text \<open>
  Occurrences of a (non-empty) substring, counted at every start position.  Used to
  show that generated Java text is or is not well delimited.
\<close>

fun occurrences :: "string \<Rightarrow> string \<Rightarrow> nat" where
  "occurrences needle [] = (if needle = [] then 1 else 0)"
| "occurrences needle (c # cs) =
     (if startswith (c # cs) needle then 1 else 0) + occurrences needle cs"

lemma occurrences_append_ge:
  "occurrences needle xs + occurrences needle ys \<le> occurrences needle (xs @ ys) + (if needle = [] then 1 else 0)"
proof (induction xs)
  case Nil
  then show ?case by simp
next
  case (Cons c cs)
  have "startswith (c # cs) needle \<Longrightarrow> startswith (c # cs @ ys) needle"
    using startswith_append_right [of "c # cs" needle ys] by simp
  with Cons show ?case by (auto split: if_splits)
qed

lemma occurrences_ge_one: "startswith (drop i s) needle \<Longrightarrow> needle \<noteq> [] \<Longrightarrow> 1 \<le> occurrences needle s"
proof (induction s arbitrary: i)
  case Nil
  then show ?case by (simp add: startswith_def)
next
  case (Cons c cs)
  show ?case
  proof (cases i)
    case 0
    with Cons.prems show ?thesis by simp
  next
    case (Suc j)
    with Cons.prems Cons.IH [of j] show ?thesis by simp
  qed
qed

section \<open>Paths (\<open>os.path\<close> on POSIX)\<close>

text \<open>\<open>os.path.basename(p)\<close>: the text after the last slash.\<close>

definition py_basename :: "string \<Rightarrow> string" where
  "py_basename p = rev (takeWhile (\<lambda>c. c \<noteq> CHR ''/'') (rev p))"

text \<open>
  \<open>os.path.dirname(p)\<close>: the text up to the last slash, with trailing slashes removed
  unless it consists of slashes only.
\<close>

definition py_dirname :: "string \<Rightarrow> string" where
  "py_dirname p =
     (let head = rev (dropWhile (\<lambda>c. c \<noteq> CHR ''/'') (rev p))
      in if head \<noteq> [] \<and> (\<exists>c \<in> set head. c \<noteq> CHR ''/'')
         then rev (dropWhile (\<lambda>c. c = CHR ''/'') (rev head)) else head)"

text \<open>\<open>os.path.join(a, b)\<close> for two components.\<close>

definition py_join :: "string \<Rightarrow> string \<Rightarrow> string" where
  "py_join a b =
     (if startswith b ''/'' then b
      else if a = [] \<or> last a = CHR ''/'' then a @ b else a @ ''/'' @ b)"

end
