(* ===== verification/MsgPattern.thy ===== *)
theory MsgPattern
  imports Prelude "HOL-Library.Monad_Syntax"
begin

text \<open>
  The record pattern \<open>MSG_PATTERN\<close> of \<open>src/p4java/generate-error-codes.py\<close>
  (lines 17--20), applied with \<open>re.match\<close> (anchored at the start of the buffer):
  \<^verbatim>\<open>\s*ErrorId\s+MsgDm\:\:(\w+)\s*=\s*{\s*ErrorOf\(([^,]+),([^,]+),([^,]+),([^,]+),([^,]+)\),\s*\"(.*?)\"\s*}\s*;\<close>
  Every sub-pattern but the lazy \<open>(.*?)\<close> leaves the backtracking engine no choice:
  a greedy run of a class is followed by a character outside that class, so only the
  maximal run can be followed by the rest of the pattern; the fifth group \<open>([^,]+)\)\<close>
  is the maximal run of non-commas less its final \<open>)\<close>.  The lazy group tries the
  shortest text first.  The pattern is therefore a deterministic parser, \<open>msg_match\<close>,
  built from one combinator per sub-pattern; it returns the seven groups as a
  \<open>msg\<close> record and the unmatched rest of the buffer (\<open>buff[m.end():]\<close>).
  Theory \<open>Regex\<close> proves that this parser computes exactly the match of Python's
  backtracking engine.
  The lemmas show that the match consumes a prefix of the buffer, and that every
  printed record line is matched back to its fields (a round trip).
\<close>

text \<open>The seven groups, named after the parameters of \<open>output_line\<close> (line 130).\<close>

record msg =
  m_name :: string
  m_sub_code :: string
  m_msg_code :: string
  m_severity_code :: string
  m_generic_code :: string
  m_arg_count :: string
  m_text :: string

section \<open>One combinator per sub-pattern\<close>

text \<open>\<open>\s*\<close>\<close>

definition skip_ws :: "string \<Rightarrow> string" where
  "skip_ws s = dropWhile py_isspace s"

text \<open>A literal, such as \<open>ErrorId\<close> or \<open>MsgDm\:\:\<close>.\<close>

definition lit :: "string \<Rightarrow> string \<Rightarrow> string option" where
  "lit p s = (if startswith s p then Some (drop (length p) s) else None)"

text \<open>\<open>\s+\<close>\<close>

definition ws1 :: "string \<Rightarrow> string option" where
  "ws1 s = (case s of c # _ \<Rightarrow> if py_isspace c then Some (skip_ws s) else None | [] \<Rightarrow> None)"

text \<open>\<open>(\w+)\<close>\<close>

definition word_group :: "string \<Rightarrow> (string \<times> string) option" where
  "word_group s =
     (let w = takeWhile is_word s in if w = [] then None else Some (w, drop (length w) s))"

text \<open>\<open>([^,]+),\<close>\<close>

definition field_group :: "string \<Rightarrow> (string \<times> string) option" where
  "field_group s =
     (let f = takeWhile (\<lambda>c. c \<noteq> CHR '','') s; r = drop (length f) s
      in if f \<noteq> [] \<and> startswith r '','' then Some (f, drop 1 r) else None)"

text \<open>\<open>([^,]+)\),\<close>: the maximal non-comma run must end in \<open>)\<close>, which is not part of the group.\<close>

definition last_field_group :: "string \<Rightarrow> (string \<times> string) option" where
  "last_field_group s =
     (let f = takeWhile (\<lambda>c. c \<noteq> CHR '','') s; r = drop (length f) s
      in if 2 \<le> length f \<and> last f = CHR '')'' \<and> startswith r '',''
         then Some (butlast f, drop 1 r) else None)"

text \<open>\<open>\"\s*}\s*;\<close>, the end of the pattern.\<close>

definition close_tail :: "string \<Rightarrow> string option" where
  "close_tail s = do {
     s \<leftarrow> lit [CHR 0x22] s;
     s \<leftarrow> lit ''}'' (skip_ws s);
     lit '';'' (skip_ws s) }"

text \<open>
  \<open>(.*?)\<close> followed by the end of the pattern: the shortest text after which the end
  matches; \<open>.\<close> does not match a newline.
\<close>

fun lazy_text :: "string \<Rightarrow> string \<Rightarrow> (string \<times> string) option" where
  "lazy_text acc s =
     (case close_tail s of
        Some r \<Rightarrow> Some (acc, r)
      | None \<Rightarrow> (case s of
                   [] \<Rightarrow> None
                 | c # cs \<Rightarrow> if c = CHR 0x0A then None else lazy_text (acc @ [c]) cs))"

declare lazy_text.simps [simp del]

section \<open>The pattern\<close>

definition msg_match :: "string \<Rightarrow> (msg \<times> string) option" where
  "msg_match s = do {
     s \<leftarrow> lit ''ErrorId'' (skip_ws s);
     s \<leftarrow> ws1 s;
     s \<leftarrow> lit ''MsgDm::'' s;
     (name, s) \<leftarrow> word_group s;
     s \<leftarrow> lit ''='' (skip_ws s);
     s \<leftarrow> lit ''{'' (skip_ws s);
     s \<leftarrow> lit ''ErrorOf('' (skip_ws s);
     (sub_code, s) \<leftarrow> field_group s;
     (msg_code, s) \<leftarrow> field_group s;
     (severity_code, s) \<leftarrow> field_group s;
     (generic_code, s) \<leftarrow> field_group s;
     (arg_count, s) \<leftarrow> last_field_group s;
     s \<leftarrow> lit [CHR 0x22] (skip_ws s);
     (text, s) \<leftarrow> lazy_text [] s;
     Some (\<lparr>m_name = name, m_sub_code = sub_code, m_msg_code = msg_code,
            m_severity_code = severity_code, m_generic_code = generic_code,
            m_arg_count = arg_count, m_text = text\<rparr>, s) }"

section \<open>The printed form of a record line\<close>

text \<open>
  A record line as \<open>msgs/msgdm.cc\<close> writes it, for example
  \<open>ErrorId MsgDm::BadCharSet = { ErrorOf(ES_DM,1,E_FAILED,EV_USAGE,0), "Invalid character set." };\<close>
\<close>

definition print_msg :: "msg \<Rightarrow> string" where
  "print_msg m =
     ''ErrorId MsgDm::'' @ m_name m @ '' = { ErrorOf('' @ m_sub_code m @ '','' @ m_msg_code m @
     '','' @ m_severity_code m @ '','' @ m_generic_code m @ '','' @ m_arg_count m @ ''), '' @
     [CHR 0x22] @ m_text m @ [CHR 0x22] @ '' };''"

text \<open>
  The fields a printed line can carry: a non-empty identifier; non-empty arguments
  without commas; a message text without newline in which the closing sequence
  \<open>"\s*}\s*;\<close> does not occur (escaped quotes \<open>\"\<close> are allowed).
\<close>

definition field_ok :: "string \<Rightarrow> bool" where
  "field_ok f \<longleftrightarrow> f \<noteq> [] \<and> CHR '','' \<notin> set f"

fun text_ok :: "string \<Rightarrow> bool" where
  "text_ok [] = True"
| "text_ok (c # t) \<longleftrightarrow> c \<noteq> CHR 0x0A \<and> close_tail (c # t) = None \<and> text_ok t"

definition msg_ok :: "msg \<Rightarrow> bool" where
  "msg_ok m \<longleftrightarrow> m_name m \<noteq> [] \<and> (\<forall>c \<in> set (m_name m). is_word c) \<and>
     field_ok (m_sub_code m) \<and> field_ok (m_msg_code m) \<and> field_ok (m_severity_code m) \<and>
     field_ok (m_generic_code m) \<and> field_ok (m_arg_count m) \<and> text_ok (m_text m)"

lemmas msg_match_defs = msg_match_def lit_def skip_ws_def ws1_def word_group_def
  field_group_def last_field_group_def close_tail_def

section \<open>Lemmas on the combinators\<close>

lemma lit_append [simp]: "lit p (p @ r) = Some r"
  by (simp add: lit_def)

lemma lit_Some: "lit p s = Some r \<Longrightarrow> s = p @ r"
  by (auto simp: lit_def startswith_conv split: if_splits)

lemma skip_ws_suffix: "\<exists>p. s = p @ skip_ws s"
  by (metis skip_ws_def takeWhile_dropWhile_id)

lemma ws1_Some: "ws1 s = Some r \<Longrightarrow> \<exists>p. s = p @ r"
  by (auto simp: ws1_def skip_ws_suffix split: list.splits if_splits)

lemma skip_ws_append_nonspace:
  "\<not> py_isspace c \<Longrightarrow>
   skip_ws (u @ c # v) = (if \<forall>x \<in> set u. py_isspace x then c # v else skip_ws u @ c # v)"
  by (induction u) (auto simp: skip_ws_def)

lemma skip_ws_append_not_all:
  "\<not> (\<forall>x \<in> set u. py_isspace x) \<Longrightarrow> skip_ws (u @ v) = skip_ws u @ v"
  unfolding skip_ws_def by (meson dropWhile_append1)

lemma lit_single_append: "u \<noteq> [] \<Longrightarrow> lit [d] (u @ v) = map_option (\<lambda>r. r @ v) (lit [d] u)"
  by (cases u) (auto simp: lit_def)

lemma skip_ws_Nil_iff: "skip_ws u = [] \<longleftrightarrow> (\<forall>x \<in> set u. py_isspace x)"
  by (simp add: skip_ws_def)

text \<open>
  A quote after a non-empty text cannot be the middle of the closing sequence: the end
  of the pattern matches the longer text exactly where it matches the shorter one.
\<close>

lemma close_tail_append_quote:
  assumes "u \<noteq> []"
  shows "close_tail (u @ CHR 0x22 # v) = map_option (\<lambda>r. r @ CHR 0x22 # v) (close_tail u)"
proof -
  have q: "\<not> py_isspace (CHR 0x22)" by (simp add: py_char_defs)
  have step: "lit [d] (skip_ws (x @ CHR 0x22 # v)) =
              map_option (\<lambda>r. r @ CHR 0x22 # v) (lit [d] (skip_ws x))"
    if "d \<noteq> CHR 0x22" for d x
  proof (cases "\<forall>y \<in> set x. py_isspace y")
    case True
    then have "skip_ws x = []" by (simp add: skip_ws_Nil_iff)
    with True that q show ?thesis by (simp add: skip_ws_append_nonspace lit_def)
  next
    case False
    then obtain e y where "skip_ws x = e # y"
      by (cases "skip_ws x") (auto simp: skip_ws_Nil_iff)
    with False q show ?thesis by (auto simp: skip_ws_append_nonspace lit_def)
  qed
  obtain c u' where u: "u = c # u'" using assms by (cases u) auto
  show ?thesis
  proof (cases "c = CHR 0x22")
    case False
    then show ?thesis by (simp add: u close_tail_def lit_def)
  next
    case True
    have "close_tail (u @ CHR 0x22 # v) =
          Option.bind (lit ''}'' (skip_ws (u' @ CHR 0x22 # v))) (\<lambda>s. lit '';'' (skip_ws s))"
      by (simp add: u True close_tail_def lit_def)
    also have "\<dots> = Option.bind (map_option (\<lambda>r. r @ CHR 0x22 # v) (lit ''}'' (skip_ws u')))
                        (\<lambda>s. lit '';'' (skip_ws s))"
      using step [of "CHR ''}''" u'] by simp
    also have "\<dots> = map_option (\<lambda>r. r @ CHR 0x22 # v)
                        (Option.bind (lit ''}'' (skip_ws u')) (\<lambda>s. lit '';'' (skip_ws s)))"
      using step [of "CHR '';''"] by (cases "lit ''}'' (skip_ws u')") simp_all
    also have "\<dots> = map_option (\<lambda>r. r @ CHR 0x22 # v) (close_tail u)"
      by (simp add: u True close_tail_def lit_def)
    finally show ?thesis .
  qed
qed

lemma text_ok_Cons: "text_ok (c # t) \<Longrightarrow> text_ok t"
  by simp

lemma close_tail_print:
  "close_tail (CHR 0x22 # CHR '' '' # CHR ''}'' # CHR '';'' # rest) = Some rest"
  by (simp add: close_tail_def lit_def skip_ws_def py_char_defs)

lemma lazy_text_print:
  "text_ok t \<Longrightarrow>
   lazy_text acc (t @ CHR 0x22 # CHR '' '' # CHR ''}'' # CHR '';'' # rest) = Some (acc @ t, rest)"
proof (induction t arbitrary: acc)
  case Nil
  then show ?case by (simp add: lazy_text.simps close_tail_print)
next
  case (Cons c t)
  have "close_tail (c # t) = None" using Cons.prems by simp
  then have "close_tail (c # t @ CHR 0x22 # '' };'' @ rest) = None"
    using close_tail_append_quote [of "c # t" "CHR '' '' # CHR ''}'' # CHR '';'' # rest"] by simp
  moreover have "c \<noteq> CHR 0x0A" using Cons.prems by simp
  ultimately show ?case
    using Cons.IH [OF text_ok_Cons [OF Cons.prems]] by (simp add: lazy_text.simps [of acc])
qed

lemma takeWhile_upto: "\<forall>x \<in> set w. P x \<Longrightarrow> \<not> P c \<Longrightarrow> takeWhile P (w @ c # r) = w"
  by (induction w) auto

lemma word_group_print:
  "w \<noteq> [] \<Longrightarrow> \<forall>c \<in> set w. is_word c \<Longrightarrow> \<not> is_word c \<Longrightarrow> word_group (w @ c # r) = Some (w, c # r)"
  by (simp add: word_group_def takeWhile_upto)

lemma field_group_print: "field_ok f \<Longrightarrow> field_group (f @ CHR '','' # r) = Some (f, r)"
proof -
  assume f: "field_ok f"
  then have "takeWhile (\<lambda>c. c \<noteq> CHR '','') (f @ CHR '','' # r) = f"
    by (intro takeWhile_upto) (auto simp: field_ok_def)
  with f show ?thesis by (simp add: field_group_def field_ok_def)
qed

lemma last_field_group_print:
  "field_ok f \<Longrightarrow> last_field_group (f @ CHR '')'' # CHR '','' # r) = Some (f, r)"
proof -
  assume f: "field_ok f"
  then have "takeWhile (\<lambda>c. c \<noteq> CHR '','') ((f @ [CHR '')'']) @ CHR '','' # r) = f @ [CHR '')'']"
    by (intro takeWhile_upto) (auto simp: field_ok_def)
  with f show ?thesis by (simp add: last_field_group_def field_ok_def Suc_le_eq)
qed

lemma msg_eta:
  "\<lparr>m_name = m_name m, m_sub_code = m_sub_code m, m_msg_code = m_msg_code m,
     m_severity_code = m_severity_code m, m_generic_code = m_generic_code m,
     m_arg_count = m_arg_count m, m_text = m_text m\<rparr> = m"
  by (cases m) simp

lemma word_group_Some:
  "word_group s = Some (w, r) \<Longrightarrow> s = w @ r \<and> w \<noteq> [] \<and> (\<forall>c \<in> set w. is_word c)"
proof -
  assume "word_group s = Some (w, r)"
  then have w: "w = takeWhile is_word s" "w \<noteq> []" "r = drop (length w) s"
    by (auto simp: word_group_def Let_def split: if_splits)
  then have "r = dropWhile is_word s" by (simp add: dropWhile_eq_drop)
  with w(1) have "s = w @ r" by simp
  moreover have "\<forall>c \<in> set w. is_word c" unfolding w(1) by (auto dest: set_takeWhileD)
  ultimately show ?thesis using w(2) by blast
qed

lemma field_group_Some:
  "field_group s = Some (f, r) \<Longrightarrow> (\<exists>p. s = p @ r) \<and> field_ok f"
proof -
  assume a: "field_group s = Some (f, r)"
  let ?f = "takeWhile (\<lambda>c. c \<noteq> CHR '','') s"
  from a have f: "f = ?f" "?f \<noteq> []" and r: "r = drop 1 (drop (length ?f) s)"
    by (auto simp: field_group_def Let_def split: if_splits)
  have "s = ?f @ dropWhile (\<lambda>c. c \<noteq> CHR '','') s" by simp
  also have "dropWhile (\<lambda>c. c \<noteq> CHR '','') s = drop (length ?f) s" by (rule dropWhile_eq_drop)
  also have "drop (length ?f) s = take 1 (drop (length ?f) s) @ r" by (simp only: r append_take_drop_id)
  finally have "s = (?f @ take 1 (drop (length ?f) s)) @ r" by simp
  then have s: "\<exists>p. s = p @ r" by blast
  moreover have "CHR '','' \<notin> set ?f" by (auto dest: set_takeWhileD)
  ultimately show ?thesis using f s by (simp add: field_ok_def)
qed

lemma last_field_group_Some:
  "last_field_group s = Some (f, r) \<Longrightarrow> (\<exists>p. s = p @ r) \<and> field_ok f"
proof -
  assume a: "last_field_group s = Some (f, r)"
  let ?f = "takeWhile (\<lambda>c. c \<noteq> CHR '','') s"
  from a have f: "f = butlast ?f" "2 \<le> length ?f" and r: "r = drop 1 (drop (length ?f) s)"
    by (auto simp: last_field_group_def Let_def split: if_splits)
  have "s = ?f @ dropWhile (\<lambda>c. c \<noteq> CHR '','') s" by simp
  also have "dropWhile (\<lambda>c. c \<noteq> CHR '','') s = drop (length ?f) s" by (rule dropWhile_eq_drop)
  also have "drop (length ?f) s = take 1 (drop (length ?f) s) @ r" by (simp only: r append_take_drop_id)
  finally have "s = (?f @ take 1 (drop (length ?f) s)) @ r" by simp
  then have s: "\<exists>p. s = p @ r" by blast
  moreover have "CHR '','' \<notin> set f" using f(1) by (auto dest: set_takeWhileD in_set_butlastD)
  moreover have "f \<noteq> []" using f by (cases ?f rule: rev_cases) auto
  ultimately show ?thesis using s by (simp add: field_ok_def)
qed

lemma close_tail_Some:
  assumes "close_tail s = Some r"
  shows "\<exists>p. s = p @ r"
proof -
  from assms obtain s1 s2 where 1: "lit [CHR 0x22] s = Some s1"
    and 2: "lit ''}'' (skip_ws s1) = Some s2" and 3: "lit '';'' (skip_ws s2) = Some r"
    by (auto simp: close_tail_def bind_eq_Some_conv)
  obtain p1 where p1: "s1 = p1 @ skip_ws s1" using skip_ws_suffix by blast
  obtain p2 where p2: "s2 = p2 @ skip_ws s2" using skip_ws_suffix by blast
  have "s = [CHR 0x22] @ s1" "skip_ws s1 = ''}'' @ s2" "skip_ws s2 = '';'' @ r"
    using lit_Some [OF 1] lit_Some [OF 2] lit_Some [OF 3] by simp_all
  then have "s = ([CHR 0x22] @ p1 @ ''}'' @ p2 @ '';'') @ r"
    using p1 p2 by simp
  then show ?thesis by blast
qed

lemma lazy_text_Some:
  "lazy_text acc s = Some (t, r) \<Longrightarrow>
   (\<exists>p. s = p @ r) \<and> (\<exists>t'. t = acc @ t' \<and> CHR 0x0A \<notin> set t')"
proof (induction acc s rule: lazy_text.induct)
  case (1 acc s)
  show ?case
  proof (cases "close_tail s")
    case (Some r')
    have "lazy_text acc s = Some (acc, r')" using Some by (simp add: lazy_text.simps [of acc s])
    with "1.prems" have "t = acc" "r = r'" by simp_all
    with close_tail_Some [OF Some] show ?thesis by simp
  next
    case None
    have eq: "lazy_text acc s = (case s of [] \<Rightarrow> None
        | c # cs \<Rightarrow> if c = CHR 0x0A then None else lazy_text (acc @ [c]) cs)"
      using None by (simp add: lazy_text.simps [of acc s])
    obtain c cs where s: "s = c # cs" using "1.prems" eq by (cases s) auto
    have c: "c \<noteq> CHR 0x0A" using "1.prems" eq s by (auto split: if_splits)
    have rec: "lazy_text (acc @ [c]) cs = Some (t, r)" using "1.prems" eq s c by simp
    from "1.IH" [OF None s c rec] obtain p t' where
      "cs = p @ r" "t = (acc @ [c]) @ t'" "CHR 0x0A \<notin> set t'" by blast
    with s c have "s = (c # p) @ r" "t = acc @ (c # t')" "CHR 0x0A \<notin> set (c # t')" by auto
    then show ?thesis by blast
  qed
qed

lemma suffix_chain: "\<exists>p. a = p @ b \<Longrightarrow> \<exists>q. b = q @ c \<Longrightarrow> \<exists>p. a = p @ c"
  by (metis append.assoc)

lemma msg_match_Some:
  assumes "msg_match s = Some (m, r)"
  shows "(\<exists>p. s = p @ r \<and> p \<noteq> []) \<and> m_name m \<noteq> [] \<and> (\<forall>c \<in> set (m_name m). is_word c) \<and>
    field_ok (m_sub_code m) \<and> field_ok (m_msg_code m) \<and> field_ok (m_severity_code m) \<and>
    field_ok (m_generic_code m) \<and> field_ok (m_arg_count m) \<and> CHR 0x0A \<notin> set (m_text m)"
proof -
  from assms obtain s1 s2 s3 s4 s5 s6 s7 s8 s9 s10 s11 s12 s13 name g2 g3 g4 g5 g6 tx where
    1: "lit ''ErrorId'' (skip_ws s) = Some s1" and 2: "ws1 s1 = Some s2"
    and 3: "lit ''MsgDm::'' s2 = Some s3" and 4: "word_group s3 = Some (name, s4)"
    and 5: "lit ''='' (skip_ws s4) = Some s5" and 6: "lit ''{'' (skip_ws s5) = Some s6"
    and 7: "lit ''ErrorOf('' (skip_ws s6) = Some s7" and 8: "field_group s7 = Some (g2, s8)"
    and 9: "field_group s8 = Some (g3, s9)" and 10: "field_group s9 = Some (g4, s10)"
    and 11: "field_group s10 = Some (g5, s11)" and 12: "last_field_group s11 = Some (g6, s12)"
    and 13: "lit [CHR 0x22] (skip_ws s12) = Some s13" and 14: "lazy_text [] s13 = Some (tx, r)"
    and m: "m = \<lparr>m_name = name, m_sub_code = g2, m_msg_code = g3, m_severity_code = g4,
               m_generic_code = g5, m_arg_count = g6, m_text = tx\<rparr>"
    by (auto simp: msg_match_def bind_eq_Some_conv split: prod.splits)
  have ws: "\<exists>p. x = p @ skip_ws x" for x by (rule skip_ws_suffix)
  have litS: "lit q x = Some y \<Longrightarrow> \<exists>p. x = p @ y" for q x y by (blast dest: lit_Some)
  have e1: "\<exists>p. s = p @ s1 \<and> p \<noteq> []"
  proof -
    obtain p where "s = p @ skip_ws s" using ws by blast
    with lit_Some [OF 1] have "s = (p @ ''ErrorId'') @ s1" by simp
    then show ?thesis by blast
  qed
  have "\<exists>p. s13 = p @ r" using lazy_text_Some [OF 14] by blast
  then have "\<exists>p. s12 = p @ r" using suffix_chain [OF suffix_chain [OF ws litS [OF 13]]] by blast
  then have "\<exists>p. s11 = p @ r" using last_field_group_Some [OF 12] suffix_chain by blast
  then have "\<exists>p. s10 = p @ r" using field_group_Some [OF 11] suffix_chain by blast
  then have "\<exists>p. s9 = p @ r" using field_group_Some [OF 10] suffix_chain by blast
  then have "\<exists>p. s8 = p @ r" using field_group_Some [OF 9] suffix_chain by blast
  then have "\<exists>p. s7 = p @ r" using field_group_Some [OF 8] suffix_chain by blast
  then have "\<exists>p. s6 = p @ r" using suffix_chain [OF suffix_chain [OF ws litS [OF 7]]] by blast
  then have "\<exists>p. s5 = p @ r" using suffix_chain [OF suffix_chain [OF ws litS [OF 6]]] by blast
  then have "\<exists>p. s4 = p @ r" using suffix_chain [OF suffix_chain [OF ws litS [OF 5]]] by blast
  then have "\<exists>p. s3 = p @ r" using word_group_Some [OF 4] suffix_chain by blast
  then have "\<exists>p. s2 = p @ r" using suffix_chain [OF litS [OF 3]] by blast
  then have e2: "\<exists>p. s1 = p @ r" using suffix_chain [OF ws1_Some [OF 2]] by blast
  have "\<exists>p. s = p @ r \<and> p \<noteq> []"
    using e1 e2 by (metis append.assoc append_is_Nil_conv)
  moreover have "name \<noteq> [] \<and> (\<forall>c \<in> set name. is_word c)"
    using word_group_Some [OF 4] by blast
  moreover have "field_ok g2 \<and> field_ok g3 \<and> field_ok g4 \<and> field_ok g5 \<and> field_ok g6"
    using field_group_Some [OF 8] field_group_Some [OF 9] field_group_Some [OF 10]
      field_group_Some [OF 11] last_field_group_Some [OF 12] by blast
  moreover have "CHR 0x0A \<notin> set tx" using lazy_text_Some [OF 14] by auto
  ultimately show ?thesis by (simp add: m)
qed

text \<open>A printed record line, then anything, is matched back to its fields.\<close>

lemma print_msg_match:
  assumes "msg_ok m"
  shows "msg_match (print_msg m @ rest) = Some (m, rest)"
proof -
  from assms have name: "m_name m \<noteq> []" "\<forall>c \<in> set (m_name m). is_word c"
    and fields: "field_ok (m_sub_code m)" "field_ok (m_msg_code m)" "field_ok (m_severity_code m)"
       "field_ok (m_generic_code m)" "field_ok (m_arg_count m)"
    and tx: "text_ok (m_text m)"
    by (simp_all add: msg_ok_def)
  have sp: "\<not> is_word (CHR '' '')" by (simp add: py_char_defs)
  show ?thesis
    by (simp add: msg_eta print_msg_def msg_match_def lit_def skip_ws_def ws1_def
        word_group_print [OF name sp] field_group_print [OF fields(1)] field_group_print [OF fields(2)]
        field_group_print [OF fields(3)] field_group_print [OF fields(4)]
        last_field_group_print [OF fields(5)] lazy_text_print [OF tx] py_char_defs)
qed

section \<open>Round trip\<close>

text \<open>
  Claim C4. A record line printed in the layout of \<open>msgs/msgdm.cc\<close>,
  followed by any text, is matched by the pattern: the seven groups are the printed
  fields and the rest of the buffer is the text that followed, provided the fields are
  what the groups can hold (\<open>msg_ok\<close>).
\<close>

theorem msg_match_prints:
  assumes "msg_ok m"
  shows "msg_match (print_msg m @ rest) = Some (m, rest)"
  using assms by (rule print_msg_match)

theorem msg_match_prints_witness:
  "msg_ok \<lparr>m_name = ''BadCharSet'', m_sub_code = ''ES_DM'', m_msg_code = ''1'',
      m_severity_code = ''E_FAILED'', m_generic_code = ''EV_USAGE'', m_arg_count = ''0'',
      m_text = ''Bad.''\<rparr> \<and>
   msg_match (print_msg \<lparr>m_name = ''BadCharSet'', m_sub_code = ''ES_DM'', m_msg_code = ''1'',
      m_severity_code = ''E_FAILED'', m_generic_code = ''EV_USAGE'', m_arg_count = ''0'',
      m_text = ''Bad.''\<rparr> @ ''//x'') =
   Some (\<lparr>m_name = ''BadCharSet'', m_sub_code = ''ES_DM'', m_msg_code = ''1'',
      m_severity_code = ''E_FAILED'', m_generic_code = ''EV_USAGE'', m_arg_count = ''0'',
      m_text = ''Bad.''\<rparr>, ''//x'')"
proof -
  have ok: "msg_ok \<lparr>m_name = ''BadCharSet'', m_sub_code = ''ES_DM'', m_msg_code = ''1'',
      m_severity_code = ''E_FAILED'', m_generic_code = ''EV_USAGE'', m_arg_count = ''0'',
      m_text = ''Bad.''\<rparr>"
    by (simp add: msg_ok_def field_ok_def close_tail_def lit_def py_char_defs)
  show ?thesis using ok msg_match_prints [OF ok, of "''//x''"] by blast
qed

end
