(* ===== verification/Scanner.thy ===== *)
theory Scanner
  imports MsgPattern
begin

text \<open>
  The source scanner \<open>parse_msgdm\<close> of \<open>src/p4java/generate-error-codes.py\<close>
  (lines 166--219).  The loop variables \<open>lineno\<close>, \<open>multiline_comment\<close>, \<open>buff\<close>
  and \<open>ret\<close> form the record \<open>scan_state\<close>; one iteration of the \<open>for\<close> loop is
  \<open>scan_line\<close>, its tail from the \<open>#\<close> test on (lines 206--218) is \<open>code_line\<close>,
  and the loop is \<open>scan_lines\<close>.  The raised exceptions are the values of
  \<open>scan_error\<close>: the two \<open>Exception\<close>s with their line number, and the
  \<open>IndexError\<close> that \<open>line[0]\<close> would raise on an empty line (proved never to
  happen).  \<open>f.readlines()\<close> on a file opened in text mode is \<open>readlines\<close>, with
  universal newlines.  The lemmas give the step invariants (line counting, records
  only appended, at most one per line, every record well formed) and lift them to
  whole runs.  A file of clean printed record lines (\<open>print_file\<close>) is read back as
  its records.
\<close>

record scan_state =
  lineno :: nat
  multiline_comment :: bool
  buff :: string
  ret :: "msg list"

datatype scan_error =
    ExtraAfterClose string nat
  | ExtraBeforeOpen nat
  | LineIndexError nat

definition init_scan :: scan_state where
  "init_scan = \<lparr>lineno = 0, multiline_comment = False, buff = [], ret = []\<rparr>"

section \<open>Reading the file\<close>

text \<open>Universal newlines: \<open>\r\n\<close> and \<open>\r\<close> are read as \<open>\n\<close>.\<close>

fun universal_newlines :: "string \<Rightarrow> string" where
  "universal_newlines (CHR 0x0D # CHR 0x0A # cs) = CHR 0x0A # universal_newlines cs"
| "universal_newlines (CHR 0x0D # cs) = CHR 0x0A # universal_newlines cs"
| "universal_newlines (c # cs) = c # universal_newlines cs"
| "universal_newlines [] = []"

text \<open>\<open>readlines()\<close>: the lines with their terminators; a last line without one is kept.\<close>

fun split_lines :: "string \<Rightarrow> string \<Rightarrow> string list" where
  "split_lines cur [] = (if cur = [] then [] else [cur])"
| "split_lines cur (c # cs) =
     (if c = CHR 0x0A then (cur @ [c]) # split_lines [] cs else split_lines (cur @ [c]) cs)"

definition readlines :: "string \<Rightarrow> string list" where
  "readlines content = split_lines [] (universal_newlines content)"

section \<open>One line\<close>

text \<open>The record appended by \<open>ret.append([m.group(1).strip(), ...])\<close>.\<close>

definition strip_msg :: "msg \<Rightarrow> msg" where
  "strip_msg m = \<lparr>m_name = py_strip (m_name m), m_sub_code = py_strip (m_sub_code m),
     m_msg_code = py_strip (m_msg_code m), m_severity_code = py_strip (m_severity_code m),
     m_generic_code = py_strip (m_generic_code m), m_arg_count = py_strip (m_arg_count m),
     m_text = py_strip (m_text m)\<rparr>"

text \<open>Lines 206--218: skip a preprocessor line, else append to the buffer and match.\<close>

definition code_line :: "scan_state \<Rightarrow> string \<Rightarrow> scan_error + scan_state" where
  "code_line st line =
     (case line of
        [] \<Rightarrow> Inl (LineIndexError (lineno st))
      | c # _ \<Rightarrow>
          if c = CHR ''#'' then Inr st
          else (let b = buff st @ line in
                case msg_match b of
                  Some (m, rest) \<Rightarrow> Inr (st\<lparr>ret := ret st @ [strip_msg m], buff := rest\<rparr>)
                | None \<Rightarrow> Inr (st\<lparr>buff := b\<rparr>)))"

text \<open>Lines 173--218: one iteration of the loop over the lines.\<close>

definition scan_line :: "scan_state \<Rightarrow> string \<Rightarrow> scan_error + scan_state" where
  "scan_line st0 raw =
     (let n = Suc (lineno st0); st = st0\<lparr>lineno := n\<rparr>; line = py_strip raw in
      if length line \<le> 0 then Inr st
      else if multiline_comment st then
        (case py_find line ''*/'' of
           Some p \<Rightarrow>
             (let rest = py_strip (drop (p + 2) line) in
              if 0 < length rest then Inl (ExtraAfterClose rest n)
              else Inr (st\<lparr>multiline_comment := False\<rparr>))
         | None \<Rightarrow> Inr st)
      else
        (case py_find line ''/*'' of
           Some p \<Rightarrow>
             (if 0 < length (py_strip (take p line)) then Inl (ExtraBeforeOpen n)
              else Inr (st\<lparr>multiline_comment := True\<rparr>))
         | None \<Rightarrow>
             (case py_find line ''//'' of
                Some p \<Rightarrow>
                  (let b = take p line; a = drop (p + 2) line in
                   if odd (count_list b (CHR 0x22)) \<and> odd (count_list a (CHR 0x22))
                   then code_line st line
                   else (let line' = py_strip (take p line) in
                         if length line' \<le> 0 then Inr st else code_line st line'))
              | None \<Rightarrow> code_line st line)))"

fun scan_lines :: "scan_state \<Rightarrow> string list \<Rightarrow> scan_error + scan_state" where
  "scan_lines st [] = Inr st"
| "scan_lines st (l # ls) = (case scan_line st l of Inl e \<Rightarrow> Inl e | Inr st' \<Rightarrow> scan_lines st' ls)"

definition parse_msgdm :: "string \<Rightarrow> scan_error + msg list" where
  "parse_msgdm content = map_sum id ret (scan_lines init_scan (readlines content))"

section \<open>Well-formed records and error positions\<close>

text \<open>
  What every record of \<open>ret\<close> satisfies: the pattern's groups, stripped.  The
  name is a non-empty run of word characters, the five arguments have no comma, the
  text has no newline, and all of them are stripped.  An argument may be empty: the
  group \<open>([^,]+)\<close> accepts a run of blanks, which \<open>strip()\<close> empties.
\<close>

definition record_ok :: "msg \<Rightarrow> bool" where
  "record_ok m \<longleftrightarrow> m_name m \<noteq> [] \<and> (\<forall>c \<in> set (m_name m). is_word c) \<and>
     (\<forall>f \<in> {m_sub_code m, m_msg_code m, m_severity_code m, m_generic_code m, m_arg_count m}.
        CHR '','' \<notin> set f \<and> py_strip f = f) \<and>
     CHR 0x0A \<notin> set (m_text m) \<and> py_strip (m_text m) = m_text m"

fun err_line :: "scan_error \<Rightarrow> nat" where
  "err_line (ExtraAfterClose _ n) = n"
| "err_line (ExtraBeforeOpen n) = n"
| "err_line (LineIndexError n) = n"

text \<open>
  The line an error is raised on, as the code sees it: a closing \<open>*/\<close> inside a
  block comment with text after it, or an opening \<open>/*\<close> outside one with text
  before it.
\<close>

fun error_at :: "bool \<Rightarrow> string \<Rightarrow> scan_error \<Rightarrow> bool" where
  "error_at in_comment l (ExtraAfterClose s n) \<longleftrightarrow>
     in_comment \<and> s \<noteq> [] \<and> py_find (py_strip l) ''*/'' \<noteq> None"
| "error_at in_comment l (ExtraBeforeOpen n) \<longleftrightarrow>
     \<not> in_comment \<and> py_find (py_strip l) ''/*'' \<noteq> None"
| "error_at in_comment l (LineIndexError n) \<longleftrightarrow> False"

text \<open>A buffer whose first non-blank character cannot start \<open>ErrorId\<close>.\<close>

definition dead_buff :: "string \<Rightarrow> bool" where
  "dead_buff b \<longleftrightarrow> (case skip_ws b of [] \<Rightarrow> False | c # _ \<Rightarrow> c \<noteq> CHR ''E'')"

text \<open>
  A record line the scanner reads as it is: one physical line, without a carriage
  return and without the comment openers \<open>/*\<close> and \<open>//\<close>.  A file of such lines is
  \<open>print_file\<close>.
\<close>

definition clean_line :: "string \<Rightarrow> bool" where
  "clean_line l \<longleftrightarrow> CHR 0x0A \<notin> set l \<and> CHR 0x0D \<notin> set l \<and>
     py_find l ''/*'' = None \<and> py_find l ''//'' = None"

definition file_of :: "string list \<Rightarrow> string" where
  "file_of ls = concat (map (\<lambda>l. l @ [CHR 0x0A]) ls)"

definition print_file :: "msg list \<Rightarrow> string" where
  "print_file ms = concat (map (\<lambda>m. print_msg m @ [CHR 0x0A]) ms)"

section \<open>Step lemmas\<close>

lemma code_line_Inr:
  "code_line st line = Inr st' \<Longrightarrow>
   lineno st' = lineno st \<and> multiline_comment st' = multiline_comment st \<and>
   (ret st' = ret st \<and> (buff st' = buff st \<or> buff st' = buff st @ line) \<or>
    (\<exists>m r. msg_match (buff st @ line) = Some (m, r) \<and> ret st' = ret st @ [strip_msg m] \<and> buff st' = r))"
  by (auto simp: code_line_def Let_def split: list.splits if_splits option.splits)

lemma code_line_Inl: "code_line st line = Inl e \<Longrightarrow> line = []"
  by (auto simp: code_line_def Let_def split: list.splits if_splits option.splits)

lemma scan_line_Inr:
  "scan_line st l = Inr st' \<Longrightarrow>
   lineno st' = Suc (lineno st) \<and>
   (ret st' = ret st \<or> (\<exists>b m r. msg_match b = Some (m, r) \<and> ret st' = ret st @ [strip_msg m]))"
  by (auto simp: scan_line_def Let_def split: if_splits option.splits dest!: code_line_Inr) blast+

lemma scan_line_Inl:
  "scan_line st l = Inl e \<Longrightarrow> err_line e = Suc (lineno st) \<and> error_at (multiline_comment st) l e"
  by (auto simp: scan_line_def Let_def split: if_splits option.splits dest: code_line_Inl)

lemma is_word_not_space: "is_word c \<Longrightarrow> \<not> py_isspace c"
  by (auto simp: py_char_defs)

lemma record_ok_strip_msg: "msg_match b = Some (m, r) \<Longrightarrow> record_ok (strip_msg m)"
proof -
  assume "msg_match b = Some (m, r)"
  then have n: "\<forall>c \<in> set (m_name m). is_word c" "m_name m \<noteq> []"
    and nl: "CHR 0x0A \<notin> set (m_text m)"
    and f: "field_ok (m_sub_code m)" "field_ok (m_msg_code m)" "field_ok (m_severity_code m)"
      "field_ok (m_generic_code m)" "field_ok (m_arg_count m)"
    using msg_match_Some by blast+
  have "py_strip (m_name m) = m_name m" using n(1) by (auto intro: py_strip_id dest: is_word_not_space)
  moreover have "CHR '','' \<notin> set (py_strip x)" if "field_ok x" for x
    using that set_py_strip [of x] by (auto simp: field_ok_def)
  moreover have "CHR 0x0A \<notin> set (py_strip (m_text m))" using nl set_py_strip by blast
  ultimately show ?thesis using n f by (simp add: record_ok_def strip_msg_def)
qed

lemma scan_line_records:
  "scan_line st l = Inr st' \<Longrightarrow>
   \<exists>ms. ret st' = ret st @ ms \<and> length ms \<le> 1 \<and> (\<forall>m \<in> set ms. record_ok m)"
  by (drule scan_line_Inr) (auto dest: record_ok_strip_msg)

section \<open>Run lemmas\<close>

lemma scan_lines_Inr:
  "scan_lines st ls = Inr st' \<Longrightarrow>
   lineno st' = lineno st + length ls \<and>
   (\<exists>ms. ret st' = ret st @ ms \<and> length ms \<le> length ls \<and> (\<forall>m \<in> set ms. record_ok m))"
proof (induction ls arbitrary: st)
  case Nil
  then show ?case by simp
next
  case (Cons l ls)
  then obtain st1 where s1: "scan_line st l = Inr st1" and run: "scan_lines st1 ls = Inr st'"
    by (auto split: sum.splits)
  from Cons.IH [OF run] obtain ms where
    "lineno st' = lineno st1 + length ls" "ret st' = ret st1 @ ms" "length ms \<le> length ls"
    "\<forall>m \<in> set ms. record_ok m" by blast
  moreover from scan_line_records [OF s1] obtain ms1 where
    "ret st1 = ret st @ ms1" "length ms1 \<le> 1" "\<forall>m \<in> set ms1. record_ok m" by blast
  moreover have "lineno st1 = Suc (lineno st)" using scan_line_Inr [OF s1] by blast
  ultimately show ?case by (intro conjI exI [of _ "ms1 @ ms"]) auto
qed

lemma scan_lines_Inl:
  "scan_lines st ls = Inl e \<Longrightarrow>
   \<exists>i < length ls. err_line e = lineno st + Suc i \<and> (\<exists>b. error_at b (ls ! i) e)"
proof (induction ls arbitrary: st)
  case Nil
  then show ?case by simp
next
  case (Cons l ls)
  show ?case
  proof (cases "scan_line st l")
    case (Inl e')
    with Cons.prems have "e' = e" by simp
    with scan_line_Inl [OF Inl] show ?thesis by auto
  next
    case (Inr st1)
    with Cons.prems have run: "scan_lines st1 ls = Inl e" by simp
    from Cons.IH [OF run] obtain i where "i < length ls" "err_line e = lineno st1 + Suc i"
      "\<exists>b. error_at b (ls ! i) e" by blast
    moreover have "lineno st1 = Suc (lineno st)" using scan_line_Inr [OF Inr] by blast
    ultimately show ?thesis by (intro exI [of _ "Suc i"]) auto
  qed
qed

section \<open>A buffer that can no longer match\<close>

lemma skip_ws_dead_append: "skip_ws b = c # r \<Longrightarrow> skip_ws (b @ t) = c # r @ t"
proof -
  assume h: "skip_ws b = c # r"
  then have "\<not> (\<forall>x \<in> set b. py_isspace x)" by (auto simp: skip_ws_Nil_iff [symmetric])
  with h show ?thesis by (simp add: skip_ws_append_not_all)
qed

lemma dead_buff_append: "dead_buff b \<Longrightarrow> dead_buff (b @ t)"
  by (auto simp: dead_buff_def skip_ws_dead_append split: list.splits)

lemma msg_match_dead: "dead_buff b \<Longrightarrow> msg_match (b @ t) = None"
  by (auto simp: dead_buff_def msg_match_def lit_def skip_ws_dead_append split: list.splits)

lemma code_line_dead:
  "dead_buff (buff st) \<Longrightarrow> code_line st l = Inr st' \<Longrightarrow> ret st' = ret st \<and> dead_buff (buff st')"
  by (auto simp: code_line_def Let_def msg_match_dead dead_buff_append split: list.splits if_splits)

lemma scan_line_Inr_cases:
  "scan_line st l = Inr st' \<Longrightarrow>
   (ret st' = ret st \<and> buff st' = buff st) \<or> (\<exists>x. code_line (st\<lparr>lineno := Suc (lineno st)\<rparr>) x = Inr st')"
  by (auto simp: scan_line_def Let_def split: if_splits option.splits)

lemma scan_line_dead:
  assumes "dead_buff (buff st)" and "scan_line st l = Inr st'"
  shows "ret st' = ret st \<and> dead_buff (buff st')"
proof -
  have dd: "dead_buff (buff (st\<lparr>lineno := Suc (lineno st)\<rparr>))" using assms(1) by simp
  show ?thesis
  proof (cases "ret st' = ret st \<and> buff st' = buff st")
    case True
    with assms(1) show ?thesis by simp
  next
    case False
    with scan_line_Inr_cases [OF assms(2)] obtain x
      where c: "code_line (st\<lparr>lineno := Suc (lineno st)\<rparr>) x = Inr st'" by blast
    from code_line_dead [OF dd c] show ?thesis by simp
  qed
qed

lemma parse_msgdm_Inr:
  "parse_msgdm content = Inr ms \<Longrightarrow>
   length ms \<le> length (readlines content) \<and> (\<forall>m \<in> set ms. record_ok m)"
proof -
  assume a: "parse_msgdm content = Inr ms"
  then obtain st' where run: "scan_lines init_scan (readlines content) = Inr st'" and ms: "ms = ret st'"
    by (cases "scan_lines init_scan (readlines content)") (auto simp: parse_msgdm_def)
  from scan_lines_Inr [OF run] ms show ?thesis by (auto simp: init_scan_def)
qed

lemma parse_msgdm_Inl:
  "parse_msgdm content = Inl e \<Longrightarrow>
   \<exists>i < length (readlines content). err_line e = Suc i \<and> (\<exists>b. error_at b (readlines content ! i) e)"
proof -
  assume a: "parse_msgdm content = Inl e"
  then have run: "scan_lines init_scan (readlines content) = Inl e"
    by (cases "scan_lines init_scan (readlines content)") (auto simp: parse_msgdm_def)
  from scan_lines_Inl [OF run] show ?thesis by (simp add: init_scan_def)
qed

section \<open>Files of lines\<close>

lemma universal_newlines_id: "CHR 0x0D \<notin> set s \<Longrightarrow> universal_newlines s = s"
  by (induction s rule: universal_newlines.induct) auto

lemma split_lines_line:
  "CHR 0x0A \<notin> set l \<Longrightarrow> split_lines cur (l @ CHR 0x0A # rest) = (cur @ l @ [CHR 0x0A]) # split_lines [] rest"
  by (induction l arbitrary: cur) auto

lemma readlines_file_of:
  "\<forall>l \<in> set ls. CHR 0x0A \<notin> set l \<and> CHR 0x0D \<notin> set l \<Longrightarrow>
   readlines (file_of ls) = map (\<lambda>l. l @ [CHR 0x0A]) ls"
proof -
  assume ol: "\<forall>l \<in> set ls. CHR 0x0A \<notin> set l \<and> CHR 0x0D \<notin> set l"
  have "CHR 0x0D \<notin> set (file_of ls)" using ol by (auto simp: file_of_def)
  moreover have "split_lines [] (file_of ls) = map (\<lambda>l. l @ [CHR 0x0A]) ls"
    using ol by (induction ls) (simp_all add: file_of_def split_lines_line)
  ultimately show ?thesis by (simp add: readlines_def universal_newlines_id)
qed

lemma print_file_file_of: "print_file ms = file_of (map print_msg ms)"
  by (simp add: print_file_def file_of_def o_def)

lemma clean_line_one_line: "clean_line l \<Longrightarrow> CHR 0x0A \<notin> set l \<and> CHR 0x0D \<notin> set l"
  by (simp add: clean_line_def)

lemma scan_lines_append:
  "scan_lines st (xs @ ys) = (case scan_lines st xs of Inl e \<Rightarrow> Inl e | Inr st' \<Rightarrow> scan_lines st' ys)"
  by (induction xs arbitrary: st) (simp_all split: sum.split)

lemma print_msg_shape: "\<exists>u. print_msg m = CHR ''E'' # u @ [CHR '';'']"
  by (simp add: print_msg_def)

lemma py_strip_ends:
  "\<not> py_isspace a \<Longrightarrow> \<not> py_isspace b \<Longrightarrow> py_strip (a # u @ [b, CHR 0x0A]) = a # u @ [b]"
  by (simp add: py_strip_def py_lstrip_def py_rstrip_def py_char_defs)

lemma py_strip_print_line: "py_strip (print_msg m @ [CHR 0x0A]) = print_msg m"
proof -
  obtain u where u: "print_msg m = CHR ''E'' # u @ [CHR '';'']" using print_msg_shape by blast
  show ?thesis using py_strip_ends [of "CHR ''E''" "CHR '';''" u] by (simp add: u py_char_defs)
qed

lemma py_find_start: "startswith s n \<Longrightarrow> py_find s n = Some 0"
  by (simp add: py_find_def find_from.simps)

text \<open>A code line that starts like a record line, read outside a comment with an empty buffer.\<close>

lemma scan_line_match:
  assumes "l = CHR ''E'' # u @ [CHR '';'']" "clean_line l" "msg_match l = Some (m, r)"
    "buff st = []" "\<not> multiline_comment st"
  shows "scan_line st (l @ [CHR 0x0A]) =
    Inr (st\<lparr>lineno := Suc (lineno st), ret := ret st @ [strip_msg m], buff := r\<rparr>)"
proof -
  have s: "py_strip (l @ [CHR 0x0A]) = l" using assms(1) py_strip_ends [of "CHR ''E''" "CHR '';''" u]
    by (simp add: py_char_defs)
  have nf: "py_find l ''/*'' = None" "py_find l ''//'' = None" using assms(2) by (simp_all add: clean_line_def)
  show ?thesis using assms(1,3-5) s nf by (simp add: scan_line_def code_line_def Let_def)
qed

lemma scan_line_print:
  assumes "msg_ok m" "clean_line (print_msg m)" "buff st = []" "\<not> multiline_comment st"
  shows "scan_line st (print_msg m @ [CHR 0x0A]) =
    Inr (st\<lparr>lineno := Suc (lineno st), ret := ret st @ [strip_msg m]\<rparr>)"
proof -
  obtain u where u: "print_msg m = CHR ''E'' # u @ [CHR '';'']" using print_msg_shape by blast
  have mm: "msg_match (print_msg m) = Some (m, [])" using print_msg_match [OF assms(1), of "[]"] by simp
  show ?thesis using scan_line_match [OF u assms(2) mm assms(3,4)] assms(3) by simp
qed

lemma scan_lines_print:
  "\<forall>m \<in> set ms. msg_ok m \<and> clean_line (print_msg m) \<Longrightarrow> buff st = [] \<Longrightarrow> \<not> multiline_comment st \<Longrightarrow>
   scan_lines st (map (\<lambda>m. print_msg m @ [CHR 0x0A]) ms) =
   Inr (st\<lparr>lineno := lineno st + length ms, ret := ret st @ map strip_msg ms\<rparr>)"
proof (induction ms arbitrary: st)
  case Nil
  then show ?case by simp
next
  case (Cons m ms)
  then show ?case by (simp add: scan_line_print)
qed

lemma print_file_parses:
  "\<forall>m \<in> set ms. msg_ok m \<and> clean_line (print_msg m) \<Longrightarrow>
   parse_msgdm (print_file ms) = Inr (map strip_msg ms)"
proof -
  assume ok: "\<forall>m \<in> set ms. msg_ok m \<and> clean_line (print_msg m)"
  then have "readlines (print_file ms) = map (\<lambda>m. print_msg m @ [CHR 0x0A]) ms"
    by (simp add: print_file_file_of readlines_file_of clean_line_def o_def)
  with ok show ?thesis by (simp add: parse_msgdm_def scan_lines_print init_scan_def)
qed

text \<open>A line that opens a block comment, a line inside one, and a closing line with text after it.\<close>

lemma scan_line_open:
  "\<not> multiline_comment st \<Longrightarrow> startswith (py_strip l) ''/*'' \<Longrightarrow>
   scan_line st l = Inr (st\<lparr>lineno := Suc (lineno st), multiline_comment := True\<rparr>)"
proof -
  assume nc: "\<not> multiline_comment st" and o: "startswith (py_strip l) ''/*''"
  then have ne: "\<not> length (py_strip l) \<le> 0" by (cases "py_strip l") auto
  have e: "py_strip [] = []" by (simp add: py_strip_def py_lstrip_def py_rstrip_def)
  show ?thesis using nc ne e py_find_start [OF o] by (simp add: scan_line_def Let_def)
qed

lemma scan_lines_comment_body:
  "multiline_comment st \<Longrightarrow> \<forall>l \<in> set ls. py_find (py_strip l) ''*/'' = None \<Longrightarrow>
   scan_lines st ls = Inr (st\<lparr>lineno := lineno st + length ls\<rparr>)"
  by (induction ls arbitrary: st) (auto simp: scan_line_def Let_def)

lemma py_rstrip_append_nonblank:
  "\<not> (\<forall>c \<in> set t. py_isspace c) \<Longrightarrow> py_rstrip (a @ t) = a @ py_rstrip t"
proof -
  assume "\<not> (\<forall>c \<in> set t. py_isspace c)"
  then obtain x where "x \<in> set (rev t)" "\<not> py_isspace x" by auto
  then have "dropWhile py_isspace (rev t @ rev a) = dropWhile py_isspace (rev t) @ rev a"
    by (rule dropWhile_append1)
  then show ?thesis by (simp add: py_rstrip_def)
qed

lemma py_strip_rstrip: "py_strip (py_rstrip t) = py_strip t"
  by (simp add: py_strip_def py_lstrip_rstrip)

lemma py_strip_snoc_space: "py_isspace x \<Longrightarrow> py_strip (l @ [x]) = py_strip l"
proof (cases "\<forall>c \<in> set l. py_isspace c")
  case True
  assume "py_isspace x"
  with True have "dropWhile py_isspace (l @ [x]) = []" "dropWhile py_isspace l = []"
    by (simp_all add: dropWhile_eq_Nil_conv)
  then show ?thesis by (simp only: py_strip_def py_lstrip_def)
next
  case False
  assume x: "py_isspace x"
  from False obtain y where "y \<in> set l" "\<not> py_isspace y" by auto
  then have "dropWhile py_isspace (l @ [x]) = dropWhile py_isspace l @ [x]"
    by (rule dropWhile_append1)
  with x show ?thesis by (simp add: py_strip_def py_lstrip_def py_rstrip_def)
qed

lemma scan_line_close_trailing:
  assumes "multiline_comment st" "py_strip t \<noteq> []"
  shows "scan_line st (''*/'' @ t @ [CHR 0x0A]) = Inl (ExtraAfterClose (py_strip t) (Suc (lineno st)))"
proof -
  have nb: "\<not> (\<forall>c \<in> set t. py_isspace c)" using assms(2) by (simp add: py_strip_Nil_iff)
  have "py_rstrip (''*/'' @ t @ [CHR 0x0A]) = ''*/'' @ py_rstrip t"
    using nb py_rstrip_append_nonblank [of "t @ [CHR 0x0A]" "''*/''"]
      py_rstrip_append_nonblank [of "[CHR 0x0A]" t]
    by (auto simp: py_rstrip_def py_char_defs)
  then have s: "py_strip (''*/'' @ t @ [CHR 0x0A]) = ''*/'' @ py_rstrip t"
    by (simp add: py_strip_def py_lstrip_def py_char_defs)
  show ?thesis using assms s py_find_start [of "''*/'' @ py_rstrip t" "''*/''"]
    by (simp add: scan_line_def Let_def py_strip_rstrip)
qed

lemma scan_line_text_open:
  assumes "l = CHR ''E'' # u @ [CHR '';'']" "py_find l ''/*'' \<noteq> None" "\<not> multiline_comment st"
  shows "scan_line st (l @ [CHR 0x0A]) = Inl (ExtraBeforeOpen (Suc (lineno st)))"
proof -
  have s: "py_strip (l @ [CHR 0x0A]) = l" using assms(1) py_strip_ends [of "CHR ''E''" "CHR '';''" u]
    by (simp add: py_char_defs)
  obtain p where p: "py_find l ''/*'' = Some p" using assms(2) by blast
  have "p \<noteq> 0" using py_find_Some [OF p] assms(1) by (cases p) auto
  then have "py_strip (take p l) \<noteq> []"
    using assms(1) by (cases p) (auto simp: py_strip_Nil_iff py_char_defs)
  with s p assms(1,3) show ?thesis by (simp add: scan_line_def Let_def)
qed

lemma startswith_slashes: "startswith (drop p l) ''//'' \<Longrightarrow> p < length l \<and> l ! p = CHR ''/''"
proof -
  assume "startswith (drop p l) ''//''"
  then have t: "take 2 (drop p l) = ''//''" by (simp add: startswith_def numeral_2_eq_2)
  then have "length (take 2 (drop p l)) = 2" by simp
  then have lt: "p < length l" by simp
  have "l ! p = take 2 (drop p l) ! 0" using lt by simp
  with lt t show ?thesis by simp
qed

lemma print_msg_prefix:
  assumes "\<forall>c \<in> set (m_name m @ m_sub_code m @ m_msg_code m @ m_severity_code m @ m_generic_code m @
      m_arg_count m). c \<noteq> CHR 0x22 \<and> c \<noteq> CHR ''/''"
  shows "\<exists>pre. print_msg m = pre @ m_text m @ [CHR 0x22] @ '' };'' \<and>
    count_list pre (CHR 0x22) = 1 \<and> CHR ''/'' \<notin> set pre"
proof -
  let ?pre = "''ErrorId MsgDm::'' @ m_name m @ '' = { ErrorOf('' @ m_sub_code m @ '','' @ m_msg_code m @
     '','' @ m_severity_code m @ '','' @ m_generic_code m @ '','' @ m_arg_count m @ ''), '' @ [CHR 0x22]"
  have "print_msg m = ?pre @ m_text m @ [CHR 0x22] @ '' };''" by (simp add: print_msg_def)
  moreover have "count_list (m_name m @ m_sub_code m @ m_msg_code m @ m_severity_code m @
      m_generic_code m @ m_arg_count m) (CHR 0x22) = 0"
    using assms by (simp only: count_list_0_iff) blast
  then have "count_list ?pre (CHR 0x22) = 1" by simp
  moreover have "CHR ''/'' \<notin> set ?pre" using assms by auto
  ultimately show ?thesis by blast
qed

lemma print_msg_slashes:
  assumes "\<forall>c \<in> set (m_name m @ m_sub_code m @ m_msg_code m @ m_severity_code m @ m_generic_code m @
      m_arg_count m). c \<noteq> CHR 0x22 \<and> c \<noteq> CHR ''/''"
    and "CHR 0x22 \<notin> set (m_text m)" "m_text m = a @ ''//'' @ b"
  shows "\<exists>p. py_find (print_msg m) ''//'' = Some p \<and>
    odd (count_list (take p (print_msg m)) (CHR 0x22)) \<and>
    odd (count_list (drop (p + 2) (print_msg m)) (CHR 0x22))"
proof -
  obtain pre where l: "print_msg m = pre @ m_text m @ [CHR 0x22] @ '' };''"
    and c1: "count_list pre (CHR 0x22) = 1" and ns: "CHR ''/'' \<notin> set pre"
    using print_msg_prefix [OF assms(1)] by blast
  have "py_find (print_msg m) ''//'' \<noteq> None"
    using py_find_append_needle [of "pre @ a" "''//''" "b @ [CHR 0x22] @ '' };''"] by (simp add: l assms(3))
  then obtain p where p: "py_find (print_msg m) ''//'' = Some p" by blast
  note f = py_find_Some [OF p]
  have ge: "length pre \<le> p"
  proof (rule ccontr)
    assume lt: "\<not> length pre \<le> p"
    from f have "print_msg m ! p = CHR ''/''" using startswith_slashes by blast
    with lt have "pre ! p = CHR ''/''" by (simp add: l nth_append)
    with lt ns show False by (metis nth_mem not_le)
  qed
  have "startswith (drop (length pre + length a) (print_msg m)) ''//''" by (simp add: l assms(3))
  then have "p \<le> length pre + length a" using f by (meson not_le)
  with ge obtain k where k: "p = length pre + k" "k \<le> length a" by (metis add_le_cancel_left le_add_diff_inverse)
  have kt: "k + 2 \<le> length (m_text m)" using k(2) assms(3) by simp
  have tk: "take p (print_msg m) = pre @ take k (m_text m)" using k kt by (simp add: l)
  have dk: "drop (p + 2) (print_msg m) = drop (k + 2) (m_text m) @ [CHR 0x22] @ '' };''"
    using k kt by (simp add: l)
  have "CHR 0x22 \<notin> set (take k (m_text m))" "CHR 0x22 \<notin> set (drop (k + 2) (m_text m))"
    using assms(2) by (meson in_set_takeD in_set_dropD)+
  then have "count_list (take k (m_text m)) (CHR 0x22) = 0" "count_list (drop (k + 2) (m_text m)) (CHR 0x22) = 0"
    by (simp_all add: count_list_0_iff)
  with c1 tk dk p show ?thesis by simp
qed


lemma scan_line_quoted_slashes:
  assumes "l = CHR ''E'' # u @ [CHR '';'']" "py_find l ''/*'' = None" "py_find l ''//'' = Some p"
    "odd (count_list (take p l) (CHR 0x22))" "odd (count_list (drop (p + 2) l) (CHR 0x22))"
    "msg_match l = Some (m, r)" "buff st = []" "\<not> multiline_comment st"
  shows "scan_line st (l @ [CHR 0x0A]) =
    Inr (st\<lparr>lineno := Suc (lineno st), ret := ret st @ [strip_msg m], buff := r\<rparr>)"
proof -
  have s: "py_strip (l @ [CHR 0x0A]) = l" using assms(1) py_strip_ends [of "CHR ''E''" "CHR '';''" u]
    by (simp add: py_char_defs)
  show ?thesis using assms(1-8) s by (simp add: scan_line_def code_line_def Let_def)
qed

lemmas scan_eval =
 parse_msgdm_def readlines_def init_scan_def scan_line_def code_line_def
  py_strip_def py_lstrip_def py_rstrip_def py_find_def find_from.simps strip_msg_def
  msg_match_defs lazy_text.simps py_char_defs

section \<open>Properties of the scanner\<close>

text \<open>
  Claim C3. Every record the scanner returns is well formed
  (\<open>record_ok\<close>): a non-empty word as name, stripped comma-free arguments, a
  stripped one-line text.
\<close>

theorem parse_msgdm_records_ok:
  "case parse_msgdm content of Inl e \<Rightarrow> True | Inr ms \<Rightarrow> (\<forall>m \<in> set ms. record_ok m)"
  by (auto split: sum.splits dest: parse_msgdm_Inr)

theorem parse_msgdm_records_ok_witness:
  "parse_msgdm ((''ErrorId MsgDm::V = { ErrorOf(ES_DM,3,E_FAILED,EV_USAGE,0), '' @ [CHR 0x22] @ ''v'' @ [CHR 0x22] @ '' };'') @ [CHR 0x0A]) = Inr [\<lparr>m_name = ''V'', m_sub_code = ''ES_DM'', m_msg_code = ''3'', m_severity_code = ''E_FAILED'', m_generic_code = ''EV_USAGE'', m_arg_count = ''0'', m_text = ''v''\<rparr>] \<and>
   (case parse_msgdm ((''ErrorId MsgDm::V = { ErrorOf(ES_DM,3,E_FAILED,EV_USAGE,0), '' @ [CHR 0x22] @ ''v'' @ [CHR 0x22] @ '' };'') @ [CHR 0x0A]) of Inl e \<Rightarrow> True | Inr ms \<Rightarrow> (\<forall>m \<in> set ms. record_ok m))"
  using parse_msgdm_records_ok [of "((''ErrorId MsgDm::V = { ErrorOf(ES_DM,3,E_FAILED,EV_USAGE,0), '' @ [CHR 0x22] @ ''v'' @ [CHR 0x22] @ '' };'') @ [CHR 0x0A])"] by (simp add: scan_eval)

text \<open>
  Claim C21. The scanner matches at most once per physical line, so it
  returns at most as many records as the file has lines.
\<close>

theorem parse_msgdm_records_bound:
  "case parse_msgdm content of Inl e \<Rightarrow> True | Inr ms \<Rightarrow> length ms \<le> length (readlines content)"
  by (auto split: sum.splits dest: parse_msgdm_Inr)

text \<open>
  Claim C8. A parse error carries the number of the line that raised
  it, counted from 1, and that line holds the comment delimiter the error is about:
  a \<open>*/\<close> with text after it, or a \<open>/*\<close> with text before it.
\<close>

theorem parse_msgdm_error_line:
  "case parse_msgdm content of
     Inl e \<Rightarrow> (\<exists>i < length (readlines content). err_line e = Suc i \<and>
                 (\<exists>b. error_at b (readlines content ! i) e))
   | Inr ms \<Rightarrow> True"
  by (auto split: sum.splits dest: parse_msgdm_Inl)

theorem parse_msgdm_error_line_witness:
  "parse_msgdm (''int a;'' @ [CHR 0x0A] @ ''x /* y'' @ [CHR 0x0A]) = Inl (ExtraBeforeOpen 2) \<and>
   (case parse_msgdm (''int a;'' @ [CHR 0x0A] @ ''x /* y'' @ [CHR 0x0A]) of
     Inl e \<Rightarrow> (\<exists>i < length (readlines (''int a;'' @ [CHR 0x0A] @ ''x /* y'' @ [CHR 0x0A])).
                 err_line e = Suc i \<and>
                 (\<exists>b. error_at b (readlines (''int a;'' @ [CHR 0x0A] @ ''x /* y'' @ [CHR 0x0A]) ! i) e))
   | Inr ms \<Rightarrow> True)"
  using parse_msgdm_error_line [of "''int a;'' @ [CHR 0x0A] @ ''x /* y'' @ [CHR 0x0A]"]
  by (simp add: scan_eval)

text \<open>
  Claim C20. The scanner never raises \<open>IndexError\<close> at \<open>line[0]\<close>
  (line 206): every line that reaches the test is non-empty.
\<close>

theorem parse_msgdm_no_index_error: "parse_msgdm content \<noteq> Inl (LineIndexError n)"
proof
  assume "parse_msgdm content = Inl (LineIndexError n)"
  from parse_msgdm_Inl [OF this] show False by auto
qed

text \<open>
  Claim C27. Once the buffer holds text whose first non-blank
  character cannot begin \<open>ErrorId\<close> (any statement that is not a record, such as a
  declaration), no later line adds a record: the pattern is anchored at the start of
  the buffer and the buffer is only ever extended.
\<close>

theorem scan_lines_dead_buffer:
  "dead_buff (buff st) \<Longrightarrow>
   (case scan_lines st ls of Inl e \<Rightarrow> True | Inr st' \<Rightarrow> ret st' = ret st)"
proof (induction ls arbitrary: st)
  case Nil
  then show ?case by simp
next
  case (Cons l ls)
  show ?case
  proof (cases "scan_line st l")
    case (Inl e)
    then show ?thesis by simp
  next
    case (Inr st1)
    from scan_line_dead [OF Cons.prems Inr] have "ret st1 = ret st" "dead_buff (buff st1)" by auto
    with Cons.IH [of st1] Inr show ?thesis by (auto split: sum.splits)
  qed
qed

theorem scan_lines_dead_buffer_witness:
  "parse_msgdm (''int a;'' @ [CHR 0x0A] @ ((''ErrorId MsgDm::V = { ErrorOf(ES_DM,3,E_FAILED,EV_USAGE,0), '' @ [CHR 0x22] @ ''v'' @ [CHR 0x22] @ '' };'') @ [CHR 0x0A])) = Inr [] \<and>
   dead_buff ''int a;'' \<and>
   (case scan_lines \<lparr>lineno = 1, multiline_comment = False, buff = ''int a;'', ret = []\<rparr>
      (readlines ((''ErrorId MsgDm::V = { ErrorOf(ES_DM,3,E_FAILED,EV_USAGE,0), '' @ [CHR 0x22] @ ''v'' @ [CHR 0x22] @ '' };'') @ [CHR 0x0A])) of
     Inl e \<Rightarrow> True | Inr st' \<Rightarrow> ret st' = [])"
  using scan_lines_dead_buffer [of "\<lparr>lineno = 1, multiline_comment = False, buff = ''int a;'', ret = []\<rparr>"
      "readlines ((''ErrorId MsgDm::V = { ErrorOf(ES_DM,3,E_FAILED,EV_USAGE,0), '' @ [CHR 0x22] @ ''v'' @ [CHR 0x22] @ '' };'') @ [CHR 0x0A])"]
  by (simp add: scan_eval dead_buff_def skip_ws_def)

text \<open>
  Claim C6. A file made of record lines printed in the layout of
  \<open>msgs/msgdm.cc\<close>, one per line, is read back as exactly those records, stripped
  and in file order, provided each line is clean (no carriage return, no \<open>/*\<close>, no
  \<open>//\<close>) and its fields are what the groups can hold.
\<close>

theorem parse_msgdm_print_file:
  "\<forall>m \<in> set ms. msg_ok m \<and> clean_line (print_msg m) \<Longrightarrow>
   parse_msgdm (print_file ms) = Inr (map strip_msg ms)"
  by (rule print_file_parses)

theorem parse_msgdm_print_file_witness:
  "msg_ok \<lparr>m_name = ''BadCharSet'', m_sub_code = ''ES_DM'', m_msg_code = ''1'', m_severity_code = ''E_FAILED'', m_generic_code = ''EV_USAGE'', m_arg_count = ''0'', m_text = ''Invalid character set.''\<rparr> \<and> clean_line (print_msg \<lparr>m_name = ''BadCharSet'', m_sub_code = ''ES_DM'', m_msg_code = ''1'', m_severity_code = ''E_FAILED'', m_generic_code = ''EV_USAGE'', m_arg_count = ''0'', m_text = ''Invalid character set.''\<rparr>) \<and>
   msg_ok \<lparr>m_name = ''NoSuchFile'', m_sub_code = ''ES_DM'', m_msg_code = '' 2'', m_severity_code = ''E_WARN'', m_generic_code = ''EV_EMPTY'', m_arg_count = ''1'', m_text = ''%file% - no such file.''\<rparr> \<and> clean_line (print_msg \<lparr>m_name = ''NoSuchFile'', m_sub_code = ''ES_DM'', m_msg_code = '' 2'', m_severity_code = ''E_WARN'', m_generic_code = ''EV_EMPTY'', m_arg_count = ''1'', m_text = ''%file% - no such file.''\<rparr>) \<and>
   parse_msgdm (print_file [\<lparr>m_name = ''BadCharSet'', m_sub_code = ''ES_DM'', m_msg_code = ''1'', m_severity_code = ''E_FAILED'', m_generic_code = ''EV_USAGE'', m_arg_count = ''0'', m_text = ''Invalid character set.''\<rparr>, \<lparr>m_name = ''NoSuchFile'', m_sub_code = ''ES_DM'', m_msg_code = '' 2'', m_severity_code = ''E_WARN'', m_generic_code = ''EV_EMPTY'', m_arg_count = ''1'', m_text = ''%file% - no such file.''\<rparr>]) = Inr (map strip_msg [\<lparr>m_name = ''BadCharSet'', m_sub_code = ''ES_DM'', m_msg_code = ''1'', m_severity_code = ''E_FAILED'', m_generic_code = ''EV_USAGE'', m_arg_count = ''0'', m_text = ''Invalid character set.''\<rparr>, \<lparr>m_name = ''NoSuchFile'', m_sub_code = ''ES_DM'', m_msg_code = '' 2'', m_severity_code = ''E_WARN'', m_generic_code = ''EV_EMPTY'', m_arg_count = ''1'', m_text = ''%file% - no such file.''\<rparr>])"
proof -
  have h: "msg_ok \<lparr>m_name = ''BadCharSet'', m_sub_code = ''ES_DM'', m_msg_code = ''1'', m_severity_code = ''E_FAILED'', m_generic_code = ''EV_USAGE'', m_arg_count = ''0'', m_text = ''Invalid character set.''\<rparr>" "clean_line (print_msg \<lparr>m_name = ''BadCharSet'', m_sub_code = ''ES_DM'', m_msg_code = ''1'', m_severity_code = ''E_FAILED'', m_generic_code = ''EV_USAGE'', m_arg_count = ''0'', m_text = ''Invalid character set.''\<rparr>)" "msg_ok \<lparr>m_name = ''NoSuchFile'', m_sub_code = ''ES_DM'', m_msg_code = '' 2'', m_severity_code = ''E_WARN'', m_generic_code = ''EV_EMPTY'', m_arg_count = ''1'', m_text = ''%file% - no such file.''\<rparr>" "clean_line (print_msg \<lparr>m_name = ''NoSuchFile'', m_sub_code = ''ES_DM'', m_msg_code = '' 2'', m_severity_code = ''E_WARN'', m_generic_code = ''EV_EMPTY'', m_arg_count = ''1'', m_text = ''%file% - no such file.''\<rparr>)"
    by (simp_all add: msg_ok_def field_ok_def close_tail_def lit_def py_char_defs clean_line_def print_msg_def py_find_def find_from.simps)
  then show ?thesis using parse_msgdm_print_file [of "[\<lparr>m_name = ''BadCharSet'', m_sub_code = ''ES_DM'', m_msg_code = ''1'', m_severity_code = ''E_FAILED'', m_generic_code = ''EV_USAGE'', m_arg_count = ''0'', m_text = ''Invalid character set.''\<rparr>, \<lparr>m_name = ''NoSuchFile'', m_sub_code = ''ES_DM'', m_msg_code = '' 2'', m_severity_code = ''E_WARN'', m_generic_code = ''EV_EMPTY'', m_arg_count = ''1'', m_text = ''%file% - no such file.''\<rparr>]"] by simp
qed

text \<open>
  Claim C22. The scenario of the specification, for any file: after any
  number of clean record lines, a block comment opened on a line of its own, any
  comment lines without \<open>*/\<close>, and a closing line with text after its \<open>*/\<close>, the
  scanner raises the parse error naming that text (stripped) and the number of the
  closing line.
\<close>

theorem parse_msgdm_block_comment_trailing:
  assumes "\<forall>m \<in> set ms. msg_ok m \<and> clean_line (print_msg m)"
    and "\<forall>l \<in> set body. CHR 0x0A \<notin> set l \<and> CHR 0x0D \<notin> set l \<and> py_find (py_strip l) ''*/'' = None"
    and "CHR 0x0A \<notin> set t" "CHR 0x0D \<notin> set t" "py_strip t \<noteq> []"
  shows "parse_msgdm (file_of (map print_msg ms @ [''/*''] @ body @ [''*/'' @ t])) =
    Inl (ExtraAfterClose (py_strip t) (length ms + length body + 2))"
proof -
  have rl: "readlines (file_of (map print_msg ms @ [''/*''] @ body @ [''*/'' @ t])) =
      map (\<lambda>m. print_msg m @ [CHR 0x0A]) ms @ [''/*'' @ [CHR 0x0A]] @
      map (\<lambda>l. l @ [CHR 0x0A]) body @ [''*/'' @ t @ [CHR 0x0A]]"
    using assms(1-4) by (subst readlines_file_of) (auto simp: clean_line_def)
  let ?st1 = "init_scan\<lparr>lineno := length ms, ret := map strip_msg ms\<rparr>"
  let ?st2 = "?st1\<lparr>lineno := Suc (length ms), multiline_comment := True\<rparr>"
  have s1: "scan_lines init_scan (map (\<lambda>m. print_msg m @ [CHR 0x0A]) ms) = Inr ?st1"
    using assms(1) by (simp add: scan_lines_print init_scan_def)
  have o: "startswith (py_strip (''/*'' @ [CHR 0x0A])) ''/*''"
    by (simp add: py_strip_def py_lstrip_def py_rstrip_def py_char_defs)
  have s2: "scan_line ?st1 (''/*'' @ [CHR 0x0A]) = Inr ?st2"
    using scan_line_open [OF _ o] by (simp add: init_scan_def)
  have body: "\<forall>l \<in> set (map (\<lambda>l. l @ [CHR 0x0A]) body). py_find (py_strip l) ''*/'' = None"
  proof
    fix l' assume "l' \<in> set (map (\<lambda>l. l @ [CHR 0x0A]) body)"
    then obtain l where l: "l \<in> set body" "l' = l @ [CHR 0x0A]" by auto
    have "py_strip (l @ [CHR 0x0A]) = py_strip l"
      by (rule py_strip_snoc_space) (simp add: py_char_defs)
    with l assms(2) show "py_find (py_strip l') ''*/'' = None" by simp
  qed
  have s3: "scan_lines ?st2 (map (\<lambda>l. l @ [CHR 0x0A]) body) =
      Inr (?st2\<lparr>lineno := Suc (length ms) + length body\<rparr>)"
    using scan_lines_comment_body [OF _ body, of ?st2] by simp
  have s4: "scan_line (?st2\<lparr>lineno := Suc (length ms) + length body\<rparr>) (''*/'' @ t @ [CHR 0x0A]) =
      Inl (ExtraAfterClose (py_strip t) (length ms + length body + 2))"
    using scan_line_close_trailing [OF _ assms(5)] by simp
  show ?thesis using rl s1 s2 s3 s4 by (simp add: parse_msgdm_def scan_lines_append)
qed

theorem parse_msgdm_block_comment_trailing_witness:
  "msg_ok \<lparr>m_name = ''BadCharSet'', m_sub_code = ''ES_DM'', m_msg_code = ''1'', m_severity_code = ''E_FAILED'', m_generic_code = ''EV_USAGE'', m_arg_count = ''0'', m_text = ''Invalid character set.''\<rparr> \<and> clean_line (print_msg \<lparr>m_name = ''BadCharSet'', m_sub_code = ''ES_DM'', m_msg_code = ''1'', m_severity_code = ''E_FAILED'', m_generic_code = ''EV_USAGE'', m_arg_count = ''0'', m_text = ''Invalid character set.''\<rparr>) \<and> py_find (py_strip '' note'') ''*/'' = None \<and>
   py_strip '' x'' \<noteq> [] \<and>
   parse_msgdm (file_of (map print_msg [\<lparr>m_name = ''BadCharSet'', m_sub_code = ''ES_DM'', m_msg_code = ''1'', m_severity_code = ''E_FAILED'', m_generic_code = ''EV_USAGE'', m_arg_count = ''0'', m_text = ''Invalid character set.''\<rparr>] @ [''/*''] @ ['' note''] @ [''*/'' @ '' x''])) =
     Inl (ExtraAfterClose ''x'' 4)"
proof -
  have h: "msg_ok \<lparr>m_name = ''BadCharSet'', m_sub_code = ''ES_DM'', m_msg_code = ''1'', m_severity_code = ''E_FAILED'', m_generic_code = ''EV_USAGE'', m_arg_count = ''0'', m_text = ''Invalid character set.''\<rparr>" "clean_line (print_msg \<lparr>m_name = ''BadCharSet'', m_sub_code = ''ES_DM'', m_msg_code = ''1'', m_severity_code = ''E_FAILED'', m_generic_code = ''EV_USAGE'', m_arg_count = ''0'', m_text = ''Invalid character set.''\<rparr>)" "py_find (py_strip '' note'') ''*/'' = None"
    "py_strip '' x'' \<noteq> []" "py_strip '' x'' = ''x''"
    by (simp_all add: msg_ok_def field_ok_def close_tail_def lit_def skip_ws_def py_char_defs clean_line_def print_msg_def py_find_def find_from.simps py_strip_def py_lstrip_def py_rstrip_def)
  show ?thesis
    using h parse_msgdm_block_comment_trailing [of "[\<lparr>m_name = ''BadCharSet'', m_sub_code = ''ES_DM'', m_msg_code = ''1'', m_severity_code = ''E_FAILED'', m_generic_code = ''EV_USAGE'', m_arg_count = ''0'', m_text = ''Invalid character set.''\<rparr>]" "['' note'']" "'' x''"] by simp
qed

text \<open>
  Claim C26. A block comment opened and closed on one line leaves
  the scanner inside a comment, because the \<open>*/\<close> on the opening line is never
  looked for: after clean record lines and a line \<open>/*c*/\<close>, every following line up
  to the next one containing \<open>*/\<close> is skipped, record lines included, and only the
  records before the comment are returned.
\<close>

theorem parse_msgdm_one_line_block_comment:
  assumes "\<forall>m \<in> set ms. msg_ok m \<and> clean_line (print_msg m)"
    and "CHR 0x0A \<notin> set c" "CHR 0x0D \<notin> set c"
    and "\<forall>l \<in> set ls. CHR 0x0A \<notin> set l \<and> CHR 0x0D \<notin> set l \<and> py_find (py_strip (l @ [CHR 0x0A])) ''*/'' = None"
  shows "parse_msgdm (file_of (map print_msg ms @ [''/*'' @ c @ ''*/''] @ ls)) = Inr (map strip_msg ms)"
proof -
  have rl: "readlines (file_of (map print_msg ms @ [''/*'' @ c @ ''*/''] @ ls)) =
      map (\<lambda>m. print_msg m @ [CHR 0x0A]) ms @ [(''/*'' @ c @ ''*/'') @ [CHR 0x0A]] @
      map (\<lambda>l. l @ [CHR 0x0A]) ls"
    using assms by (subst readlines_file_of) (auto simp: clean_line_def)
  let ?st1 = "init_scan\<lparr>lineno := length ms, ret := map strip_msg ms\<rparr>"
  let ?st2 = "?st1\<lparr>lineno := Suc (length ms), multiline_comment := True\<rparr>"
  have s1: "scan_lines init_scan (map (\<lambda>m. print_msg m @ [CHR 0x0A]) ms) = Inr ?st1"
    using assms(1) by (simp add: scan_lines_print init_scan_def)
  have "py_strip ((''/*'' @ c @ ''*/'') @ [CHR 0x0A]) = ''/*'' @ c @ ''*/''"
    using py_strip_ends [of "CHR ''/''" "CHR ''/''" "CHR ''*'' # c @ [CHR ''*'']"] by (simp add: py_char_defs)
  then have o: "startswith (py_strip ((''/*'' @ c @ ''*/'') @ [CHR 0x0A])) ''/*''" by simp
  have s2: "scan_line ?st1 ((''/*'' @ c @ ''*/'') @ [CHR 0x0A]) = Inr ?st2"
    using scan_line_open [OF _ o] by (simp add: init_scan_def)
  have s3: "scan_lines ?st2 (map (\<lambda>l. l @ [CHR 0x0A]) ls) = Inr (?st2\<lparr>lineno := Suc (length ms) + length ls\<rparr>)"
    using scan_lines_comment_body [of ?st2 "map (\<lambda>l. l @ [CHR 0x0A]) ls"] assms(4) by simp
  show ?thesis using rl s1 s2 s3 by (simp add: parse_msgdm_def scan_lines_append)
qed

theorem parse_msgdm_one_line_block_comment_witness:
  "msg_ok \<lparr>m_name = ''BadCharSet'', m_sub_code = ''ES_DM'', m_msg_code = ''1'', m_severity_code = ''E_FAILED'', m_generic_code = ''EV_USAGE'', m_arg_count = ''0'', m_text = ''Invalid character set.''\<rparr> \<and> clean_line (print_msg \<lparr>m_name = ''BadCharSet'', m_sub_code = ''ES_DM'', m_msg_code = ''1'', m_severity_code = ''E_FAILED'', m_generic_code = ''EV_USAGE'', m_arg_count = ''0'', m_text = ''Invalid character set.''\<rparr>) \<and>
   py_find (py_strip (print_msg \<lparr>m_name = ''NoSuchFile'', m_sub_code = ''ES_DM'', m_msg_code = ''2'', m_severity_code = ''E_WARN'', m_generic_code = ''EV_EMPTY'', m_arg_count = ''1'', m_text = ''%file% - no such file.''\<rparr> @ [CHR 0x0A])) ''*/'' = None \<and>
   parse_msgdm (file_of (map print_msg [\<lparr>m_name = ''BadCharSet'', m_sub_code = ''ES_DM'', m_msg_code = ''1'', m_severity_code = ''E_FAILED'', m_generic_code = ''EV_USAGE'', m_arg_count = ''0'', m_text = ''Invalid character set.''\<rparr>] @ [''/*'' @ '' note '' @ ''*/''] @ [print_msg \<lparr>m_name = ''NoSuchFile'', m_sub_code = ''ES_DM'', m_msg_code = ''2'', m_severity_code = ''E_WARN'', m_generic_code = ''EV_EMPTY'', m_arg_count = ''1'', m_text = ''%file% - no such file.''\<rparr>])) =
     Inr [strip_msg \<lparr>m_name = ''BadCharSet'', m_sub_code = ''ES_DM'', m_msg_code = ''1'', m_severity_code = ''E_FAILED'', m_generic_code = ''EV_USAGE'', m_arg_count = ''0'', m_text = ''Invalid character set.''\<rparr>]"
proof -
  have h: "msg_ok \<lparr>m_name = ''BadCharSet'', m_sub_code = ''ES_DM'', m_msg_code = ''1'', m_severity_code = ''E_FAILED'', m_generic_code = ''EV_USAGE'', m_arg_count = ''0'', m_text = ''Invalid character set.''\<rparr>" "clean_line (print_msg \<lparr>m_name = ''BadCharSet'', m_sub_code = ''ES_DM'', m_msg_code = ''1'', m_severity_code = ''E_FAILED'', m_generic_code = ''EV_USAGE'', m_arg_count = ''0'', m_text = ''Invalid character set.''\<rparr>)"
    "CHR 0x0A \<notin> set (print_msg \<lparr>m_name = ''NoSuchFile'', m_sub_code = ''ES_DM'', m_msg_code = ''2'', m_severity_code = ''E_WARN'', m_generic_code = ''EV_EMPTY'', m_arg_count = ''1'', m_text = ''%file% - no such file.''\<rparr>)" "CHR 0x0D \<notin> set (print_msg \<lparr>m_name = ''NoSuchFile'', m_sub_code = ''ES_DM'', m_msg_code = ''2'', m_severity_code = ''E_WARN'', m_generic_code = ''EV_EMPTY'', m_arg_count = ''1'', m_text = ''%file% - no such file.''\<rparr>)"
    by (simp_all add: msg_ok_def field_ok_def close_tail_def lit_def skip_ws_def py_char_defs clean_line_def print_msg_def py_find_def find_from.simps)
  have "py_find (print_msg \<lparr>m_name = ''NoSuchFile'', m_sub_code = ''ES_DM'', m_msg_code = ''2'', m_severity_code = ''E_WARN'', m_generic_code = ''EV_EMPTY'', m_arg_count = ''1'', m_text = ''%file% - no such file.''\<rparr>) ''*/'' = None"
    by (simp add: print_msg_def py_find_def find_from.simps)
  then have "py_find (py_strip (print_msg \<lparr>m_name = ''NoSuchFile'', m_sub_code = ''ES_DM'', m_msg_code = ''2'', m_severity_code = ''E_WARN'', m_generic_code = ''EV_EMPTY'', m_arg_count = ''1'', m_text = ''%file% - no such file.''\<rparr> @ [CHR 0x0A])) ''*/'' = None"
    by (simp only: py_strip_print_line)
  note h = h this
  show ?thesis
    using h parse_msgdm_one_line_block_comment [of "[\<lparr>m_name = ''BadCharSet'', m_sub_code = ''ES_DM'', m_msg_code = ''1'', m_severity_code = ''E_FAILED'', m_generic_code = ''EV_USAGE'', m_arg_count = ''0'', m_text = ''Invalid character set.''\<rparr>]" "'' note ''" "[print_msg \<lparr>m_name = ''NoSuchFile'', m_sub_code = ''ES_DM'', m_msg_code = ''2'', m_severity_code = ''E_WARN'', m_generic_code = ''EV_EMPTY'', m_arg_count = ''1'', m_text = ''%file% - no such file.''\<rparr>]"] by simp
qed

text \<open>
  Claim C28. The scanner matches at most once per physical line: when
  the last line of a file holds two records, only the first is returned; the second
  stays in the buffer and is lost at the end of the file.
\<close>

theorem parse_msgdm_two_records_last_line:
  assumes "\<forall>m \<in> set ms. msg_ok m \<and> clean_line (print_msg m)"
    and "msg_ok m1" "clean_line (print_msg m1 @ print_msg m2)"
  shows "parse_msgdm (file_of (map print_msg ms @ [print_msg m1 @ print_msg m2])) =
    Inr (map strip_msg ms @ [strip_msg m1])"
proof -
  have rl: "readlines (file_of (map print_msg ms @ [print_msg m1 @ print_msg m2])) =
      map (\<lambda>m. print_msg m @ [CHR 0x0A]) ms @ [(print_msg m1 @ print_msg m2) @ [CHR 0x0A]]"
    using assms(1,3) by (subst readlines_file_of) (auto simp: clean_line_def)
  let ?st1 = "init_scan\<lparr>lineno := length ms, ret := map strip_msg ms\<rparr>"
  have s1: "scan_lines init_scan (map (\<lambda>m. print_msg m @ [CHR 0x0A]) ms) = Inr ?st1"
    using assms(1) by (simp add: scan_lines_print init_scan_def)
  obtain u where u: "print_msg m1 = CHR ''E'' # u @ [CHR '';'']" using print_msg_shape by blast
  obtain v where v: "print_msg m2 = CHR ''E'' # v @ [CHR '';'']" using print_msg_shape by blast
  have shape: "print_msg m1 @ print_msg m2 = CHR ''E'' # (u @ CHR '';'' # CHR ''E'' # v) @ [CHR '';'']"
    using u v by simp
  have mm: "msg_match (print_msg m1 @ print_msg m2) = Some (m1, print_msg m2)"
    by (rule print_msg_match [OF assms(2)])
  have s2: "scan_line ?st1 ((print_msg m1 @ print_msg m2) @ [CHR 0x0A]) =
      Inr (?st1\<lparr>lineno := Suc (length ms), ret := map strip_msg ms @ [strip_msg m1], buff := print_msg m2\<rparr>)"
    using scan_line_match [OF shape assms(3) mm] by (simp add: init_scan_def)
  show ?thesis using rl s1 s2 by (simp add: parse_msgdm_def scan_lines_append)
qed

theorem parse_msgdm_two_records_last_line_witness:
  "msg_ok \<lparr>m_name = ''BadCharSet'', m_sub_code = ''ES_DM'', m_msg_code = ''1'', m_severity_code = ''E_FAILED'', m_generic_code = ''EV_USAGE'', m_arg_count = ''0'', m_text = ''Invalid character set.''\<rparr> \<and> clean_line (print_msg \<lparr>m_name = ''BadCharSet'', m_sub_code = ''ES_DM'', m_msg_code = ''1'', m_severity_code = ''E_FAILED'', m_generic_code = ''EV_USAGE'', m_arg_count = ''0'', m_text = ''Invalid character set.''\<rparr> @ print_msg \<lparr>m_name = ''NoSuchFile'', m_sub_code = ''ES_DM'', m_msg_code = ''2'', m_severity_code = ''E_WARN'', m_generic_code = ''EV_EMPTY'', m_arg_count = ''1'', m_text = ''%file% - no such file.''\<rparr>) \<and>
   parse_msgdm (file_of (map print_msg [] @ [print_msg \<lparr>m_name = ''BadCharSet'', m_sub_code = ''ES_DM'', m_msg_code = ''1'', m_severity_code = ''E_FAILED'', m_generic_code = ''EV_USAGE'', m_arg_count = ''0'', m_text = ''Invalid character set.''\<rparr> @ print_msg \<lparr>m_name = ''NoSuchFile'', m_sub_code = ''ES_DM'', m_msg_code = ''2'', m_severity_code = ''E_WARN'', m_generic_code = ''EV_EMPTY'', m_arg_count = ''1'', m_text = ''%file% - no such file.''\<rparr>])) = Inr [strip_msg \<lparr>m_name = ''BadCharSet'', m_sub_code = ''ES_DM'', m_msg_code = ''1'', m_severity_code = ''E_FAILED'', m_generic_code = ''EV_USAGE'', m_arg_count = ''0'', m_text = ''Invalid character set.''\<rparr>]"
proof -
  have h: "msg_ok \<lparr>m_name = ''BadCharSet'', m_sub_code = ''ES_DM'', m_msg_code = ''1'', m_severity_code = ''E_FAILED'', m_generic_code = ''EV_USAGE'', m_arg_count = ''0'', m_text = ''Invalid character set.''\<rparr>" "clean_line (print_msg \<lparr>m_name = ''BadCharSet'', m_sub_code = ''ES_DM'', m_msg_code = ''1'', m_severity_code = ''E_FAILED'', m_generic_code = ''EV_USAGE'', m_arg_count = ''0'', m_text = ''Invalid character set.''\<rparr> @ print_msg \<lparr>m_name = ''NoSuchFile'', m_sub_code = ''ES_DM'', m_msg_code = ''2'', m_severity_code = ''E_WARN'', m_generic_code = ''EV_EMPTY'', m_arg_count = ''1'', m_text = ''%file% - no such file.''\<rparr>)"
    by (simp_all add: msg_ok_def field_ok_def close_tail_def lit_def skip_ws_def py_char_defs clean_line_def print_msg_def py_find_def find_from.simps)
  show ?thesis using h parse_msgdm_two_records_last_line [of "[]" "\<lparr>m_name = ''BadCharSet'', m_sub_code = ''ES_DM'', m_msg_code = ''1'', m_severity_code = ''E_FAILED'', m_generic_code = ''EV_USAGE'', m_arg_count = ''0'', m_text = ''Invalid character set.''\<rparr>" "\<lparr>m_name = ''NoSuchFile'', m_sub_code = ''ES_DM'', m_msg_code = ''2'', m_severity_code = ''E_WARN'', m_generic_code = ''EV_EMPTY'', m_arg_count = ''1'', m_text = ''%file% - no such file.''\<rparr>"] by simp
qed

text \<open>
  Claim C30. The test for \<open>/*\<close> is applied to the whole line,
  string literals included: a record line whose message text contains \<open>/*\<close>, after
  any number of clean record lines, is rejected as malformed source with the error
  for text before \<open>/*\<close> on its own line, and the run aborts.
\<close>

theorem parse_msgdm_text_comment_open:
  assumes "\<forall>m' \<in> set ms. msg_ok m' \<and> clean_line (print_msg m')"
    and "m_text m = a @ ''/*'' @ b"
    and "\<forall>l \<in> set (print_msg m # rest). CHR 0x0A \<notin> set l \<and> CHR 0x0D \<notin> set l"
  shows "parse_msgdm (file_of (map print_msg ms @ print_msg m # rest)) = Inl (ExtraBeforeOpen (Suc (length ms)))"
proof -
  have rl: "readlines (file_of (map print_msg ms @ print_msg m # rest)) =
      map (\<lambda>m. print_msg m @ [CHR 0x0A]) ms @ [print_msg m @ [CHR 0x0A]] @ map (\<lambda>l. l @ [CHR 0x0A]) rest"
    using assms(1,3) by (subst readlines_file_of) (auto simp: clean_line_def)
  let ?st1 = "init_scan\<lparr>lineno := length ms, ret := map strip_msg ms\<rparr>"
  have s1: "scan_lines init_scan (map (\<lambda>m. print_msg m @ [CHR 0x0A]) ms) = Inr ?st1"
    using assms(1) by (simp add: scan_lines_print init_scan_def)
  obtain u where u: "print_msg m = CHR ''E'' # u @ [CHR '';'']" using print_msg_shape by blast
  have "print_msg m = (''ErrorId MsgDm::'' @ m_name m @ '' = { ErrorOf('' @ m_sub_code m @ '','' @
      m_msg_code m @ '','' @ m_severity_code m @ '','' @ m_generic_code m @ '','' @ m_arg_count m @
      ''), '' @ [CHR 0x22] @ a) @ ''/*'' @ (b @ [CHR 0x22] @ '' };'')"
    using assms(2) by (simp add: print_msg_def)
  then have "py_find (print_msg m) ''/*'' \<noteq> None" by (metis py_find_append_needle)
  then have s2: "scan_line ?st1 (print_msg m @ [CHR 0x0A]) = Inl (ExtraBeforeOpen (Suc (length ms)))"
    using scan_line_text_open [OF u] by (simp add: init_scan_def)
  show ?thesis using rl s1 s2 by (simp add: parse_msgdm_def scan_lines_append)
qed

theorem parse_msgdm_text_comment_open_witness:
  "msg_ok \<lparr>m_name = ''BadCharSet'', m_sub_code = ''ES_DM'', m_msg_code = ''1'', m_severity_code = ''E_FAILED'', m_generic_code = ''EV_USAGE'', m_arg_count = ''0'', m_text = ''Invalid character set.''\<rparr> \<and> clean_line (print_msg \<lparr>m_name = ''BadCharSet'', m_sub_code = ''ES_DM'', m_msg_code = ''1'', m_severity_code = ''E_FAILED'', m_generic_code = ''EV_USAGE'', m_arg_count = ''0'', m_text = ''Invalid character set.''\<rparr>) \<and> msg_ok \<lparr>m_name = ''Wild'', m_sub_code = ''ES_DM'', m_msg_code = ''3'', m_severity_code = ''E_FAILED'', m_generic_code = ''EV_USAGE'', m_arg_count = ''0'', m_text = ''Use /* as wildcard.''\<rparr> \<and>
   parse_msgdm (file_of (map print_msg [\<lparr>m_name = ''BadCharSet'', m_sub_code = ''ES_DM'', m_msg_code = ''1'', m_severity_code = ''E_FAILED'', m_generic_code = ''EV_USAGE'', m_arg_count = ''0'', m_text = ''Invalid character set.''\<rparr>] @ print_msg \<lparr>m_name = ''Wild'', m_sub_code = ''ES_DM'', m_msg_code = ''3'', m_severity_code = ''E_FAILED'', m_generic_code = ''EV_USAGE'', m_arg_count = ''0'', m_text = ''Use /* as wildcard.''\<rparr> # [])) = Inl (ExtraBeforeOpen 2)"
proof -
  have h: "msg_ok \<lparr>m_name = ''BadCharSet'', m_sub_code = ''ES_DM'', m_msg_code = ''1'', m_severity_code = ''E_FAILED'', m_generic_code = ''EV_USAGE'', m_arg_count = ''0'', m_text = ''Invalid character set.''\<rparr>" "clean_line (print_msg \<lparr>m_name = ''BadCharSet'', m_sub_code = ''ES_DM'', m_msg_code = ''1'', m_severity_code = ''E_FAILED'', m_generic_code = ''EV_USAGE'', m_arg_count = ''0'', m_text = ''Invalid character set.''\<rparr>)" "msg_ok \<lparr>m_name = ''Wild'', m_sub_code = ''ES_DM'', m_msg_code = ''3'', m_severity_code = ''E_FAILED'', m_generic_code = ''EV_USAGE'', m_arg_count = ''0'', m_text = ''Use /* as wildcard.''\<rparr>"
    "CHR 0x0A \<notin> set (print_msg \<lparr>m_name = ''Wild'', m_sub_code = ''ES_DM'', m_msg_code = ''3'', m_severity_code = ''E_FAILED'', m_generic_code = ''EV_USAGE'', m_arg_count = ''0'', m_text = ''Use /* as wildcard.''\<rparr>)" "CHR 0x0D \<notin> set (print_msg \<lparr>m_name = ''Wild'', m_sub_code = ''ES_DM'', m_msg_code = ''3'', m_severity_code = ''E_FAILED'', m_generic_code = ''EV_USAGE'', m_arg_count = ''0'', m_text = ''Use /* as wildcard.''\<rparr>)"
    by (simp_all add: msg_ok_def field_ok_def close_tail_def lit_def skip_ws_def py_char_defs clean_line_def print_msg_def py_find_def find_from.simps)
  have t: "m_text \<lparr>m_name = ''Wild'', m_sub_code = ''ES_DM'', m_msg_code = ''3'', m_severity_code = ''E_FAILED'', m_generic_code = ''EV_USAGE'', m_arg_count = ''0'', m_text = ''Use /* as wildcard.''\<rparr> = ''Use '' @ ''/*'' @ '' as wildcard.''" by simp
  show ?thesis using h parse_msgdm_text_comment_open [of "[\<lparr>m_name = ''BadCharSet'', m_sub_code = ''ES_DM'', m_msg_code = ''1'', m_severity_code = ''E_FAILED'', m_generic_code = ''EV_USAGE'', m_arg_count = ''0'', m_text = ''Invalid character set.''\<rparr>]" "\<lparr>m_name = ''Wild'', m_sub_code = ''ES_DM'', m_msg_code = ''3'', m_severity_code = ''E_FAILED'', m_generic_code = ''EV_USAGE'', m_arg_count = ''0'', m_text = ''Use /* as wildcard.''\<rparr>" "''Use ''" "'' as wildcard.''" "[]"] by simp
qed

text \<open>
  Claim C23. A \<open>//\<close> inside the quoted message text is not taken for a
  line comment: when the fields of a record hold no double quote and no slash and its
  text holds no double quote, the quote count on both sides of the first \<open>//\<close> is
  odd, so the whole line is kept, and a file of clean records with such a record
  anywhere among them parses back to all the records, stripped.
\<close>

theorem parse_msgdm_slashes_in_string:
  assumes "\<forall>m' \<in> set (ms @ ms'). msg_ok m' \<and> clean_line (print_msg m')"
    and "msg_ok m"
    and "\<forall>c \<in> set (m_name m @ m_sub_code m @ m_msg_code m @ m_severity_code m @ m_generic_code m @
      m_arg_count m). c \<noteq> CHR 0x22 \<and> c \<noteq> CHR ''/''"
    and "CHR 0x22 \<notin> set (m_text m)" "m_text m = a @ ''//'' @ b"
    and "CHR 0x0A \<notin> set (print_msg m)" "CHR 0x0D \<notin> set (print_msg m)" "py_find (print_msg m) ''/*'' = None"
  shows "parse_msgdm (print_file (ms @ m # ms')) = Inr (map strip_msg (ms @ m # ms'))"
proof -
  have rl: "readlines (print_file (ms @ m # ms')) =
      map (\<lambda>m. print_msg m @ [CHR 0x0A]) ms @ [print_msg m @ [CHR 0x0A]] @ map (\<lambda>m. print_msg m @ [CHR 0x0A]) ms'"
    using assms(1,6,7) unfolding print_file_file_of
    by (subst readlines_file_of) (auto simp: clean_line_def)
  let ?st1 = "init_scan\<lparr>lineno := length ms, ret := map strip_msg ms\<rparr>"
  let ?st2 = "?st1\<lparr>lineno := Suc (length ms), ret := map strip_msg ms @ [strip_msg m], buff := []\<rparr>"
  have s1: "scan_lines init_scan (map (\<lambda>m. print_msg m @ [CHR 0x0A]) ms) = Inr ?st1"
    using assms(1) by (simp add: scan_lines_print init_scan_def)
  obtain u where u: "print_msg m = CHR ''E'' # u @ [CHR '';'']" using print_msg_shape by blast
  obtain p where p: "py_find (print_msg m) ''//'' = Some p"
    "odd (count_list (take p (print_msg m)) (CHR 0x22))" "odd (count_list (drop (p + 2) (print_msg m)) (CHR 0x22))"
    using print_msg_slashes [OF assms(3-5)] by blast
  have mm: "msg_match (print_msg m) = Some (m, [])" using print_msg_match [OF assms(2), of "[]"] by simp
  have s2: "scan_line ?st1 (print_msg m @ [CHR 0x0A]) = Inr ?st2"
    using scan_line_quoted_slashes [OF u assms(8) p mm] by (simp add: init_scan_def)
  have s3: "scan_lines ?st2 (map (\<lambda>m. print_msg m @ [CHR 0x0A]) ms') =
      Inr (?st2\<lparr>lineno := Suc (length ms) + length ms', ret := map strip_msg ms @ [strip_msg m] @ map strip_msg ms'\<rparr>)"
    using assms(1) scan_lines_print [of ms' ?st2] by (simp add: init_scan_def)
  show ?thesis using rl s1 s2 s3 by (simp add: parse_msgdm_def scan_lines_append)
qed

theorem parse_msgdm_slashes_in_string_witness:
  "msg_ok \<lparr>m_name = ''BadCharSet'', m_sub_code = ''ES_DM'', m_msg_code = ''1'', m_severity_code = ''E_FAILED'', m_generic_code = ''EV_USAGE'', m_arg_count = ''0'', m_text = ''Invalid character set.''\<rparr> \<and> clean_line (print_msg \<lparr>m_name = ''BadCharSet'', m_sub_code = ''ES_DM'', m_msg_code = ''1'', m_severity_code = ''E_FAILED'', m_generic_code = ''EV_USAGE'', m_arg_count = ''0'', m_text = ''Invalid character set.''\<rparr>) \<and> msg_ok \<lparr>m_name = ''BadUrl'', m_sub_code = ''ES_DM'', m_msg_code = ''4'', m_severity_code = ''E_FAILED'', m_generic_code = ''EV_USAGE'', m_arg_count = ''0'', m_text = ''Use http://host.''\<rparr> \<and>
   parse_msgdm (print_file ([\<lparr>m_name = ''BadCharSet'', m_sub_code = ''ES_DM'', m_msg_code = ''1'', m_severity_code = ''E_FAILED'', m_generic_code = ''EV_USAGE'', m_arg_count = ''0'', m_text = ''Invalid character set.''\<rparr>] @ \<lparr>m_name = ''BadUrl'', m_sub_code = ''ES_DM'', m_msg_code = ''4'', m_severity_code = ''E_FAILED'', m_generic_code = ''EV_USAGE'', m_arg_count = ''0'', m_text = ''Use http://host.''\<rparr> # [])) = Inr [strip_msg \<lparr>m_name = ''BadCharSet'', m_sub_code = ''ES_DM'', m_msg_code = ''1'', m_severity_code = ''E_FAILED'', m_generic_code = ''EV_USAGE'', m_arg_count = ''0'', m_text = ''Invalid character set.''\<rparr>, strip_msg \<lparr>m_name = ''BadUrl'', m_sub_code = ''ES_DM'', m_msg_code = ''4'', m_severity_code = ''E_FAILED'', m_generic_code = ''EV_USAGE'', m_arg_count = ''0'', m_text = ''Use http://host.''\<rparr>]"
proof -
  have h: "msg_ok \<lparr>m_name = ''BadCharSet'', m_sub_code = ''ES_DM'', m_msg_code = ''1'', m_severity_code = ''E_FAILED'', m_generic_code = ''EV_USAGE'', m_arg_count = ''0'', m_text = ''Invalid character set.''\<rparr>" "clean_line (print_msg \<lparr>m_name = ''BadCharSet'', m_sub_code = ''ES_DM'', m_msg_code = ''1'', m_severity_code = ''E_FAILED'', m_generic_code = ''EV_USAGE'', m_arg_count = ''0'', m_text = ''Invalid character set.''\<rparr>)" "msg_ok \<lparr>m_name = ''BadUrl'', m_sub_code = ''ES_DM'', m_msg_code = ''4'', m_severity_code = ''E_FAILED'', m_generic_code = ''EV_USAGE'', m_arg_count = ''0'', m_text = ''Use http://host.''\<rparr>"
    "CHR 0x0A \<notin> set (print_msg \<lparr>m_name = ''BadUrl'', m_sub_code = ''ES_DM'', m_msg_code = ''4'', m_severity_code = ''E_FAILED'', m_generic_code = ''EV_USAGE'', m_arg_count = ''0'', m_text = ''Use http://host.''\<rparr>)" "CHR 0x0D \<notin> set (print_msg \<lparr>m_name = ''BadUrl'', m_sub_code = ''ES_DM'', m_msg_code = ''4'', m_severity_code = ''E_FAILED'', m_generic_code = ''EV_USAGE'', m_arg_count = ''0'', m_text = ''Use http://host.''\<rparr>)"
    "py_find (print_msg \<lparr>m_name = ''BadUrl'', m_sub_code = ''ES_DM'', m_msg_code = ''4'', m_severity_code = ''E_FAILED'', m_generic_code = ''EV_USAGE'', m_arg_count = ''0'', m_text = ''Use http://host.''\<rparr>) ''/*'' = None"
    by (simp_all add: msg_ok_def field_ok_def close_tail_def lit_def skip_ws_def py_char_defs
        clean_line_def print_msg_def py_find_def find_from.simps)
  have t: "m_text \<lparr>m_name = ''BadUrl'', m_sub_code = ''ES_DM'', m_msg_code = ''4'', m_severity_code = ''E_FAILED'', m_generic_code = ''EV_USAGE'', m_arg_count = ''0'', m_text = ''Use http://host.''\<rparr> = ''Use http:'' @ ''//'' @ ''host.''" by simp
  show ?thesis
    using h parse_msgdm_slashes_in_string [of "[\<lparr>m_name = ''BadCharSet'', m_sub_code = ''ES_DM'', m_msg_code = ''1'', m_severity_code = ''E_FAILED'', m_generic_code = ''EV_USAGE'', m_arg_count = ''0'', m_text = ''Invalid character set.''\<rparr>]" "[]" "\<lparr>m_name = ''BadUrl'', m_sub_code = ''ES_DM'', m_msg_code = ''4'', m_severity_code = ''E_FAILED'', m_generic_code = ''EV_USAGE'', m_arg_count = ''0'', m_text = ''Use http://host.''\<rparr>" "''Use http:''" "''host.''"] by simp
qed

end
