(* ===== verification/JavaId.thy ===== *)
theory JavaId
  imports Prelude
begin

text \<open>
  The naming transform \<open>to_java_id\<close> of \<open>src/p4java/generate-error-codes.py\<close>
  (lines 99--119): a C++ identifier such as \<open>BadCharSet\<close> becomes the Java constant
  name \<open>BAD_CHAR_SET\<close>.  The character loop is \<open>id_walk\<close>, with the loop variables
  \<open>last_upper\<close> and \<open>ret\<close> as its accumulators.  The lemmas show that, outside
  the special \<open>Ex\<close> prefix, removing the separators gives back the upper-cased
  name and the result is a well-formed shouting-case identifier, and where the loop
  agrees and disagrees with the transform as the specification describes it
  (\<open>spec_walk\<close>).
\<close>

section \<open>The transform\<close>

fun id_walk :: "bool \<Rightarrow> string \<Rightarrow> string \<Rightarrow> string" where
  "id_walk last_upper ret [] = ret"
| "id_walk last_upper ret (c # cs) =
     (if last_upper then id_walk False (ret @ [py_upper c]) cs
      else if is_upper c \<or> is_digit c
      then id_walk True ((if 0 < length ret then ret @ ''_'' else ret) @ [py_upper c]) cs
      else id_walk False (ret @ [py_upper c]) cs)"

definition to_java_id :: "string \<Rightarrow> string" where
  "to_java_id name =
     (if startswith name ''Ex'' then ''EX_'' @ drop 2 name
      else if startswith name ''Diff2'' then id_walk False ''DIFF2'' (drop 5 name)
      else id_walk False [] name)"

section \<open>The transform as the specification words it\<close>

text \<open>
  Specification, section 4.3: a separator goes before an upper-case letter or digit
  whose predecessor is not itself an upper-case letter or digit, so that acronym runs
  stay one unit.  \<open>spec_walk\<close> keeps as its flag whether the previous character was
  one.  It is the abstract reference the loop is compared with.
\<close>

fun spec_walk :: "bool \<Rightarrow> string \<Rightarrow> string \<Rightarrow> string" where
  "spec_walk prev_ud ret [] = ret"
| "spec_walk prev_ud ret (c # cs) =
     (let ud = (is_upper c \<or> is_digit c)
      in spec_walk ud ((if ud \<and> \<not> prev_ud \<and> ret \<noteq> [] then ret @ ''_'' else ret) @ [py_upper c]) cs)"

definition spec_java_id :: "string \<Rightarrow> string" where
  "spec_java_id name =
     (if startswith name ''Ex'' then ''EX_'' @ drop 2 name
      else if startswith name ''Diff2'' then spec_walk False ''DIFF2'' (drop 5 name)
      else spec_walk False [] name)"

text \<open>No two neighbouring characters are both upper-case letters or digits.\<close>

fun no_adjacent_ud :: "string \<Rightarrow> bool" where
  "no_adjacent_ud (a # b # cs) =
     (\<not> ((is_upper a \<or> is_digit a) \<and> (is_upper b \<or> is_digit b)) \<and> no_adjacent_ud (b # cs))"
| "no_adjacent_ud _ = True"

section \<open>Shouting case\<close>

text \<open>
  A shouting-case identifier: non-empty segments separated by single underscores, with
  no lower-case letter.  \<open>shout_step\<close> reads one character; its state is whether the
  text read so far ends at a segment boundary (the start or an underscore), and
  \<open>None\<close> once the text is malformed.
\<close>

fun shout_step :: "bool option \<Rightarrow> char \<Rightarrow> bool option" where
  "shout_step None c = None"
| "shout_step (Some at_boundary) c =
     (if c = CHR ''_'' then (if at_boundary then None else Some True)
      else if is_lower c then None else Some False)"

definition is_shouting :: "string \<Rightarrow> bool" where
  "is_shouting s \<longleftrightarrow> fold (\<lambda>c st. shout_step st c) s (Some True) = Some False"

section \<open>Lemmas on the loop\<close>

lemma id_walk_Ex_free_filter:
  "filter (\<lambda>c. c \<noteq> CHR ''_'') (id_walk lu ret cs) =
   filter (\<lambda>c. c \<noteq> CHR ''_'') (ret @ map py_upper cs)"
  by (induction cs arbitrary: lu ret) auto

lemma fold_shout_Some_False_append:
  "fold (\<lambda>c st. shout_step st c) ret (Some True) = Some False \<Longrightarrow> u \<noteq> CHR ''_'' \<Longrightarrow>
   \<not> is_lower u \<Longrightarrow>
   fold (\<lambda>c st. shout_step st c) (ret @ [u]) (Some True) = Some False \<and>
   fold (\<lambda>c st. shout_step st c) (ret @ ''_'' @ [u]) (Some True) = Some False"
  by simp

lemma shout_Nil_append:
  "u \<noteq> CHR ''_'' \<Longrightarrow> \<not> is_lower u \<Longrightarrow>
   fold (\<lambda>c st. shout_step st c) ([] @ [u]) (Some True) = Some False"
  by simp

text \<open>
  The loop invariant of the shouting-case property: the accumulated text is empty or
  already a shouting-case identifier, and every character still to come is neither an
  underscore nor (after upper-casing) lower case.
\<close>

lemma id_walk_shouting:
  "CHR ''_'' \<notin> set cs \<Longrightarrow> ret = [] \<or> is_shouting ret \<Longrightarrow> cs \<noteq> [] \<or> ret \<noteq> [] \<Longrightarrow>
   is_shouting (id_walk lu ret cs)"
proof (induction lu ret cs rule: id_walk.induct)
  case (1 last_upper ret)
  then show ?case by simp
next
  case (2 last_upper ret c cs)
  from "2.prems"(1) have c: "py_upper c \<noteq> CHR ''_''" "\<not> is_lower (py_upper c)"
    by auto
  have app: "is_shouting (ret @ [py_upper c])"
    using "2.prems"(2) c fold_shout_Some_False_append [of ret "py_upper c"]
      shout_Nil_append [of "py_upper c"]
    by (auto simp: is_shouting_def)
  have sep: "0 < length ret \<Longrightarrow> is_shouting (ret @ ''_'' @ [py_upper c])"
    using "2.prems"(2) c fold_shout_Some_False_append [of ret "py_upper c"]
    by (auto simp: is_shouting_def)
  from "2.prems"(1) have cs: "CHR ''_'' \<notin> set cs" by simp
  show ?case
    using "2.IH" cs app sep by (cases "0 < length ret") auto
qed

lemma no_adjacent_ud_tl: "no_adjacent_ud (c # cs) \<Longrightarrow> no_adjacent_ud cs"
  by (cases cs) auto

text \<open>
  The two loops agree while their flags agree; the flag of \<open>id_walk\<close> may be set only
  when the next character is not an upper-case letter or digit, which
  \<open>no_adjacent_ud\<close> provides.
\<close>

lemma id_walk_spec_walk:
  "no_adjacent_ud cs \<Longrightarrow> (lu \<longleftrightarrow> lu') \<Longrightarrow>
   (lu \<longrightarrow> (case cs of [] \<Rightarrow> True | c # _ \<Rightarrow> \<not> (is_upper c \<or> is_digit c))) \<Longrightarrow>
   id_walk lu ret cs = spec_walk lu' ret cs"
proof (induction cs arbitrary: lu lu' ret)
  case Nil
  then show ?case by simp
next
  case (Cons c cs)
  from Cons.prems(1) have nd: "no_adjacent_ud cs" by (rule no_adjacent_ud_tl)
  from Cons.prems(1) have nxt:
    "is_upper c \<or> is_digit c \<Longrightarrow> (case cs of [] \<Rightarrow> True | d # _ \<Rightarrow> \<not> (is_upper d \<or> is_digit d))"
    by (cases cs) auto
  show ?case
  proof (cases lu)
    case True
    with Cons.prems(2,3) have "lu'" "\<not> (is_upper c \<or> is_digit c)" by auto
    with True Cons.IH [OF nd, of False False] show ?thesis by (simp add: Let_def)
  next
    case False
    with Cons.prems(2) have "\<not> lu'" by simp
    with False Cons.IH [OF nd] nxt show ?thesis by (auto simp: Let_def)
  qed
qed

lemma no_adjacent_ud_drop: "no_adjacent_ud cs \<Longrightarrow> no_adjacent_ud (drop n cs)"
proof (induction cs arbitrary: n rule: no_adjacent_ud.induct)
  case (1 a b cs)
  then show ?case by (cases n) auto
qed (simp_all add: drop_Cons')

lemma id_walk_eq_spec_walk:
  assumes "no_adjacent_ud cs"
  shows "id_walk False ret cs = spec_walk False ret cs"
proof (cases cs)
  case Nil
  then show ?thesis by simp
next
  case (Cons c cs')
  with assms show ?thesis using id_walk_spec_walk [of cs False False ret] by simp
qed

lemma map_py_upper_Diff2: "startswith name ''Diff2'' \<Longrightarrow> map py_upper name = ''DIFF2'' @ map py_upper (drop 5 name)"
  by (auto simp: startswith_conv py_upper_def)

lemma set_id_walk: "set ret \<subseteq> set (id_walk lu ret cs)"
  by (induction lu ret cs rule: id_walk.induct) auto

lemma spec_walk_ud:
  "\<forall>c \<in> set cs. is_upper c \<or> is_digit c \<Longrightarrow> prev_ud \<or> ret = [] \<Longrightarrow>
   spec_walk prev_ud ret cs = ret @ map py_upper cs"
  by (induction cs arbitrary: prev_ud ret) auto

lemma ud_not_lower: "is_upper c \<or> is_digit c \<Longrightarrow> \<not> is_lower c"
  by (auto simp: py_char_defs)

lemma py_upper_ud: "is_upper c \<or> is_digit c \<Longrightarrow> py_upper c = c"
  using py_upper_lower_iff ud_not_lower by blast

lemma map_py_upper_ud: "\<forall>c \<in> set cs. is_upper c \<or> is_digit c \<Longrightarrow> map py_upper cs = cs"
  by (induction cs) (auto simp: py_upper_ud)

section \<open>Properties of the transform\<close>

text \<open>
  Claim C24. Outside the \<open>Ex\<close> case the transform only upper-cases and
  inserts separators: deleting every underscore from the result gives the upper-cased
  name with its underscores deleted.
\<close>

theorem to_java_id_letters:
  "\<not> startswith name ''Ex'' \<Longrightarrow>
   filter (\<lambda>c. c \<noteq> CHR ''_'') (to_java_id name) = filter (\<lambda>c. c \<noteq> CHR ''_'') (map py_upper name)"
  by (auto simp: to_java_id_def id_walk_Ex_free_filter map_py_upper_Diff2)

theorem to_java_id_letters_witness:
  "\<not> startswith ''Diff2Ok'' ''Ex'' \<and>
   filter (\<lambda>c. c \<noteq> CHR ''_'') (to_java_id ''Diff2Ok'') = filter (\<lambda>c. c \<noteq> CHR ''_'') (map py_upper ''Diff2Ok'')"
  using to_java_id_letters [of "''Diff2Ok''"] by simp

text \<open>
  Claim C10. For a non-empty name without underscores that does not start
  with \<open>Ex\<close>, the result is a shouting-case identifier: non-empty segments without
  lower-case letters, separated by single underscores, with no leading or trailing one.
\<close>

theorem to_java_id_shouting:
  "name \<noteq> [] \<Longrightarrow> CHR ''_'' \<notin> set name \<Longrightarrow> \<not> startswith name ''Ex'' \<Longrightarrow>
   is_shouting (to_java_id name)"
proof -
  assume ne: "name \<noteq> []" and nu: "CHR ''_'' \<notin> set name" and nex: "\<not> startswith name ''Ex''"
  have d: "is_shouting ''DIFF2''" by (simp add: is_shouting_def py_char_defs)
  have "CHR ''_'' \<notin> set (drop 5 name)" using nu by (meson in_set_dropD)
  with nu ne nex d show ?thesis
    by (auto simp: to_java_id_def intro: id_walk_shouting)
qed

theorem to_java_id_shouting_witness:
  "''BadCharSet'' \<noteq> [] \<and> CHR ''_'' \<notin> set ''BadCharSet'' \<and> \<not> startswith ''BadCharSet'' ''Ex'' \<and>
   is_shouting (to_java_id ''BadCharSet'')"
  using to_java_id_shouting [of "''BadCharSet''"] by simp

text \<open>
  Claim C9. Where no two neighbouring characters of the name are both
  upper-case letters or digits, the loop computes the transform as the specification
  describes it.
\<close>

theorem to_java_id_eq_spec:
  "no_adjacent_ud name \<Longrightarrow> to_java_id name = spec_java_id name"
  by (simp add: to_java_id_def spec_java_id_def id_walk_eq_spec_walk no_adjacent_ud_drop)

theorem to_java_id_eq_spec_witness:
  "no_adjacent_ud ''BadCharSet'' \<and> to_java_id ''BadCharSet'' = spec_java_id ''BadCharSet''"
  using to_java_id_eq_spec [of "''BadCharSet''"] by (simp add: py_char_defs)

text \<open>
  Claim C25. Where they are, the two differ: on a run of three or more upper-case
  letters or digits the specification keeps the run whole, while the loop resets its
  flag after every second character and inserts a separator (\<open>ABCD\<close> becomes
  \<open>AB_CD\<close>).
\<close>

theorem to_java_id_splits_acronyms:
  "2 < length w \<Longrightarrow> \<forall>c \<in> set w. is_upper c \<or> is_digit c \<Longrightarrow>
   spec_java_id w = w \<and> to_java_id w \<noteq> w"
proof -
  assume len: "2 < length w" and ud: "\<forall>c \<in> set w. is_upper c \<or> is_digit c"
  have x: "\<not> (is_upper CHR ''x'' \<or> is_digit CHR ''x'')" "\<not> (is_upper CHR ''i'' \<or> is_digit CHR ''i'')"
    by (simp_all add: py_char_defs)
  have np: "\<not> startswith w ''Ex''" "\<not> startswith w ''Diff2''"
  proof
    assume "startswith w ''Ex''"
    then have "CHR ''x'' \<in> set w" by (auto simp: startswith_conv)
    with ud x show False by blast
  next
    show "\<not> startswith w ''Diff2''"
    proof
      assume "startswith w ''Diff2''"
      then have "CHR ''i'' \<in> set w" by (auto simp: startswith_conv)
      with ud x show False by blast
    qed
  qed
  have "spec_java_id w = map py_upper w" using ud np by (simp add: spec_java_id_def spec_walk_ud)
  then have spec: "spec_java_id w = w" using ud by (simp add: map_py_upper_ud)
  obtain a b c r where w: "w = a # b # c # r" using len by (cases w rule: remdups_adj.cases; cases "tl (tl w)") auto
  have abc: "is_upper a \<or> is_digit a" "is_upper b \<or> is_digit b" "is_upper c \<or> is_digit c"
    using ud w by simp_all
  have "to_java_id w = id_walk False [] (a # b # c # r)"
    using np w by (simp only: to_java_id_def if_False)
  also have "\<dots> = id_walk True ([py_upper a, py_upper b] @ ''_'' @ [py_upper c]) r"
    using abc by simp
  finally have "to_java_id w = id_walk True ([py_upper a, py_upper b] @ ''_'' @ [py_upper c]) r" .
  then have "CHR ''_'' \<in> set (to_java_id w)" using set_id_walk by fastforce
  moreover have "CHR ''_'' \<notin> set w" using ud by auto
  ultimately show ?thesis using spec by auto
qed

theorem to_java_id_splits_acronyms_witness:
  "2 < length ''ABCD'' \<and> spec_java_id ''ABCD'' = ''ABCD'' \<and> to_java_id ''ABCD'' \<noteq> ''ABCD''"
proof -
  have h: "2 < length ''ABCD''" "\<forall>c \<in> set ''ABCD''. is_upper c \<or> is_digit c" by (simp_all add: py_char_defs)
  show ?thesis using h to_java_id_splits_acronyms [OF h] by blast
qed

end
