(* ===== verification/Sorter.thy ===== *)
theory Sorter
  imports MsgPattern
begin

text \<open>
  The sort of \<open>output_msg_lines\<close> in \<open>src/p4java/generate-error-codes.py\<close>
  (line 125): \<open>msg_lines.sort(key=lambda x: int(x[2].strip()))\<close>.  Python computes
  the key of every element first, in list order, and the first \<open>int()\<close> that fails
  raises \<open>ValueError\<close>; then it sorts stably by the keys.  \<open>py_int\<close> is
  \<open>int()\<close> on a string (ASCII digits, optional sign, single underscores between
  digits, surrounding whitespace ignored); \<open>msg_keys\<close> the key pass; and
  \<open>sort_msg_lines\<close> the sort, with the library's insertion sort \<open>sort_key\<close>
  standing for Timsort: the lemmas show that any stable sort gives the same list.
  The abstract specification is \<open>stable_sort_spec\<close> (a sorted permutation that keeps
  the input order of equal keys); the refinement lemma shows that the sort meets it
  and is the only list that does.
\<close>

section \<open>\<open>int()\<close> on a string\<close>

definition digit_value :: "char \<Rightarrow> nat" where
  "digit_value c = (case map_of (zip ''0123456789'' [0, 1, 2, 3, 4, 5, 6, 7, 8, 9]) c of
                      Some v \<Rightarrow> v | None \<Rightarrow> 0)"

text \<open>Digits, with single underscores allowed between two digits.\<close>

fun digits_ok :: "string \<Rightarrow> bool" where
  "digits_ok [] = False"
| "digits_ok [c] = is_digit c"
| "digits_ok (c # d # cs) =
     (is_digit c \<and>
      (if d = CHR ''_'' then (case cs of [] \<Rightarrow> False | e # _ \<Rightarrow> is_digit e) \<and> digits_ok cs
       else digits_ok (d # cs)))"

definition digits_value :: "string \<Rightarrow> nat" where
  "digits_value ds = foldl (\<lambda>n c. 10 * n + digit_value c) 0 (filter is_digit ds)"

definition py_int :: "string \<Rightarrow> int option" where
  "py_int s =
     (let t = py_strip s in
      case t of
        [] \<Rightarrow> None
      | c # ds \<Rightarrow>
          if c = CHR ''-'' then (if digits_ok ds then Some (- int (digits_value ds)) else None)
          else if c = CHR ''+'' then (if digits_ok ds then Some (int (digits_value ds)) else None)
          else if digits_ok t then Some (int (digits_value t)) else None)"

text \<open>The key \<open>int(x[2].strip())\<close> of one record.\<close>

definition msg_key :: "msg \<Rightarrow> int option" where
  "msg_key m = py_int (py_strip (m_msg_code m))"

section \<open>The sort\<close>

text \<open>The key pass: the keys in list order, or the first string \<open>int()\<close> rejects.\<close>

fun msg_keys :: "msg list \<Rightarrow> string + (int \<times> msg) list" where
  "msg_keys [] = Inr []"
| "msg_keys (m # ms) =
     (case msg_key m of
        None \<Rightarrow> Inl (py_strip (m_msg_code m))
      | Some k \<Rightarrow> map_sum id (\<lambda>kms. (k, m) # kms) (msg_keys ms))"

definition sort_msg_lines :: "msg list \<Rightarrow> string + msg list" where
  "sort_msg_lines ms = map_sum id (\<lambda>kms. map snd (sort_key fst kms)) (msg_keys ms)"

section \<open>Specification\<close>

text \<open>
  A stable sort of \<open>xs\<close> by \<open>k\<close>: a permutation, sorted by the key, in which the
  elements of each key keep their order in \<open>xs\<close>.
\<close>

definition stable_sort_spec :: "('a \<Rightarrow> int) \<Rightarrow> 'a list \<Rightarrow> 'a list \<Rightarrow> bool" where
  "stable_sort_spec k xs ys \<longleftrightarrow>
     mset ys = mset xs \<and> sorted (map k ys) \<and>
     (\<forall>v. filter (\<lambda>y. k y = v) ys = filter (\<lambda>y. k y = v) xs)"

section \<open>Lemmas on the key pass and the sort\<close>

lemma insort_key_map:
  "insort_key f (g x) (map g ys) = map g (insort_key (\<lambda>y. f (g y)) x ys)"
  by (induction ys) auto

lemma sort_key_map: "sort_key f (map g xs) = map g (sort_key (\<lambda>y. f (g y)) xs)"
  by (induction xs) (auto simp: insort_key_map)

lemma msg_keys_Inr:
  "msg_keys ms = Inr kms \<Longrightarrow>
   kms = map (\<lambda>m. (the (msg_key m), m)) ms \<and> (\<forall>m \<in> set ms. msg_key m \<noteq> None)"
proof (induction ms arbitrary: kms)
  case Nil
  then show ?case by simp
next
  case (Cons m ms)
  then obtain k kms' where "msg_key m = Some k" "msg_keys ms = Inr kms'" "kms = (k, m) # kms'"
    by (cases "msg_key m"; cases "msg_keys ms") auto
  with Cons.IH show ?case by simp
qed

lemma msg_keys_all:
  "\<forall>m \<in> set ms. msg_key m \<noteq> None \<Longrightarrow> msg_keys ms = Inr (map (\<lambda>m. (the (msg_key m), m)) ms)"
  by (induction ms) auto

lemma msg_keys_Inl:
  "msg_keys ms = Inl s \<longleftrightarrow>
   (\<exists>pre m post. ms = pre @ m # post \<and> (\<forall>p \<in> set pre. msg_key p \<noteq> None) \<and>
      msg_key m = None \<and> s = py_strip (m_msg_code m))"
proof (induction ms)
  case Nil
  then show ?case by simp
next
  case (Cons m ms)
  show ?case
  proof (cases "msg_key m")
    case None
    show ?thesis
    proof
      assume "msg_keys (m # ms) = Inl s"
      with None have "m # ms = [] @ m # ms \<and> msg_key m = None \<and> s = py_strip (m_msg_code m)"
        by simp
      then show "\<exists>pre m' post. m # ms = pre @ m' # post \<and> (\<forall>p \<in> set pre. msg_key p \<noteq> None) \<and>
          msg_key m' = None \<and> s = py_strip (m_msg_code m')" by fastforce
    next
      assume "\<exists>pre m' post. m # ms = pre @ m' # post \<and> (\<forall>p \<in> set pre. msg_key p \<noteq> None) \<and>
          msg_key m' = None \<and> s = py_strip (m_msg_code m')"
      then obtain pre m' post where e: "m # ms = pre @ m' # post"
        and pre: "\<forall>p \<in> set pre. msg_key p \<noteq> None" and s: "s = py_strip (m_msg_code m')" by blast
      have "pre = []" using e pre None by (cases pre) auto
      with e s None show "msg_keys (m # ms) = Inl s" by simp
    qed
  next
    case (Some k)
    then have step: "msg_keys (m # ms) = Inl s \<longleftrightarrow> msg_keys ms = Inl s"
      by (cases "msg_keys ms") auto
    show ?thesis
    proof
      assume "msg_keys (m # ms) = Inl s"
      with step Cons.IH obtain pre m' post where "ms = pre @ m' # post"
        "\<forall>p \<in> set pre. msg_key p \<noteq> None" "msg_key m' = None" "s = py_strip (m_msg_code m')"
        by blast
      with Some have "m # ms = (m # pre) @ m' # post \<and> (\<forall>p \<in> set (m # pre). msg_key p \<noteq> None) \<and>
          msg_key m' = None \<and> s = py_strip (m_msg_code m')" by simp
      then show "\<exists>pre m' post. m # ms = pre @ m' # post \<and> (\<forall>p \<in> set pre. msg_key p \<noteq> None) \<and>
          msg_key m' = None \<and> s = py_strip (m_msg_code m')" by blast
    next
      assume "\<exists>pre m' post. m # ms = pre @ m' # post \<and> (\<forall>p \<in> set pre. msg_key p \<noteq> None) \<and>
          msg_key m' = None \<and> s = py_strip (m_msg_code m')"
      then obtain pre m' post where e: "m # ms = pre @ m' # post"
        and pre: "\<forall>p \<in> set pre. msg_key p \<noteq> None" and m': "msg_key m' = None"
        and s: "s = py_strip (m_msg_code m')" by blast
      obtain pre' where pre': "pre = m # pre'" "ms = pre' @ m' # post"
        using e m' Some by (cases pre) auto
      with pre m' s have "msg_keys ms = Inl s" using Cons.IH by auto
      with step show "msg_keys (m # ms) = Inl s" by simp
    qed
  qed
qed

lemma sort_msg_lines_all:
  "\<forall>m \<in> set ms. msg_key m \<noteq> None \<Longrightarrow>
   sort_msg_lines ms = Inr (sort_key (\<lambda>m. the (msg_key m)) ms)"
proof -
  assume a: "\<forall>m \<in> set ms. msg_key m \<noteq> None"
  have "map snd (sort_key fst (map (\<lambda>m. (the (msg_key m), m)) ms)) =
        sort_key (\<lambda>m. the (msg_key m)) ms"
    by (simp add: sort_key_map o_def)
  with msg_keys_all [OF a] show ?thesis by (simp add: sort_msg_lines_def)
qed

lemma sort_key_stable_sort_spec: "stable_sort_spec k xs (sort_key k xs)"
  by (simp add: stable_sort_spec_def sort_key_stable)

lemma stable_sort_spec_unique:
  assumes "stable_sort_spec k xs ys"
  shows "sort_key k xs = ys"
proof (rule properties_for_sort_key)
  show "mset ys = mset xs" "sorted (map k ys)" using assms by (simp_all add: stable_sort_spec_def)
  have eq: "(\<lambda>x. v = k x) = (\<lambda>y. k y = v)" for v by auto
  show "filter (\<lambda>x. k y = k x) ys = filter (\<lambda>x. k y = k x) xs" for y
    using assms by (simp add: stable_sort_spec_def eq)
qed

lemmas int_eval = msg_key_def py_int_def py_strip_def py_lstrip_def py_rstrip_def digits_value_def digit_value_def py_char_defs

section \<open>Properties of the sort\<close>

text \<open>
  Claim C2. When every message code is an integer, the sort refines the
  specification of a stable sort by message code: its result is a permutation of the
  records, ordered by code, with records of equal code in input order, and it is the
  only list that is.
\<close>

theorem sort_msg_lines_refines:
  "\<forall>m \<in> set ms. msg_key m \<noteq> None \<Longrightarrow>
   sort_msg_lines ms = Inr ys \<longleftrightarrow> stable_sort_spec (\<lambda>m. the (msg_key m)) ms ys"
proof -
  assume "\<forall>m \<in> set ms. msg_key m \<noteq> None"
  then have eq: "sort_msg_lines ms = Inr (sort_key (\<lambda>m. the (msg_key m)) ms)"
    by (rule sort_msg_lines_all)
  show ?thesis
  proof
    assume "sort_msg_lines ms = Inr ys"
    with eq have "ys = sort_key (\<lambda>m. the (msg_key m)) ms" by simp
    then show "stable_sort_spec (\<lambda>m. the (msg_key m)) ms ys" by (simp add: sort_key_stable_sort_spec)
  next
    assume "stable_sort_spec (\<lambda>m. the (msg_key m)) ms ys"
    then have "sort_key (\<lambda>m. the (msg_key m)) ms = ys" by (rule stable_sort_spec_unique)
    with eq show "sort_msg_lines ms = Inr ys" by simp
  qed
qed

theorem sort_msg_lines_refines_witness:
  "msg_key \<lparr>m_name = ''A'', m_sub_code = ''ES_DM'', m_msg_code = ''2'', m_severity_code = ''E_FAILED'', m_generic_code = ''EV_USAGE'', m_arg_count = ''0'', m_text = ''a''\<rparr> \<noteq> None \<and> msg_key \<lparr>m_name = ''B'', m_sub_code = ''ES_DM'', m_msg_code = '' 1'', m_severity_code = ''E_FAILED'', m_generic_code = ''EV_USAGE'', m_arg_count = ''0'', m_text = ''b''\<rparr> \<noteq> None \<and>
   sort_msg_lines [\<lparr>m_name = ''A'', m_sub_code = ''ES_DM'', m_msg_code = ''2'', m_severity_code = ''E_FAILED'', m_generic_code = ''EV_USAGE'', m_arg_count = ''0'', m_text = ''a''\<rparr>, \<lparr>m_name = ''B'', m_sub_code = ''ES_DM'', m_msg_code = '' 1'', m_severity_code = ''E_FAILED'', m_generic_code = ''EV_USAGE'', m_arg_count = ''0'', m_text = ''b''\<rparr>] = Inr [\<lparr>m_name = ''B'', m_sub_code = ''ES_DM'', m_msg_code = '' 1'', m_severity_code = ''E_FAILED'', m_generic_code = ''EV_USAGE'', m_arg_count = ''0'', m_text = ''b''\<rparr>, \<lparr>m_name = ''A'', m_sub_code = ''ES_DM'', m_msg_code = ''2'', m_severity_code = ''E_FAILED'', m_generic_code = ''EV_USAGE'', m_arg_count = ''0'', m_text = ''a''\<rparr>] \<and>
   stable_sort_spec (\<lambda>m. the (msg_key m)) [\<lparr>m_name = ''A'', m_sub_code = ''ES_DM'', m_msg_code = ''2'', m_severity_code = ''E_FAILED'', m_generic_code = ''EV_USAGE'', m_arg_count = ''0'', m_text = ''a''\<rparr>, \<lparr>m_name = ''B'', m_sub_code = ''ES_DM'', m_msg_code = '' 1'', m_severity_code = ''E_FAILED'', m_generic_code = ''EV_USAGE'', m_arg_count = ''0'', m_text = ''b''\<rparr>] [\<lparr>m_name = ''B'', m_sub_code = ''ES_DM'', m_msg_code = '' 1'', m_severity_code = ''E_FAILED'', m_generic_code = ''EV_USAGE'', m_arg_count = ''0'', m_text = ''b''\<rparr>, \<lparr>m_name = ''A'', m_sub_code = ''ES_DM'', m_msg_code = ''2'', m_severity_code = ''E_FAILED'', m_generic_code = ''EV_USAGE'', m_arg_count = ''0'', m_text = ''a''\<rparr>]"
proof -
  have keys: "\<forall>m \<in> set [\<lparr>m_name = ''A'', m_sub_code = ''ES_DM'', m_msg_code = ''2'', m_severity_code = ''E_FAILED'', m_generic_code = ''EV_USAGE'', m_arg_count = ''0'', m_text = ''a''\<rparr>, \<lparr>m_name = ''B'', m_sub_code = ''ES_DM'', m_msg_code = '' 1'', m_severity_code = ''E_FAILED'', m_generic_code = ''EV_USAGE'', m_arg_count = ''0'', m_text = ''b''\<rparr>]. msg_key m \<noteq> None" by (simp add: int_eval)
  have run: "sort_msg_lines [\<lparr>m_name = ''A'', m_sub_code = ''ES_DM'', m_msg_code = ''2'', m_severity_code = ''E_FAILED'', m_generic_code = ''EV_USAGE'', m_arg_count = ''0'', m_text = ''a''\<rparr>, \<lparr>m_name = ''B'', m_sub_code = ''ES_DM'', m_msg_code = '' 1'', m_severity_code = ''E_FAILED'', m_generic_code = ''EV_USAGE'', m_arg_count = ''0'', m_text = ''b''\<rparr>] = Inr [\<lparr>m_name = ''B'', m_sub_code = ''ES_DM'', m_msg_code = '' 1'', m_severity_code = ''E_FAILED'', m_generic_code = ''EV_USAGE'', m_arg_count = ''0'', m_text = ''b''\<rparr>, \<lparr>m_name = ''A'', m_sub_code = ''ES_DM'', m_msg_code = ''2'', m_severity_code = ''E_FAILED'', m_generic_code = ''EV_USAGE'', m_arg_count = ''0'', m_text = ''a''\<rparr>]"
    by (simp add: sort_msg_lines_def int_eval)
  have k2: "msg_key \<lparr>m_name = ''A'', m_sub_code = ''ES_DM'', m_msg_code = ''2'', m_severity_code = ''E_FAILED'', m_generic_code = ''EV_USAGE'', m_arg_count = ''0'', m_text = ''a''\<rparr> \<noteq> None \<and> msg_key \<lparr>m_name = ''B'', m_sub_code = ''ES_DM'', m_msg_code = '' 1'', m_severity_code = ''E_FAILED'', m_generic_code = ''EV_USAGE'', m_arg_count = ''0'', m_text = ''b''\<rparr> \<noteq> None" by (simp add: int_eval)
  show ?thesis using k2 run sort_msg_lines_refines [OF keys, of "[\<lparr>m_name = ''B'', m_sub_code = ''ES_DM'', m_msg_code = '' 1'', m_severity_code = ''E_FAILED'', m_generic_code = ''EV_USAGE'', m_arg_count = ''0'', m_text = ''b''\<rparr>, \<lparr>m_name = ''A'', m_sub_code = ''ES_DM'', m_msg_code = ''2'', m_severity_code = ''E_FAILED'', m_generic_code = ''EV_USAGE'', m_arg_count = ''0'', m_text = ''a''\<rparr>]"] by blast
qed

text \<open>
  Claim C15. The sort fails exactly when some message code is not an
  integer, and it reports the first such code in list order (Python computes every
  key before sorting, so the first failing \<open>int()\<close> raises \<open>ValueError\<close>).
\<close>

theorem sort_msg_lines_error:
  "sort_msg_lines ms = Inl s \<longleftrightarrow>
   (\<exists>pre m post. ms = pre @ m # post \<and> (\<forall>p \<in> set pre. msg_key p \<noteq> None) \<and>
      msg_key m = None \<and> s = py_strip (m_msg_code m))"
proof -
  have "sort_msg_lines ms = Inl s \<longleftrightarrow> msg_keys ms = Inl s"
    by (cases "msg_keys ms") (simp_all add: sort_msg_lines_def)
  then show ?thesis by (simp only: msg_keys_Inl)
qed

theorem sort_msg_lines_error_witness:
  "sort_msg_lines [\<lparr>m_name = ''A'', m_sub_code = ''ES_DM'', m_msg_code = ''2'', m_severity_code = ''E_FAILED'', m_generic_code = ''EV_USAGE'', m_arg_count = ''0'', m_text = ''a''\<rparr>, \<lparr>m_name = ''X'', m_sub_code = ''ES_DM'', m_msg_code = ''E_X'', m_severity_code = ''E_FAILED'', m_generic_code = ''EV_USAGE'', m_arg_count = ''0'', m_text = ''x''\<rparr>, \<lparr>m_name = ''B'', m_sub_code = ''ES_DM'', m_msg_code = '' 1'', m_severity_code = ''E_FAILED'', m_generic_code = ''EV_USAGE'', m_arg_count = ''0'', m_text = ''b''\<rparr>] = Inl ''E_X'' \<and>
   (\<exists>pre m post. [\<lparr>m_name = ''A'', m_sub_code = ''ES_DM'', m_msg_code = ''2'', m_severity_code = ''E_FAILED'', m_generic_code = ''EV_USAGE'', m_arg_count = ''0'', m_text = ''a''\<rparr>, \<lparr>m_name = ''X'', m_sub_code = ''ES_DM'', m_msg_code = ''E_X'', m_severity_code = ''E_FAILED'', m_generic_code = ''EV_USAGE'', m_arg_count = ''0'', m_text = ''x''\<rparr>, \<lparr>m_name = ''B'', m_sub_code = ''ES_DM'', m_msg_code = '' 1'', m_severity_code = ''E_FAILED'', m_generic_code = ''EV_USAGE'', m_arg_count = ''0'', m_text = ''b''\<rparr>] = pre @ m # post \<and> (\<forall>p \<in> set pre. msg_key p \<noteq> None) \<and>
      msg_key m = None \<and> ''E_X'' = py_strip (m_msg_code m))"
proof -
  have run: "sort_msg_lines [\<lparr>m_name = ''A'', m_sub_code = ''ES_DM'', m_msg_code = ''2'', m_severity_code = ''E_FAILED'', m_generic_code = ''EV_USAGE'', m_arg_count = ''0'', m_text = ''a''\<rparr>, \<lparr>m_name = ''X'', m_sub_code = ''ES_DM'', m_msg_code = ''E_X'', m_severity_code = ''E_FAILED'', m_generic_code = ''EV_USAGE'', m_arg_count = ''0'', m_text = ''x''\<rparr>, \<lparr>m_name = ''B'', m_sub_code = ''ES_DM'', m_msg_code = '' 1'', m_severity_code = ''E_FAILED'', m_generic_code = ''EV_USAGE'', m_arg_count = ''0'', m_text = ''b''\<rparr>] = Inl ''E_X''" by (simp add: sort_msg_lines_def int_eval)
  show ?thesis using run sort_msg_lines_error [of "[\<lparr>m_name = ''A'', m_sub_code = ''ES_DM'', m_msg_code = ''2'', m_severity_code = ''E_FAILED'', m_generic_code = ''EV_USAGE'', m_arg_count = ''0'', m_text = ''a''\<rparr>, \<lparr>m_name = ''X'', m_sub_code = ''ES_DM'', m_msg_code = ''E_X'', m_severity_code = ''E_FAILED'', m_generic_code = ''EV_USAGE'', m_arg_count = ''0'', m_text = ''x''\<rparr>, \<lparr>m_name = ''B'', m_sub_code = ''ES_DM'', m_msg_code = '' 1'', m_severity_code = ''E_FAILED'', m_generic_code = ''EV_USAGE'', m_arg_count = ''0'', m_text = ''b''\<rparr>]" "''E_X''"] by blast
qed

end
