(* ===== verification/Emitter.thy ===== *)
theory Emitter
  imports JavaId Sorter
begin

text \<open>
  The emitter of \<open>src/p4java/generate-error-codes.py\<close>: the constant table
  \<open>CONSTANT_MAPPING\<close> (lines 23--60) as an association list in source order,
  \<open>header\<close> (lines 63--91), \<open>footer\<close> (lines 94--96), \<open>output_line\<close>
  (lines 130--163) and \<open>output_msg_lines\<close> (lines 122--127), which sorts (raising
  \<open>ValueError\<close> as \<open>Inl\<close>) and then renders each record.  The text a call writes
  to the file is the value of the function.  The lemmas characterise the table lookup
  and the documentation links, and show that a message text can end the Javadoc
  comment it is copied into.
\<close>

definition constant_mapping :: "(string \<times> string) list" where
  "constant_mapping = [
     (''ES_OS'', ''MessageSubsystemCode.ES_OS''),
     (''ES_SUPP'', ''MessageSubsystemCode.ES_SUPP''),
     (''ES_LBR'', ''MessageSubsystemCode.ES_LBR''),
     (''ES_RPC'', ''MessageSubsystemCode.ES_RPC''),
     (''ES_DB'', ''MessageSubsystemCode.ES_DB''),
     (''ES_DBSUPP'', ''MessageSubsystemCode.ES_DBSUPP''),
     (''ES_DM'', ''MessageSubsystemCode.ES_DM''),
     (''ES_SERVER'', ''MessageSubsystemCode.ES_SERVER''),
     (''ES_CLIENT'', ''MessageSubsystemCode.ES_CLIENT''),
     (''ES_INFO'', ''MessageSubsystemCode.ES_INFO''),
     (''ES_HELP'', ''MessageSubsystemCode.ES_HELP''),
     (''ES_SPEC'', ''MessageSubsystemCode.ES_SPEC''),
     (''ES_FTPD'', ''MessageSubsystemCode.ES_FTPD''),
     (''ES_BROKER'', ''MessageSubsystemCode.ES_BROKER''),
     (''EV_NONE'', ''MessageGenericCode.EV_NONE''),
     (''EV_USAGE'', ''MessageGenericCode.EV_USAGE''),
     (''EV_UNKNOWN'', ''MessageGenericCode.EV_UNKNOWN''),
     (''EV_CONTEXT'', ''MessageGenericCode.EV_CONTEXT''),
     (''EV_ILLEGAL'', ''MessageGenericCode.EV_ILLEGAL''),
     (''EV_NOTYET'', ''MessageGenericCode.EV_NOTYET''),
     (''EV_PROTECT'', ''MessageGenericCode.EV_PROTECT''),
     (''EV_EMPTY'', ''MessageGenericCode.EV_EMPTY''),
     (''EV_FAULT'', ''MessageGenericCode.EV_FAULT''),
     (''EV_CLIENT'', ''MessageGenericCode.EV_CLIENT''),
     (''EV_ADMIN'', ''MessageGenericCode.EV_ADMIN''),
     (''EV_CONFIG'', ''MessageGenericCode.EV_CONFIG''),
     (''EV_UPGRADE'', ''MessageGenericCode.EV_UPGRADE''),
     (''EV_COMM'', ''MessageGenericCode.EV_COMM''),
     (''EV_TOOBIG'', ''MessageGenericCode.EV_TOOBIG''),
     (''E_EMPTY'', ''MessageSeverityCode.E_EMPTY''),
     (''E_INFO'', ''MessageSeverityCode.E_INFO''),
     (''E_WARN'', ''MessageSeverityCode.E_WARN''),
     (''E_FAILED'', ''MessageSeverityCode.E_FAILED''),
     (''E_FATAL'', ''MessageSeverityCode.E_FATAL'')]"

text \<open>\<open>if code in CONSTANT_MAPPING: code = CONSTANT_MAPPING[code]\<close>\<close>

definition map_code :: "string \<Rightarrow> string" where
  "map_code c = (case map_of constant_mapping c of Some v \<Rightarrow> v | None \<Rightarrow> c)"

definition header :: "string \<Rightarrow> string" where
  "header src = concat (map (\<lambda>l. l @ [CHR 0x0A]) [
     ''/*'',
     '' * Licensed under the Apache License, Version 2.0 (the '' @ [CHR 0x22] @ ''License'' @ [CHR 0x22] @ '');'',
     '' * you may not use this file except in compliance with the License.'',
     '' * You may obtain a copy of the License at'',
     '' *'',
     '' * http://www.apache.org/licenses/LICENSE-2.0'',
     '' *'',
     '' * Unless required by applicable law or agreed to in writing, software'',
     '' * distributed under the License is distributed on an '' @ [CHR 0x22] @ ''AS IS'' @ [CHR 0x22] @ '' BASIS,'',
     '' * WITHOUT WARRANTIES OR CONDITIONS OF ANY KIND, either express or implied.'',
     '' * See the License for the specific language governing permissions and'',
     '' * limitations under the License.'',
     '' */'',
     [],
     ''package com.perforce.p4java.server;'',
     [],
     ''import com.perforce.p4java.exception.MessageGenericCode;'',
     ''import com.perforce.p4java.exception.MessageSubsystemCode;'',
     ''import com.perforce.p4java.exception.MessageSeverityCode;'',
     [],
     ''/**'',
     '' * Error messages loaded from the Perforce C client source.'',
     '' * <p>'',
     '' * p4ic4idea: DO NOT EDIT.'',
     '' * This file is generated from the script '' @ py_basename src,
     '' */'',
     ''public interface IServerMessageCode {''])"

definition footer :: string where
  "footer = ''}'' @ [CHR 0x0A]"

text \<open>\<open>sub_code.replace('.', '#')\<close>: a Javadoc reference to the enum member.\<close>

definition code_link :: "string \<Rightarrow> string" where
  "code_link c = replace_char (CHR ''.'') (CHR ''#'') c"

definition output_line :: "msg \<Rightarrow> string" where
  "output_line m =
     (let name = py_strip (m_name m);
          sub_code = map_code (py_strip (m_sub_code m));
          msg_code = py_strip (m_msg_code m);
          severity_code = map_code (py_strip (m_severity_code m));
          generic_code = map_code (py_strip (m_generic_code m));
          arg_count = py_strip (m_arg_count m);
          nl = [CHR 0x0A]
      in nl @ ''    /**'' @ nl @
         ''     * '' @ name @ nl @
         ''     * Severity {@link '' @ code_link severity_code @ ''}'' @ nl @
         ''     * Subsystem code {@link '' @ code_link sub_code @ ''}'' @ nl @
         ''     * Generic code {@link '' @ code_link generic_code @ ''},'' @ nl @
         ''     * argument count '' @ arg_count @ '','' @ nl @
         ''     * Text: '' @ [CHR 0x22] @ m_text m @ [CHR 0x22] @ nl @
         ''     */'' @ nl @
         ''    int '' @ to_java_id name @ '' = '' @ msg_code @ '';'' @ nl)"

definition output_msg_lines :: "msg list \<Rightarrow> string + string" where
  "output_msg_lines ms = map_sum id (\<lambda>ys. concat (map output_line ys)) (sort_msg_lines ms)"

text \<open>The enum class a token of the table belongs to, read from its prefix.\<close>

definition code_class :: "string \<Rightarrow> string" where
  "code_class k =
     (if startswith k ''ES_'' then ''MessageSubsystemCode''
      else if startswith k ''EV_'' then ''MessageGenericCode''
      else ''MessageSeverityCode'')"

section \<open>Lemmas on the table\<close>

lemma constant_mapping_entries:
  "\<forall>(k, v) \<in> set constant_mapping. v = code_class k @ ''.'' @ k"
  by (simp add: constant_mapping_def code_class_def)

lemma constant_mapping_distinct: "distinct (map fst constant_mapping)"
  by (simp add: constant_mapping_def)

lemma constant_keys_no_dot: "\<forall>k \<in> set (map fst constant_mapping). CHR ''.'' \<notin> set k"
  by (simp add: constant_mapping_def)

lemma code_class_no_dot: "CHR ''.'' \<notin> set (code_class k)"
  by (simp add: code_class_def)

lemma replace_char_id: "a \<notin> set s \<Longrightarrow> replace_char a b s = s"
  by (induction s) (auto simp: replace_char_def)

section \<open>Lemmas on the rendered body\<close>

lemma output_msg_lines_all:
  "\<forall>m \<in> set ms. msg_key m \<noteq> None \<Longrightarrow>
   output_msg_lines ms = Inr (concat (map output_line (sort_key (\<lambda>m. the (msg_key m)) ms)))"
  by (simp add: output_msg_lines_def sort_msg_lines_all)

lemma output_msg_lines_Inr:
  "output_msg_lines ms = Inr body \<Longrightarrow> \<forall>m \<in> set ms. msg_key m \<noteq> None"
  by (cases "msg_keys ms") (auto simp: output_msg_lines_def sort_msg_lines_def dest: msg_keys_Inr)

lemma output_msg_lines_Nil [simp]: "output_msg_lines [] = Inr []"
  by (simp add: output_msg_lines_def sort_msg_lines_def)

section \<open>Properties of the emitter\<close>

text \<open>
  Claim C17. The table lookup of \<open>output_line\<close>: a token of the table
  becomes the member of the enum class its prefix names (\<open>ES_\<close> subsystem,
  \<open>EV_\<close> generic, \<open>E_\<close> severity), qualified by the class; any other token is
  passed through unchanged.  The table has no repeated key, so the lookup is the
  one Python's dictionary literal defines.
\<close>

theorem map_code_eq:
  "map_code k = (if k \<in> set (map fst constant_mapping) then code_class k @ ''.'' @ k else k)"
proof (cases "k \<in> set (map fst constant_mapping)")
  case True
  then obtain v where kv: "(k, v) \<in> set constant_mapping" by auto
  then have "map_of constant_mapping k = Some v"
    by (rule map_of_is_SomeI [OF constant_mapping_distinct])
  moreover have "v = code_class k @ ''.'' @ k" using kv constant_mapping_entries by blast
  ultimately show ?thesis using True by (simp add: map_code_def)
next
  case False
  then have "map_of constant_mapping k = None" by (simp add: map_of_eq_None_iff)
  with False show ?thesis by (simp add: map_code_def)
qed

text \<open>
  Claim C18. For a token of the table, the documentation link is the Javadoc
  reference \<open>Class#TOKEN\<close> to the enum member.
\<close>

theorem code_link_map_code:
  "k \<in> set (map fst constant_mapping) \<Longrightarrow> code_link (map_code k) = code_class k @ ''#'' @ k"
proof -
  assume k: "k \<in> set (map fst constant_mapping)"
  then have "map_code k = code_class k @ ''.'' @ k" by (simp add: map_code_eq)
  moreover have "CHR ''.'' \<notin> set k" using k constant_keys_no_dot by blast
  ultimately show ?thesis
    by (simp add: code_link_def replace_char_id code_class_no_dot)
qed

theorem code_link_map_code_witness:
  "''ES_DM'' \<in> set (map fst constant_mapping) \<and>
   code_link (map_code ''ES_DM'') = ''MessageSubsystemCode#ES_DM''"
proof -
  have k: "''ES_DM'' \<in> set (map fst constant_mapping)" by (simp add: constant_mapping_def)
  show ?thesis using k code_link_map_code [OF k] by (simp add: code_class_def)
qed

text \<open>
  Claim C29. The message text is copied into the documentation
  comment without escaping: a text containing \<open>*/\<close> makes the generated comment
  contain the closing sequence at least twice, so the comment ends early and the rest
  of it becomes Java code.
\<close>

theorem output_line_text_closes_comment:
  "m_text m = a @ ''*/'' @ b \<Longrightarrow> 2 \<le> occurrences ''*/'' (output_line m)"
proof -
  assume t: "m_text m = a @ ''*/'' @ b"
  obtain pre post where ol: "output_line m = pre @ m_text m @ post"
    and post: "post = [CHR 0x22] @ [CHR 0x0A] @ ''     */'' @ [CHR 0x0A] @
       ''    int '' @ to_java_id (py_strip (m_name m)) @ '' = '' @ py_strip (m_msg_code m) @ '';'' @ [CHR 0x0A]"
    by (simp add: output_line_def Let_def)
  have "1 \<le> occurrences ''*/'' (m_text m)"
    using t occurrences_ge_one [of "length a" "m_text m" "''*/''"] by simp
  moreover have "1 \<le> occurrences ''*/'' post"
    using post occurrences_ge_one [of 7 post "''*/''"] by simp
  moreover have "occurrences ''*/'' (m_text m) + occurrences ''*/'' post \<le>
                 occurrences ''*/'' (m_text m @ post)"
    using occurrences_append_ge [of "''*/''" "m_text m" post] by simp
  moreover have "occurrences ''*/'' (m_text m @ post) \<le> occurrences ''*/'' (pre @ m_text m @ post)"
    using occurrences_append_ge [of "''*/''" pre "m_text m @ post"] by simp
  ultimately show ?thesis using ol by simp
qed

theorem output_line_text_closes_comment_witness:
  "m_text \<lparr>m_name = ''T'', m_sub_code = ''ES_DM'', m_msg_code = ''4'', m_severity_code = ''E_FAILED'', m_generic_code = ''EV_USAGE'', m_arg_count = ''0'', m_text = ''a */ b''\<rparr> = ''a '' @ ''*/'' @ '' b'' \<and> 2 \<le> occurrences ''*/'' (output_line \<lparr>m_name = ''T'', m_sub_code = ''ES_DM'', m_msg_code = ''4'', m_severity_code = ''E_FAILED'', m_generic_code = ''EV_USAGE'', m_arg_count = ''0'', m_text = ''a */ b''\<rparr>)"
  using output_line_text_closes_comment [of "\<lparr>m_name = ''T'', m_sub_code = ''ES_DM'', m_msg_code = ''4'', m_severity_code = ''E_FAILED'', m_generic_code = ''EV_USAGE'', m_arg_count = ''0'', m_text = ''a */ b''\<rparr>" "''a ''" "'' b''"] by simp

end
