(* ===== verification/Driver.thy ===== *)
theory Driver
  imports Scanner Emitter
begin

text \<open>
  The command-line driver \<open>main\<close> of \<open>src/p4java/generate-error-codes.py\<close>
  (lines 222--247) and the process exit of lines 250--251.  The file system is the
  record \<open>fs\<close>: which paths are directories (\<open>os.path.isdir\<close>) and the contents
  of the regular files (\<open>os.path.isfile\<close>, reading, and writing with \<open>open(.., 'w')\<close>,
  which truncates).  A run returns the lines printed, the outcome (an exit code, or
  an exception that escapes \<open>main\<close>) and the new file system.  The generated file is
  opened only after parsing succeeds; the header is written before the sort, so a
  \<open>ValueError\<close> of the sort leaves the file truncated to the header.
\<close>

definition REL_OUTDIR :: string where
  "REL_OUTDIR = ''src/main/java/com/perforce/p4java/server''"

definition OUTFILE :: string where
  "OUTFILE = ''IServerMessageCode.java''"

definition REL_INFILE :: string where
  "REL_INFILE = ''msgs/msgdm.cc''"

record fs =
  is_dir :: "string \<Rightarrow> bool"
  files :: "string \<Rightarrow> string option"

datatype py_exc = IndexError | ParseError scan_error | ValueError string

datatype outcome = Exit nat | Raised py_exc

text \<open>Lines 227--231: the paths \<open>main\<close> computes from its two arguments.\<close>

definition java_outdir :: "string \<Rightarrow> string" where
  "java_outdir arg0 = py_join (py_dirname arg0) REL_OUTDIR"

definition java_file :: "string \<Rightarrow> string" where
  "java_file arg0 = py_join (java_outdir arg0) OUTFILE"

definition msg_file :: "string \<Rightarrow> string" where
  "msg_file arg1 = py_join arg1 REL_INFILE"

text \<open>Lines 243--246: the text of the generated file, or the exception with what was written.\<close>

definition write_java :: "string \<Rightarrow> msg list \<Rightarrow> py_exc option \<times> string" where
  "write_java arg0 ms =
     (case output_msg_lines ms of
        Inl s \<Rightarrow> (Some (ValueError s), header arg0)
      | Inr body \<Rightarrow> (None, header arg0 @ body @ footer))"

definition main :: "string list \<Rightarrow> fs \<Rightarrow> string list \<times> outcome \<times> fs" where
  "main args fs0 =
     (if length args \<le> 1 then
        (case args of
           [] \<Rightarrow> ([], Raised IndexError, fs0)
         | arg0 # _ \<Rightarrow>
             ([''Usage: python3 '' @ arg0 @ '' (Perforce c client source directory)''], Exit 1, fs0))
      else
        (let arg0 = args ! 0; arg1 = args ! 1 in
         if \<not> is_dir fs0 (java_outdir arg0) then
           ([''This program is expected to live in the `p4java` directory.''], Exit 1, fs0)
         else
           (case files fs0 (msg_file arg1) of
              None \<Rightarrow>
                ([arg1 @ '' does not seem to point to the Perforce c client source directory; missing file '' @
                  msg_file arg1], Exit 2, fs0)
            | Some content \<Rightarrow>
                (case parse_msgdm content of
                   Inl e \<Rightarrow> ([], Raised (ParseError e), fs0)
                 | Inr ms \<Rightarrow>
                     (let (exc, text) = write_java arg0 ms;
                          fs1 = fs0\<lparr>files := (files fs0)(java_file arg0 \<mapsto> text)\<rparr>
                      in case exc of
                           None \<Rightarrow> ([], Exit 0, fs1)
                         | Some x \<Rightarrow> ([], Raised x, fs1))))))"

text \<open>\<open>sys.exit(main(sys.argv))\<close>: the exit status, 1 for an uncaught exception.\<close>

fun exit_status :: "outcome \<Rightarrow> nat" where
  "exit_status (Exit n) = n"
| "exit_status (Raised e) = 1"

section \<open>The contract of a successful run\<close>

text \<open>
  What a successful run promises (sections 4.2, 4.3 and 6 of the specification):
  both arguments given, the output directory present, the input file present and
  parsed, every message code an integer, and the output file replaced by the header,
  the records rendered in the order of a stable sort by message code, and the footer.
  Nothing else of the file system changes.
\<close>

definition generation_spec :: "string list \<Rightarrow> fs \<Rightarrow> fs \<Rightarrow> bool" where
  "generation_spec args fs fs' \<longleftrightarrow>
     (\<exists>arg0 arg1 rest c ms ys. args = arg0 # arg1 # rest \<and> is_dir fs (java_outdir arg0) \<and>
        files fs (msg_file arg1) = Some c \<and> parse_msgdm c = Inr ms \<and>
        (\<forall>m \<in> set ms. msg_key m \<noteq> None) \<and> stable_sort_spec (\<lambda>m. the (msg_key m)) ms ys \<and>
        fs' = fs\<lparr>files := (files fs)(java_file arg0 \<mapsto> header arg0 @ concat (map output_line ys) @ footer)\<rparr>)"

text \<open>
  A checkout in which the script is run from the \<open>p4java\<close> directory as
  \<open>python3 gen.py c\<close>: the output directory exists and \<open>c/msgs/msgdm.cc\<close>
  holds the given text.
\<close>

abbreviation sample_args :: "string list" where
  "sample_args \<equiv> [''gen.py'', ''c'']"

abbreviation sample_fs :: "string \<Rightarrow> fs" where
  "sample_fs content \<equiv> \<lparr>is_dir = (\<lambda>p. p = REL_OUTDIR), files = [''c/msgs/msgdm.cc'' \<mapsto> content]\<rparr>"

section \<open>Lemmas on a run\<close>

lemma write_java_exc: "write_java a ms = (Some x, t) \<Longrightarrow> (\<exists>s. x = ValueError s) \<and> t = header a"
  by (auto simp: write_java_def split: sum.splits)

lemma write_java_None: "fst (write_java a ms) = None \<longleftrightarrow> (\<forall>m \<in> set ms. msg_key m \<noteq> None)"
proof (cases "output_msg_lines ms")
  case (Inl s)
  have "\<not> (\<forall>m \<in> set ms. msg_key m \<noteq> None)"
  proof
    assume "\<forall>m \<in> set ms. msg_key m \<noteq> None"
    with Inl show False by (simp add: output_msg_lines_all)
  qed
  with Inl show ?thesis by (simp add: write_java_def)
next
  case (Inr body)
  then show ?thesis by (simp add: write_java_def output_msg_lines_Inr)
qed

lemma write_java_ok:
  "\<forall>m \<in> set ms. msg_key m \<noteq> None \<Longrightarrow>
   write_java a ms = (None, header a @ concat (map output_line (sort_key (\<lambda>m. the (msg_key m)) ms)) @ footer)"
  by (simp add: write_java_def output_msg_lines_all)

text \<open>The branch that opens the output file.\<close>

lemma main_write_branch:
  "is_dir fs (java_outdir a0) \<Longrightarrow> files fs (msg_file a1) = Some c \<Longrightarrow> parse_msgdm c = Inr ms \<Longrightarrow>
   main (a0 # a1 # rest) fs =
     ([], case fst (write_java a0 ms) of None \<Rightarrow> Exit 0 | Some x \<Rightarrow> Raised x,
      fs\<lparr>files := (files fs)(java_file a0 \<mapsto> snd (write_java a0 ms))\<rparr>)"
  by (simp add: main_def split: prod.split option.split)

text \<open>Every run either leaves the file system alone and fails before the output file is
  opened, or takes the branch that opens it.\<close>

lemma main_cases:
  assumes run: "main args fs = (out, r, fs')"
  shows "(fs' = fs \<and> r \<noteq> Exit 0 \<and> (\<forall>s. r \<noteq> Raised (ValueError s))) \<or>
    (\<exists>a0 a1 rest c ms. args = a0 # a1 # rest \<and> is_dir fs (java_outdir a0) \<and>
       files fs (msg_file a1) = Some c \<and> parse_msgdm c = Inr ms \<and> out = [] \<and>
       r = (case fst (write_java a0 ms) of None \<Rightarrow> Exit 0 | Some x \<Rightarrow> Raised x) \<and>
       fs' = fs\<lparr>files := (files fs)(java_file a0 \<mapsto> snd (write_java a0 ms))\<rparr>)"
proof (cases args rule: remdups_adj.cases)
  case 1
  with run show ?thesis by (auto simp: main_def)
next
  case (2 a0)
  with run show ?thesis by (auto simp: main_def)
next
  case (3 a0 a1 rest)
  show ?thesis
  proof (cases "is_dir fs (java_outdir a0)")
    case False
    with run 3 show ?thesis by (auto simp: main_def)
  next
    case dir: True
    show ?thesis
    proof (cases "files fs (msg_file a1)")
      case None
      with run 3 dir show ?thesis by (auto simp: main_def)
    next
      case (Some c)
      show ?thesis
      proof (cases "parse_msgdm c")
        case (Inl e)
        with run 3 dir Some show ?thesis by (auto simp: main_def)
      next
        case (Inr ms)
        with run 3 main_write_branch [OF dir Some Inr, of rest] dir Some show ?thesis by auto
      qed
    qed
  qed
qed

lemmas run_eval = main_def java_outdir_def java_file_def msg_file_def py_join_def py_dirname_def
  REL_INFILE_def REL_OUTDIR_def OUTFILE_def Let_def startswith_def write_java_def output_msg_lines_def
  sort_msg_lines_def scan_eval int_eval

lemma exit_status_0: "exit_status r = 0 \<longleftrightarrow> r = Exit 0"
  by (cases r) auto

section \<open>Properties of a run\<close>

text \<open>
  Claim C1. A run ends with exit status 0 exactly when it meets the
  contract of a successful run: the output file holds the header, the records in the
  order of the stable sort by message code and the footer, and nothing else changed.
\<close>

theorem main_refines_generation_spec:
  "exit_status (fst (snd (main args fs))) = 0 \<longleftrightarrow> generation_spec args fs (snd (snd (main args fs)))"
proof -
  obtain out r fs' where run: "main args fs = (out, r, fs')" by (cases "main args fs") auto
  have "r = Exit 0 \<longleftrightarrow> generation_spec args fs fs'"
  proof
    assume ok: "r = Exit 0"
    from main_cases [OF run] ok obtain a0 a1 rest c ms where
      args: "args = a0 # a1 # rest" and dir: "is_dir fs (java_outdir a0)"
      and c: "files fs (msg_file a1) = Some c" and ms: "parse_msgdm c = Inr ms"
      and r: "r = (case fst (write_java a0 ms) of None \<Rightarrow> Exit 0 | Some x \<Rightarrow> Raised x)"
      and fs': "fs' = fs\<lparr>files := (files fs)(java_file a0 \<mapsto> snd (write_java a0 ms))\<rparr>"
      by blast
    from r ok have "fst (write_java a0 ms) = None" by (cases "fst (write_java a0 ms)") auto
    then have keys: "\<forall>m \<in> set ms. msg_key m \<noteq> None" by (simp add: write_java_None)
    show "generation_spec args fs fs'"
      unfolding generation_spec_def
      using args dir c ms keys fs' write_java_ok [OF keys, of a0]
        sort_key_stable_sort_spec [of "\<lambda>m. the (msg_key m)" ms]
      by fastforce
  next
    assume "generation_spec args fs fs'"
    then obtain a0 a1 rest c ms where args: "args = a0 # a1 # rest"
      and dir: "is_dir fs (java_outdir a0)" and c: "files fs (msg_file a1) = Some c"
      and ms: "parse_msgdm c = Inr ms" and keys: "\<forall>m \<in> set ms. msg_key m \<noteq> None"
      unfolding generation_spec_def by blast
    with run main_write_branch [OF dir c ms, of rest] show "r = Exit 0"
      by (simp add: write_java_ok)
  qed
  with run show ?thesis by (simp add: exit_status_0)
qed

theorem main_refines_generation_spec_witness:
  "exit_status (fst (snd (main sample_args (sample_fs (''ErrorId MsgDm::BadCharSet = { ErrorOf(ES_DM,1,E_FAILED,EV_USAGE,0), '' @ [CHR 0x22] @ ''Invalid character set.'' @ [CHR 0x22] @ '' };'' @ [CHR 0x0A]))))) = 0 \<and>
   generation_spec sample_args (sample_fs (''ErrorId MsgDm::BadCharSet = { ErrorOf(ES_DM,1,E_FAILED,EV_USAGE,0), '' @ [CHR 0x22] @ ''Invalid character set.'' @ [CHR 0x22] @ '' };'' @ [CHR 0x0A])) (snd (snd (main sample_args (sample_fs (''ErrorId MsgDm::BadCharSet = { ErrorOf(ES_DM,1,E_FAILED,EV_USAGE,0), '' @ [CHR 0x22] @ ''Invalid character set.'' @ [CHR 0x22] @ '' };'' @ [CHR 0x0A])))))"
proof -
  have ok: "exit_status (fst (snd (main sample_args (sample_fs (''ErrorId MsgDm::BadCharSet = { ErrorOf(ES_DM,1,E_FAILED,EV_USAGE,0), '' @ [CHR 0x22] @ ''Invalid character set.'' @ [CHR 0x22] @ '' };'' @ [CHR 0x0A]))))) = 0" by (simp add: run_eval)
  with main_refines_generation_spec [of sample_args "sample_fs (''ErrorId MsgDm::BadCharSet = { ErrorOf(ES_DM,1,E_FAILED,EV_USAGE,0), '' @ [CHR 0x22] @ ''Invalid character set.'' @ [CHR 0x22] @ '' };'' @ [CHR 0x0A])"] show ?thesis by blast
qed

text \<open>
  Claim C12. A run never changes which paths are directories, and it
  writes no file other than the generated Java file.
\<close>

theorem main_frame:
  "is_dir (snd (snd (main args fs))) = is_dir fs \<and>
   (\<forall>p. p \<noteq> java_file (hd args) \<longrightarrow> files (snd (snd (main args fs))) p = files fs p)"
proof -
  obtain out r fs' where run: "main args fs = (out, r, fs')" by (cases "main args fs") auto
  from main_cases [OF run] have "is_dir fs' = is_dir fs \<and> (\<forall>p. p \<noteq> java_file (hd args) \<longrightarrow> files fs' p = files fs p)"
    by auto
  with run show ?thesis by simp
qed

theorem main_frame_witness:
  "''c/msgs/msgdm.cc'' \<noteq> java_file (hd sample_args) \<and>
   files (snd (snd (main sample_args (sample_fs (''ErrorId MsgDm::BadCharSet = { ErrorOf(ES_DM,1,E_FAILED,EV_USAGE,0), '' @ [CHR 0x22] @ ''Invalid character set.'' @ [CHR 0x22] @ '' };'' @ [CHR 0x0A]))))) ''c/msgs/msgdm.cc'' = Some (''ErrorId MsgDm::BadCharSet = { ErrorOf(ES_DM,1,E_FAILED,EV_USAGE,0), '' @ [CHR 0x22] @ ''Invalid character set.'' @ [CHR 0x22] @ '' };'' @ [CHR 0x0A])"
proof -
  have ne: "''c/msgs/msgdm.cc'' \<noteq> java_file (hd sample_args)" by (simp add: run_eval)
  with main_frame [of sample_args "sample_fs (''ErrorId MsgDm::BadCharSet = { ErrorOf(ES_DM,1,E_FAILED,EV_USAGE,0), '' @ [CHR 0x22] @ ''Invalid character set.'' @ [CHR 0x22] @ '' };'' @ [CHR 0x0A])"] show ?thesis by simp
qed

text \<open>
  Claim C11. Every failure other than a non-integer message code (a
  usage error, a missing output directory, a missing input file, a parse error, an
  empty argument list) leaves the file system exactly as it was: the output file is
  opened only after parsing has succeeded.
\<close>

theorem main_no_output_on_failure:
  "fst (snd (main args fs)) \<noteq> Exit 0 \<Longrightarrow> \<forall>s. fst (snd (main args fs)) \<noteq> Raised (ValueError s) \<Longrightarrow>
   snd (snd (main args fs)) = fs"
proof -
  assume fail: "fst (snd (main args fs)) \<noteq> Exit 0" and nv: "\<forall>s. fst (snd (main args fs)) \<noteq> Raised (ValueError s)"
  obtain out r fs' where run: "main args fs = (out, r, fs')" by (cases "main args fs") auto
  from main_cases [OF run] show ?thesis
  proof
    assume "fs' = fs \<and> r \<noteq> Exit 0 \<and> (\<forall>s. r \<noteq> Raised (ValueError s))"
    with run show ?thesis by simp
  next
    assume "\<exists>a0 a1 rest c ms. args = a0 # a1 # rest \<and> is_dir fs (java_outdir a0) \<and>
       files fs (msg_file a1) = Some c \<and> parse_msgdm c = Inr ms \<and> out = [] \<and>
       r = (case fst (write_java a0 ms) of None \<Rightarrow> Exit 0 | Some x \<Rightarrow> Raised x) \<and>
       fs' = fs\<lparr>files := (files fs)(java_file a0 \<mapsto> snd (write_java a0 ms))\<rparr>"
    then obtain a0 ms where r: "r = (case fst (write_java a0 ms) of None \<Rightarrow> Exit 0 | Some x \<Rightarrow> Raised x)"
      by blast
    have False
    proof (cases "write_java a0 ms")
      case (Pair e t)
      with r fail nv run write_java_exc [of a0 ms _ t] show False by (cases e) auto
    qed
    then show ?thesis ..
  qed
qed

theorem main_no_output_on_failure_witness:
  "fst (snd (main sample_args (sample_fs (''/* x'' @ [CHR 0x0A] @ ''*/ y'' @ [CHR 0x0A])))) = Raised (ParseError (ExtraAfterClose ''y'' 2)) \<and>
   snd (snd (main sample_args (sample_fs (''/* x'' @ [CHR 0x0A] @ ''*/ y'' @ [CHR 0x0A])))) = sample_fs (''/* x'' @ [CHR 0x0A] @ ''*/ y'' @ [CHR 0x0A])"
proof -
  have r: "fst (snd (main sample_args (sample_fs (''/* x'' @ [CHR 0x0A] @ ''*/ y'' @ [CHR 0x0A])))) = Raised (ParseError (ExtraAfterClose ''y'' 2))"
    by (simp add: run_eval)
  with main_no_output_on_failure [of sample_args "sample_fs (''/* x'' @ [CHR 0x0A] @ ''*/ y'' @ [CHR 0x0A])"] show ?thesis by simp
qed

text \<open>
  Claim C16. When a message code is not an integer, the sort raises
  \<open>ValueError\<close> after the output file has been opened and the header written:
  the previous generated file is replaced by the header alone, which opens the
  interface and never closes it.
\<close>

theorem main_value_error_truncates:
  "fst (snd (main args fs)) = Raised (ValueError s) \<Longrightarrow>
   files (snd (snd (main args fs))) (java_file (hd args)) = Some (header (hd args))"
proof -
  assume ve: "fst (snd (main args fs)) = Raised (ValueError s)"
  obtain out r fs' where run: "main args fs = (out, r, fs')" by (cases "main args fs") auto
  from main_cases [OF run] ve run obtain a0 a1 rest ms where args: "args = a0 # a1 # rest"
    and r: "r = (case fst (write_java a0 ms) of None \<Rightarrow> Exit 0 | Some x \<Rightarrow> Raised x)"
    and fs': "fs' = fs\<lparr>files := (files fs)(java_file a0 \<mapsto> snd (write_java a0 ms))\<rparr>"
    by auto
  obtain e t where wj: "write_java a0 ms = (e, t)" by (cases "write_java a0 ms")
  with r ve run obtain x where "e = Some x" by (cases e) auto
  with wj have "t = header a0" using write_java_exc by blast
  with args fs' wj run show ?thesis by simp
qed

theorem main_value_error_truncates_witness:
  "fst (snd (main sample_args (sample_fs (''ErrorId MsgDm::X = { ErrorOf(ES_DM,E_X,E_FAILED,EV_USAGE,0), '' @ [CHR 0x22] @ ''x'' @ [CHR 0x22] @ '' };'' @ [CHR 0x0A])))) = Raised (ValueError ''E_X'') \<and>
   files (snd (snd (main sample_args (sample_fs (''ErrorId MsgDm::X = { ErrorOf(ES_DM,E_X,E_FAILED,EV_USAGE,0), '' @ [CHR 0x22] @ ''x'' @ [CHR 0x22] @ '' };'' @ [CHR 0x0A]))))) (java_file ''gen.py'') = Some (header ''gen.py'')"
proof -
  have r: "fst (snd (main sample_args (sample_fs (''ErrorId MsgDm::X = { ErrorOf(ES_DM,E_X,E_FAILED,EV_USAGE,0), '' @ [CHR 0x22] @ ''x'' @ [CHR 0x22] @ '' };'' @ [CHR 0x0A])))) = Raised (ValueError ''E_X'')" by (simp add: run_eval)
  with main_value_error_truncates [of sample_args "sample_fs (''ErrorId MsgDm::X = { ErrorOf(ES_DM,E_X,E_FAILED,EV_USAGE,0), '' @ [CHR 0x22] @ ''x'' @ [CHR 0x22] @ '' };'' @ [CHR 0x0A])"] show ?thesis by simp
qed

text \<open>
  Claim C13. Running the script a second time on the file system the
  first run left gives the same printed lines, the same outcome and the same file
  system, provided the generated file is not the input file: the output is a
  function of the input alone and is fully overwritten.
\<close>

theorem main_rerun:
  "java_file (hd args) \<noteq> msg_file (hd (tl args)) \<Longrightarrow>
   main args (snd (snd (main args fs))) = main args fs"
proof -
  assume ne: "java_file (hd args) \<noteq> msg_file (hd (tl args))"
  obtain out r fs' where run: "main args fs = (out, r, fs')" by (cases "main args fs") auto
  from main_cases [OF run] show ?thesis
  proof
    assume "fs' = fs \<and> r \<noteq> Exit 0 \<and> (\<forall>s. r \<noteq> Raised (ValueError s))"
    with run show ?thesis by simp
  next
    assume "\<exists>a0 a1 rest c ms. args = a0 # a1 # rest \<and> is_dir fs (java_outdir a0) \<and>
       files fs (msg_file a1) = Some c \<and> parse_msgdm c = Inr ms \<and> out = [] \<and>
       r = (case fst (write_java a0 ms) of None \<Rightarrow> Exit 0 | Some x \<Rightarrow> Raised x) \<and>
       fs' = fs\<lparr>files := (files fs)(java_file a0 \<mapsto> snd (write_java a0 ms))\<rparr>"
    then obtain a0 a1 rest c ms where args: "args = a0 # a1 # rest"
      and dir: "is_dir fs (java_outdir a0)" and c: "files fs (msg_file a1) = Some c"
      and ms: "parse_msgdm c = Inr ms" and out: "out = []"
      and r: "r = (case fst (write_java a0 ms) of None \<Rightarrow> Exit 0 | Some x \<Rightarrow> Raised x)"
      and fs': "fs' = fs\<lparr>files := (files fs)(java_file a0 \<mapsto> snd (write_java a0 ms))\<rparr>"
      by blast
    have dir': "is_dir fs' (java_outdir a0)" using dir fs' by simp
    have c': "files fs' (msg_file a1) = Some c" using c fs' ne args by simp
    have "main args fs' = ([], r, fs')"
      using main_write_branch [OF dir' c' ms, of rest] args r fs' by simp
    with run out show ?thesis by simp
  qed
qed

theorem main_rerun_witness:
  "java_file (hd sample_args) \<noteq> msg_file (hd (tl sample_args)) \<and>
   main sample_args (snd (snd (main sample_args (sample_fs (''ErrorId MsgDm::BadCharSet = { ErrorOf(ES_DM,1,E_FAILED,EV_USAGE,0), '' @ [CHR 0x22] @ ''Invalid character set.'' @ [CHR 0x22] @ '' };'' @ [CHR 0x0A]))))) = main sample_args (sample_fs (''ErrorId MsgDm::BadCharSet = { ErrorOf(ES_DM,1,E_FAILED,EV_USAGE,0), '' @ [CHR 0x22] @ ''Invalid character set.'' @ [CHR 0x22] @ '' };'' @ [CHR 0x0A]))"
proof -
  have ne: "java_file (hd sample_args) \<noteq> msg_file (hd (tl sample_args))" by (simp add: run_eval)
  with main_rerun [OF ne, of "sample_fs (''ErrorId MsgDm::BadCharSet = { ErrorOf(ES_DM,1,E_FAILED,EV_USAGE,0), '' @ [CHR 0x22] @ ''Invalid character set.'' @ [CHR 0x22] @ '' };'' @ [CHR 0x0A])"] show ?thesis by simp
qed

text \<open>
  Claim C19. An input file without records gives a successful run whose
  output file holds only the header and the footer.
\<close>

theorem main_empty_input:
  "is_dir fs (java_outdir arg0) \<Longrightarrow> files fs (msg_file arg1) = Some c \<Longrightarrow> parse_msgdm c = Inr [] \<Longrightarrow>
   main (arg0 # arg1 # rest) fs =
     ([], Exit 0, fs\<lparr>files := (files fs)(java_file arg0 \<mapsto> header arg0 @ footer)\<rparr>)"
  by (simp add: main_write_branch write_java_def)

theorem main_empty_input_witness:
  "is_dir (sample_fs (''// no records'' @ [CHR 0x0A])) (java_outdir ''gen.py'') \<and>
   files (sample_fs (''// no records'' @ [CHR 0x0A])) (msg_file ''c'') = Some (''// no records'' @ [CHR 0x0A]) \<and> parse_msgdm (''// no records'' @ [CHR 0x0A]) = Inr [] \<and>
   main sample_args (sample_fs (''// no records'' @ [CHR 0x0A])) = ([], Exit 0, (sample_fs (''// no records'' @ [CHR 0x0A]))\<lparr>files := (files (sample_fs (''// no records'' @ [CHR 0x0A])))(java_file ''gen.py'' \<mapsto> header ''gen.py'' @ footer)\<rparr>)"
proof -
  have h1: "is_dir (sample_fs (''// no records'' @ [CHR 0x0A])) (java_outdir ''gen.py'')" by (simp add: run_eval)
  have h2: "files (sample_fs (''// no records'' @ [CHR 0x0A])) (msg_file ''c'') = Some (''// no records'' @ [CHR 0x0A])" by (simp add: run_eval)
  have h3: "parse_msgdm (''// no records'' @ [CHR 0x0A]) = Inr []" by (simp add: scan_eval)
  show ?thesis using h1 h2 h3 main_empty_input [OF h1 h2 h3, of "[]"] by simp
qed

text \<open>
  Claim C14. The exit status of the process is 0, 1 or 2; it is 1 when an
  argument is missing or the output directory does not exist, and it is 2 exactly
  when the arguments are given, the output directory exists and the input file is
  missing.
\<close>

theorem main_exit_codes:
  "exit_status (fst (snd (main args fs))) \<in> {0, 1, 2} \<and>
   (length args \<le> 1 \<longrightarrow> exit_status (fst (snd (main args fs))) = 1) \<and>
   (2 \<le> length args \<longrightarrow> \<not> is_dir fs (java_outdir (args ! 0)) \<longrightarrow> exit_status (fst (snd (main args fs))) = 1) \<and>
   (exit_status (fst (snd (main args fs))) = 2 \<longleftrightarrow>
      2 \<le> length args \<and> is_dir fs (java_outdir (args ! 0)) \<and> files fs (msg_file (args ! 1)) = None)"
proof (cases args rule: remdups_adj.cases)
  case (3 a0 a1 rest)
  then show ?thesis
    by (auto simp: main_def write_java_def split: option.splits sum.splits)
qed (auto simp: main_def)

theorem main_exit_codes_witness:
  "exit_status (fst (snd (main [''gen.py''] (sample_fs (''// no records'' @ [CHR 0x0A]))))) = 1 \<and>
   exit_status (fst (snd (main sample_args ((sample_fs (''// no records'' @ [CHR 0x0A]))\<lparr>files := Map.empty\<rparr>)))) = 2"
proof -
  have "2 \<le> length sample_args \<and> is_dir (sample_fs (''// no records'' @ [CHR 0x0A])\<lparr>files := Map.empty\<rparr>) (java_outdir (sample_args ! 0)) \<and>
        files (sample_fs (''// no records'' @ [CHR 0x0A])\<lparr>files := Map.empty\<rparr>) (msg_file (sample_args ! 1)) = None"
    by (simp add: run_eval)
  then show ?thesis
    using main_exit_codes [of "[''gen.py'']" "sample_fs (''// no records'' @ [CHR 0x0A])"]
      main_exit_codes [of sample_args "sample_fs (''// no records'' @ [CHR 0x0A])\<lparr>files := Map.empty\<rparr>"]
    by simp
qed

end
