(* ===== verification/Regex.thy ===== *)
theory Regex
  imports MsgPattern
begin

text \<open>
  A reference semantics for \<open>MSG_PATTERN\<close>: Python's \<open>re\<close> engine is a
  backtracking matcher, and \<open>re_bt\<close> is that matcher for the constructs the pattern
  uses.  These are literal characters, a character class repeated greedily (\<open>*\<close>,
  \<open>+\<close>) or lazily (\<open>*?\<close>), and the opening and closing of a capturing group.  The
  pattern is a list of items, matched in continuation-passing style: a greedy
  repetition first tries to take one more character and falls back to the rest of
  the pattern; a lazy one first tries the rest.  The first success in this order is
  the match \<open>re.match\<close> returns.  Group \<open>i\<close> records the text between its opening
  and its closing.  \<open>MSG_RE\<close> transcribes lines 17--20 item by item, and the lemmas
  prove that the deterministic parser \<open>msg_match\<close> computes exactly this match.
\<close>

datatype re_item =
    Lit char
  | StarC "char \<Rightarrow> bool"
  | PlusC "char \<Rightarrow> bool"
  | LazyC "char \<Rightarrow> bool"
  | Open nat
  | Close nat

text \<open>Where each group opened, and the text each group captured.\<close>

type_synonym re_state = "(nat \<Rightarrow> string) \<times> (nat \<Rightarrow> string)"

fun re_bt :: "re_item list \<Rightarrow> string \<Rightarrow> re_state \<Rightarrow> (re_state \<times> string) option" where
  "re_bt [] s st = Some (st, s)"
| "re_bt (Lit c # k) [] st = None"
| "re_bt (Lit c # k) (x # s) st = (if x = c then re_bt k s st else None)"
| "re_bt (StarC P # k) [] st = re_bt k [] st"
| "re_bt (StarC P # k) (x # s) st =
     (if P x then (case re_bt (StarC P # k) s st of Some r \<Rightarrow> Some r | None \<Rightarrow> re_bt k (x # s) st)
      else re_bt k (x # s) st)"
| "re_bt (PlusC P # k) [] st = None"
| "re_bt (PlusC P # k) (x # s) st = (if P x then re_bt (StarC P # k) s st else None)"
| "re_bt (LazyC P # k) [] st = re_bt k [] st"
| "re_bt (LazyC P # k) (x # s) st =
     (case re_bt k (x # s) st of
        Some r \<Rightarrow> Some r
      | None \<Rightarrow> if P x then re_bt (LazyC P # k) s st else None)"
| "re_bt (Open i # k) s st = re_bt k s ((fst st)(i := s), snd st)"
| "re_bt (Close i # k) s st =
     re_bt k s (fst st, (snd st)(i := take (length (fst st i) - length s) (fst st i)))"

section \<open>The pattern\<close>

definition re_ws :: "re_item list" where
  "re_ws = [StarC py_isspace]"

definition re_ws1 :: "re_item list" where
  "re_ws1 = [PlusC py_isspace]"

definition re_lit :: "string \<Rightarrow> re_item list" where
  "re_lit p = map Lit p"

text \<open>\<open>(\w+)\<close>, \<open>([^,]+),\<close>, \<open>([^,]+)\),\<close> and \<open>(.*?)\<close> as group \<open>i\<close>.\<close>

definition re_word :: "nat \<Rightarrow> re_item list" where
  "re_word i = [Open i, PlusC is_word, Close i]"

definition re_field :: "nat \<Rightarrow> re_item list" where
  "re_field i = [Open i, PlusC (\<lambda>c. c \<noteq> CHR '',''), Close i, Lit CHR '','']"

definition re_last_field :: "nat \<Rightarrow> re_item list" where
  "re_last_field i = [Open i, PlusC (\<lambda>c. c \<noteq> CHR '',''), Close i, Lit CHR '')'', Lit CHR '','']"

definition re_text :: "nat \<Rightarrow> re_item list" where
  "re_text i = [Open i, LazyC (\<lambda>c. c \<noteq> CHR 0x0A), Close i]"

text \<open>\<open>\"\s*}\s*;\<close>\<close>

definition re_close :: "re_item list" where
  "re_close = re_lit [CHR 0x22] @ re_ws @ re_lit ''}'' @ re_ws @ re_lit '';''"

definition MSG_RE :: "re_item list" where
  "MSG_RE =
     re_ws @ re_lit ''ErrorId'' @ re_ws1 @ re_lit ''MsgDm::'' @ re_word 1 @
     re_ws @ re_lit ''='' @ re_ws @ re_lit ''{'' @ re_ws @ re_lit ''ErrorOf('' @
     re_field 2 @ re_field 3 @ re_field 4 @ re_field 5 @ re_last_field 6 @
     re_ws @ re_lit [CHR 0x22] @ re_text 7 @ re_close"

text \<open>\<open>MSG_PATTERN.match(buff)\<close> with its seven groups and \<open>buff[m.end():]\<close>.\<close>

definition re_msg_match :: "string \<Rightarrow> (msg \<times> string) option" where
  "re_msg_match s =
     map_option (\<lambda>(st, r). (\<lparr>m_name = snd st 1, m_sub_code = snd st 2, m_msg_code = snd st 3,
          m_severity_code = snd st 4, m_generic_code = snd st 5, m_arg_count = snd st 6,
          m_text = snd st 7\<rparr>, r))
       (re_bt MSG_RE s (\<lambda>_. [], \<lambda>_. []))"

text \<open>Which characters the rest of a pattern can start with.\<close>

fun first_ok :: "re_item list \<Rightarrow> char \<Rightarrow> bool" where
  "first_ok [] x = True"
| "first_ok (Lit c # k) x = (x = c)"
| "first_ok (StarC P # k) x = (P x \<or> first_ok k x)"
| "first_ok (PlusC P # k) x = P x"
| "first_ok (LazyC P # k) x = (P x \<or> first_ok k x)"
| "first_ok (Open i # k) x = first_ok k x"
| "first_ok (Close i # k) x = first_ok k x"

text \<open>The state after group \<open>i\<close>, opened on \<open>s0\<close>, has captured \<open>w\<close>.\<close>

definition re_cap :: "nat \<Rightarrow> string \<Rightarrow> string \<Rightarrow> re_state \<Rightarrow> re_state" where
  "re_cap i s0 w st = ((fst st)(i := s0), (snd st)(i := w))"

section \<open>Lemmas on the matcher\<close>

lemma first_ok_sound: "re_bt k s st = Some r \<Longrightarrow> s = x # s' \<Longrightarrow> first_ok k x"
  by (induction k s st arbitrary: s' rule: re_bt.induct) (auto split: if_splits option.splits)

lemma re_bt_star:
  "\<forall>x. P x \<longrightarrow> \<not> first_ok k x \<Longrightarrow> re_bt (StarC P # k) s st = re_bt k (dropWhile P s) st"
proof (induction s)
  case Nil
  then show ?case by simp
next
  case (Cons x s)
  show ?case
  proof (cases "P x")
    case True
    with Cons.prems have "re_bt k (x # s) st = None"
      using first_ok_sound [of k "x # s" st _ x s] by (cases "re_bt k (x # s) st") auto
    with True Cons show ?thesis by (simp split: option.split)
  next
    case False
    then show ?thesis by simp
  qed
qed

lemma first_ok_append_ws [simp]: "first_ok (re_ws @ k) x = (py_isspace x \<or> first_ok k x)"
  by (simp add: re_ws_def)

lemma first_ok_append_lit [simp]: "first_ok (re_lit (c # p) @ k) x = (x = c)"
  by (simp add: re_lit_def)

lemma first_ok_lit [simp]: "first_ok (re_lit (c # p)) x = (x = c)"
  by (simp add: re_lit_def)

lemma first_ok_append_field [simp]: "first_ok (re_field i @ k) x = (x \<noteq> CHR '','')"
  by (simp add: re_field_def)

lemma first_ok_append_last_field [simp]: "first_ok (re_last_field i @ k) x = (x \<noteq> CHR '','')"
  by (simp add: re_last_field_def)

section \<open>One lemma per piece of the pattern\<close>

lemma re_bt_ws:
  "\<forall>x. py_isspace x \<longrightarrow> \<not> first_ok k x \<Longrightarrow> re_bt (re_ws @ k) s st = re_bt k (skip_ws s) st"
  by (simp add: re_ws_def skip_ws_def re_bt_star)

lemma re_bt_lit: "re_bt (re_lit p @ k) s st = lit p s \<bind> (\<lambda>s'. re_bt k s' st)"
proof (induction p arbitrary: s)
  case Nil
  then show ?case by (simp add: re_lit_def lit_def)
next
  case (Cons c p)
  show ?case
  proof (cases s)
    case Nil
    then show ?thesis by (simp add: re_lit_def lit_def)
  next
    case (Cons x s')
    with Cons.IH [of s'] show ?thesis by (simp add: re_lit_def lit_def)
  qed
qed

lemma re_bt_ws1:
  "\<forall>x. py_isspace x \<longrightarrow> \<not> first_ok k x \<Longrightarrow> re_bt (re_ws1 @ k) s st = ws1 s \<bind> (\<lambda>s'. re_bt k s' st)"
  by (cases s) (simp_all add: re_ws1_def ws1_def skip_ws_def re_bt_star)

text \<open>A group around a greedy \<open>+\<close> that the rest of the pattern cannot extend.\<close>

lemma re_bt_group_plus:
  assumes "\<forall>x. P x \<longrightarrow> \<not> first_ok k x"
  shows "re_bt (Open i # PlusC P # Close i # k) s st =
    (let w = takeWhile P s in if w = [] then None else re_bt k (drop (length w) s) (re_cap i s w st))"
proof (cases s)
  case Nil
  then show ?thesis by simp
next
  case (Cons x s')
  have k: "\<forall>x. P x \<longrightarrow> \<not> first_ok (Close i # k) x" using assms by simp
  show ?thesis
  proof (cases "P x")
    case True
    have "length (takeWhile P s') + length (dropWhile P s') = length s'"
      by (metis length_append takeWhile_dropWhile_id)
    then have len: "length (x # s') - length (dropWhile P s') = length (takeWhile P (x # s'))"
      using True by simp
    have "take (length (takeWhile P (x # s'))) (x # s') = takeWhile P (x # s')"
      by (metis takeWhile_eq_take)
    with True Cons k len show ?thesis
      by (simp add: re_bt_star re_cap_def dropWhile_eq_drop)
  next
    case False
    with Cons show ?thesis by simp
  qed
qed

lemma re_bt_word:
  assumes "\<forall>x. is_word x \<longrightarrow> \<not> first_ok k x"
  shows "re_bt (re_word i @ k) s st = word_group s \<bind> (\<lambda>(w, s'). re_bt k s' (re_cap i s w st))"
  by (simp only: re_word_def append_Cons append_Nil re_bt_group_plus [OF assms])
    (simp add: word_group_def Let_def)

lemma re_bt_field:
  "re_bt (re_field i @ k) s st = field_group s \<bind> (\<lambda>(f, s'). re_bt k s' (re_cap i s f st))"
proof -
  have "re_bt (re_field i @ k) s st = re_bt (Open i # PlusC (\<lambda>c. c \<noteq> CHR '','') # Close i # Lit CHR '','' # k) s st"
    by (simp add: re_field_def)
  also have "\<dots> = (let f = takeWhile (\<lambda>c. c \<noteq> CHR '','') s in if f = [] then None
      else re_bt (Lit CHR '','' # k) (drop (length f) s) (re_cap i s f st))"
    by (rule re_bt_group_plus) simp
  also have "\<dots> = field_group s \<bind> (\<lambda>(f, s'). re_bt k s' (re_cap i s f st))"
    by (cases "drop (length (takeWhile (\<lambda>c. c \<noteq> CHR '','') s)) s")
      (auto simp: field_group_def Let_def)
  finally show ?thesis .
qed

text \<open>
  \<open>([^,]+)\)\<close>: the greedy run of non-commas takes the \<open>)\<close> too, and the engine
  backtracks.  Only the split before the last character of the maximal run can be
  followed by \<open>),\<close>, since every shorter split leaves a non-comma after the \<open>)\<close>.
\<close>

lemma re_bt_paren_None:
  "\<not> (x = CHR '')'' \<and> startswith s '','') \<Longrightarrow>
   re_bt (Close i # Lit CHR '')'' # Lit CHR '','' # k) (x # s) st = None"
  by (cases s) auto

lemma takeWhile_paren_split:
  assumes "takeWhile (\<lambda>c. c \<noteq> CHR '','') s \<noteq> []"
    and "last (takeWhile (\<lambda>c. c \<noteq> CHR '','') s) = CHR '')''"
    and "startswith (drop (length (takeWhile (\<lambda>c. c \<noteq> CHR '','') s)) s) '',''"
  obtains u r where "takeWhile (\<lambda>c. c \<noteq> CHR '','') s = u @ [CHR '')'']"
    and "s = u @ CHR '')'' # CHR '','' # r"
proof -
  let ?t = "takeWhile (\<lambda>c. c \<noteq> CHR '','') s"
  have t: "?t = butlast ?t @ [CHR '')'']" using assms(1,2) by (metis append_butlast_last_id)
  obtain r where d: "drop (length ?t) s = CHR '','' # r"
    using assms(3) by (auto simp: startswith_conv)
  have "s = ?t @ drop (length ?t) s" by (metis append_take_drop_id takeWhile_eq_take)
  with t d have "s = butlast ?t @ CHR '')'' # CHR '','' # r" by (metis append.assoc append_Cons append_Nil)
  with t show ?thesis using that by blast
qed

lemma re_bt_star_paren:
  "re_bt (StarC (\<lambda>c. c \<noteq> CHR '','') # Close i # Lit CHR '')'' # Lit CHR '','' # k) s st =
   (let t = takeWhile (\<lambda>c. c \<noteq> CHR '','') s in
    if t \<noteq> [] \<and> last t = CHR '')'' \<and> startswith (drop (length t) s) '',''
    then re_bt (Close i # Lit CHR '')'' # Lit CHR '','' # k) (drop (length t - 1) s) st else None)"
  (is "re_bt (StarC ?P # ?K) s st = ?rhs s")
proof (induction s)
  case Nil
  then show ?case by simp
next
  case (Cons x s')
  let ?t = "takeWhile ?P s'"
  show ?case
  proof (cases "?P x")
    case False
    then show ?thesis by (simp add: re_bt_paren_None)
  next
    case Px: True
    show ?thesis
    proof (cases "?t \<noteq> [] \<and> last ?t = CHR '')'' \<and> startswith (drop (length ?t) s') '',''")
      case True
      then obtain u r where t: "?t = u @ [CHR '')'']" and s': "s' = u @ CHR '')'' # CHR '','' # r"
        using takeWhile_paren_split by blast
      have "re_bt ?K (x # s') st = None"
        using t s' by (intro re_bt_paren_None) (cases u, auto)
      with Cons.IH Px True t show ?thesis by (simp split: option.split)
    next
      case False
      with Cons.IH have ih: "re_bt (StarC ?P # ?K) s' st = None" by (simp add: Let_def)
      show ?thesis
      proof (cases "?t = []")
        case True
        with Px ih show ?thesis by (cases s') (auto split: option.split)
      next
        case tne: False
        then obtain y s'' where y: "s' = y # s''" "?P y" by (cases s') (auto split: if_splits)
        have "re_bt (StarC ?P # ?K) (x # s') st = re_bt ?K (x # s') st" using Px ih by simp
        also have "\<dots> = None" using y by (intro re_bt_paren_None) simp
        also have "None = ?rhs (x # s')" using Px tne False by (auto simp: Let_def)
        finally show ?thesis .
      qed
    qed
  qed
qed

lemma re_bt_last_field:
  "re_bt (re_last_field i @ k) s st = last_field_group s \<bind> (\<lambda>(f, s'). re_bt k s' (re_cap i s f st))"
proof (cases s)
  case Nil
  then show ?thesis by (simp add: re_last_field_def last_field_group_def)
next
  case (Cons x s')
  let ?P = "\<lambda>c. c \<noteq> CHR '',''"
  let ?t = "takeWhile ?P s'"
  let ?st1 = "((fst st)(i := x # s'), snd st)"
  show ?thesis
  proof (cases "?P x")
    case False
    with Cons show ?thesis by (simp add: re_last_field_def last_field_group_def)
  next
    case Px: True
    have lhs: "re_bt (re_last_field i @ k) s st =
      (if ?t \<noteq> [] \<and> last ?t = CHR '')'' \<and> startswith (drop (length ?t) s') '',''
       then re_bt (Close i # Lit CHR '')'' # Lit CHR '','' # k) (drop (length ?t - 1) s') ?st1 else None)"
      using Cons Px by (simp add: re_last_field_def re_bt_star_paren Let_def)
    show ?thesis
    proof (cases "?t \<noteq> [] \<and> last ?t = CHR '')'' \<and> startswith (drop (length ?t) s') '',''")
      case True
      then obtain u r where t: "?t = u @ [CHR '')'']" and s': "s' = u @ CHR '')'' # CHR '','' # r"
        using takeWhile_paren_split by blast
      have tw: "takeWhile ?P s = x # u @ [CHR '')'']" using Cons Px t by simp
      have dr: "drop (length (x # u @ [CHR '')''])) s = CHR '','' # r" using Cons s' by simp
      have "drop (length ?t - 1) s' = CHR '')'' # CHR '','' # r" using t s' by simp
      then have "re_bt (re_last_field i @ k) s st = re_bt k r (re_cap i s (x # u) st)"
        using lhs True Cons s' by (simp add: re_cap_def)
      moreover have "last_field_group s = Some (x # u, r)"
        using tw dr by (simp add: last_field_group_def)
      ultimately show ?thesis by simp
    next
      case False
      with lhs have "re_bt (re_last_field i @ k) s st = None" by simp
      moreover have "last_field_group s = None"
        using False Cons Px by (auto simp: last_field_group_def Let_def)
      ultimately show ?thesis by simp
    qed
  qed
qed

lemma re_bt_lit_end: "re_bt (re_lit p) s st = lit p s \<bind> (\<lambda>s'. Some (st, s'))"
  using re_bt_lit [of p "[]" s st] by simp

lemma re_bt_close: "re_bt re_close s st = close_tail s \<bind> (\<lambda>r. Some (st, r))"
  by (simp add: re_close_def close_tail_def re_bt_lit re_bt_ws re_bt_lit_end py_char_defs)

text \<open>\<open>(.*?)\<close> before the end of the pattern, from any point of the text it captures.\<close>

lemma re_bt_lazy:
  "s0 = acc @ s \<Longrightarrow>
   re_bt (LazyC (\<lambda>c. c \<noteq> CHR 0x0A) # Close i # re_close) s ((fst st)(i := s0), snd st) =
   lazy_text acc s \<bind> (\<lambda>(t, r). Some (re_cap i s0 t st, r))"
proof (induction acc s rule: lazy_text.induct)
  case (1 acc s)
  let ?L = "LazyC (\<lambda>c. c \<noteq> CHR 0x0A) # Close i # re_close"
  let ?st1 = "((fst st)(i := s0), snd st)"
  have close: "re_bt (Close i # re_close) s ?st1 = close_tail s \<bind> (\<lambda>r. Some (re_cap i s0 acc st, r))"
    using "1.prems" by (simp add: re_bt_close re_cap_def)
  show ?case
  proof (cases s)
    case Nil
    then show ?thesis
      by (simp add: lazy_text.simps [of acc "[]"] close_tail_def lit_def re_close_def re_lit_def)
  next
    case (Cons c cs)
    have unf: "re_bt ?L s ?st1 = (case re_bt (Close i # re_close) s ?st1 of Some r \<Rightarrow> Some r
        | None \<Rightarrow> if c \<noteq> CHR 0x0A then re_bt ?L cs ?st1 else None)"
      using Cons by (simp only: re_bt.simps)
    have lt: "lazy_text acc s = (case close_tail s of Some r \<Rightarrow> Some (acc, r)
        | None \<Rightarrow> if c = CHR 0x0A then None else lazy_text (acc @ [c]) cs)"
      using Cons by (cases "close_tail (c # cs)") (simp_all add: lazy_text.simps [of acc "c # cs"])
    show ?thesis
    proof (cases "close_tail s")
      case (Some r)
      show ?thesis by (simp only: unf lt close Some option.case bind.simps) simp
    next
      case None
      show ?thesis
      proof (cases "c = CHR 0x0A")
        case True
        show ?thesis by (simp only: unf lt close None True option.case bind.simps) simp
      next
        case False
        have "s0 = (acc @ [c]) @ cs" using "1.prems" Cons by simp
        then have ih: "re_bt ?L cs ?st1 = lazy_text (acc @ [c]) cs \<bind> (\<lambda>(t, r). Some (re_cap i s0 t st, r))"
          by (rule "1.IH" [OF None Cons False])
        show ?thesis by (simp only: unf lt close None False ih option.case bind.simps) simp
      qed
    qed
  qed
qed

lemma re_bt_text:
  "re_bt (re_text i @ re_close) s st = lazy_text [] s \<bind> (\<lambda>(t, r). Some (re_cap i s t st, r))"
  using re_bt_lazy [of s "[]" s i st] by (simp add: re_text_def)

lemma map_option_case_prod:
  "map_option f (case p of (a, b) \<Rightarrow> g a b) = (case p of (a, b) \<Rightarrow> map_option f (g a b))"
  by (cases p) simp

lemmas re_bt_pieces = re_bt_ws re_bt_lit re_bt_ws1 re_bt_word re_bt_field re_bt_last_field re_bt_text

section \<open>The parser computes the match\<close>

text \<open>
  Claim C5. The deterministic parser \<open>msg_match\<close> returns exactly what
  Python's backtracking \<open>re.match\<close> of \<open>MSG_PATTERN\<close> returns: no match when
  there is none, and otherwise the seven groups and the unmatched rest of the buffer.
\<close>

theorem msg_match_eq_re_match: "msg_match s = re_msg_match s"
  unfolding re_msg_match_def MSG_RE_def msg_match_def
  by (simp add: re_bt_pieces map_option_bind map_option_case_prod o_def py_char_defs re_cap_def)

end
