(* ===== verification/Spec2Isabelle.thy ===== *)
theory Spec2Isabelle
  imports Driver Regex
begin

text \<open>
  Verification of \<open>src/p4java/generate-error-codes.py\<close>, the script that reads the
  Perforce C client's \<open>msgs/msgdm.cc\<close> and generates the Java interface
  \<open>IServerMessageCode.java\<close>, with one \<open>int\<close> constant per error message.

  \<^bold>\<open>The program.\<close>  A one-shot pipeline.  \<open>main\<close> (lines 222--247) computes the
  paths from its arguments and checks them.  The scanner \<open>parse_msgdm\<close>
  (lines 166--219) strips comments line by line, accumulates code lines in a buffer and
  matches the buffer against \<open>MSG_PATTERN\<close> (lines 17--20).  \<open>output_msg_lines\<close>
  (lines 122--127) sorts the records by \<open>int()\<close> of the message code.  \<open>header\<close>,
  \<open>output_line\<close> and \<open>footer\<close> (lines 63--96, 130--163) write the file, translating
  category tokens with \<open>CONSTANT_MAPPING\<close> (lines 23--60) and names with
  \<open>to_java_id\<close> (lines 99--119).

  \<^bold>\<open>Theories.\<close>  Each theory models one part; the models are definitions that
  evaluate by \<open>simp\<close>.
  \<^item> \<open>Prelude\<close>: the Python built-ins the script calls, for ASCII text.  These are
    the character classes of \<open>str\<close> (\<open>py_isspace\<close>, \<open>is_upper\<close>, \<open>is_digit\<close>,
    \<open>is_word\<close>, \<open>py_upper\<close>), \<open>strip\<close>, \<open>startswith\<close>, \<open>find\<close>,
    \<open>replace\<close> of one character, and \<open>os.path\<close>'s \<open>basename\<close>, \<open>dirname\<close> and
    \<open>join\<close>.  It also holds the shared lemmas on them.
  \<^item> \<open>JavaId\<close>: \<open>to_java_id\<close>.  Its loop, with \<open>last_upper\<close> and \<open>ret\<close>, is
    \<open>id_walk\<close>.  \<open>spec_walk\<close> is the transform as section 4.3 of the specification
    words it.
  \<^item> \<open>MsgPattern\<close>: \<open>re.match(MSG_PATTERN, buff)\<close> as \<open>msg_match\<close>, a deterministic
    parser with one combinator per sub-pattern and the lazy group \<open>(.*?)\<close> as a
    shortest-first search.  It returns the seven groups as the record \<open>msg\<close> and
    \<open>buff[m.end():]\<close>.
  \<^item> \<open>Regex\<close>: the reference semantics of \<open>re.match\<close>.  \<open>re_bt\<close> is a
    backtracking matcher for literals, greedy and lazy repetition of a character class,
    and capturing groups.  \<open>MSG_RE\<close> transcribes \<open>MSG_PATTERN\<close> item by item.
  \<^item> \<open>Scanner\<close>: \<open>parse_msgdm\<close>.  The loop variables are the record
    \<open>scan_state\<close>, one iteration is \<open>scan_line\<close>, the loop is \<open>scan_lines\<close>.
    \<open>readlines\<close> has universal newlines.  The raised exceptions are \<open>scan_error\<close>.
  \<^item> \<open>Sorter\<close>: \<open>int()\<close> (\<open>py_int\<close>: strip, one sign, digits, underscores
    between digits), the key pass \<open>msg_keys\<close>, which raises \<open>ValueError\<close> on the
    first bad key, and \<open>sort_msg_lines\<close>, which is \<open>list.sort\<close> as the library's
    stable \<open>sort_key\<close>.
  \<^item> \<open>Emitter\<close>: \<open>constant_mapping\<close>, \<open>map_code\<close>, \<open>header\<close>, \<open>footer\<close>,
    \<open>code_link\<close>, \<open>output_line\<close> and \<open>output_msg_lines\<close>.  What a function writes
    to the file object is its value.
  \<^item> \<open>Driver\<close>: \<open>main\<close> over the record \<open>fs\<close>, which gives the directories and
    the contents of the regular files.  A run returns the printed lines, the outcome
    (\<open>Exit n\<close> or an escaping exception \<open>Raised\<close>) and the new file system.
    \<open>exit_status\<close> is \<open>sys.exit(main(sys.argv))\<close>.

  \<^bold>\<open>What is proved.\<close>
  \<^item> Refinement: a run exits with 0 exactly when it meets the contract
    \<open>generation_spec\<close>.  Under that contract the output is header, records in
    stable-sorted order, then footer.  The sort is the unique stable sort by message
    code (\<open>stable_sort_spec\<close>).
  \<^item> Invariants: every record of the scanner is well formed.  Records are only
    appended, at most one per line.
  \<^item> Equivalence: \<open>msg_match\<close> equals the backtracking match of \<open>MSG_RE\<close>
    on every buffer, so the parser the scanner uses is \<open>re.match\<close> of the pattern.
  \<^item> Round trip: a printed record line is matched back to its fields.  A file of
    clean printed record lines is read back as exactly its records, in order.
  \<^item> Error behaviour: a parse error names the line that raised it.  Line \<open>[0]\<close>
    never raises \<open>IndexError\<close>.  The sort reports the first non-integer code.
    Only a \<open>ValueError\<close> of the sort writes, and then it leaves the file truncated.
  \<^item> Frame: only the Java file is written.
  \<^item> Determinism: a second run changes nothing.
  \<^item> Exit codes: 0, 1 or 2, as in section 6 of the specification.
  \<^item> Naming: \<open>to_java_id\<close> gives a shouting-case identifier.  It equals the specified
    transform when no two neighbouring characters are upper-case letters or digits,
    and splits acronym runs otherwise.
  \<^item> End to end: for any file of clean printed record lines with integer codes, a
    run exits with 0 and writes the header, the records in sorted order and the
    footer (this theory, combining the scanner, the sort, the emitter and \<open>main\<close>).
  \<^item> Findings, each proved for every input of its shape:
    \<^item> a one-line \<open>/* */\<close> comment hides the following records;
    \<^item> a stray statement blocks every later record;
    \<^item> a second record on the last line is lost;
    \<^item> a record whose text contains \<open>/*\<close> aborts the run as malformed source;
    \<^item> text after \<open>*/\<close> on a closing line aborts the run;
    \<^item> \<open>//\<close> inside a quoted text is kept, by the quote-parity test;
    \<^item> \<open>*/\<close> in a text ends the Javadoc comment;
    \<^item> a non-integer code leaves a truncated file.
  \<^item> Observed by evaluating the model, not stated as theorems: an escaped quote before
    \<open>//\<close> in a text defeats the quote-parity test; a code with a leading zero is
    sorted as decimal but emitted as a Java octal literal; an empty argument list
    raises \<open>IndexError\<close> at \<open>args[0]\<close>.

  \<^bold>\<open>Bounds and loops.\<close>  Every loop of the script runs over a finite list (the
  lines, the characters of a name or of the buffer), so its model is a structurally
  recursive \<open>fun\<close>.  One function recurses on something else: for the backtracking
  matcher \<open>re_bt\<close> the function package proves termination lexicographically on the
  remaining input and then the remaining pattern.  No fuel or bound is needed: each
  function is total, and every run of the script returns.

  \<^bold>\<open>Not modelled.\<close>
  \<^item> The general \<open>re\<close> engine: only the constructs \<open>MSG_PATTERN\<close> uses are
    modelled, with Python's backtracking order (\<open>re_bt\<close>).  Alternation, nested
    repetition and the engine's internal optimisations are not modelled.
  \<^item> Non-ASCII text: \<open>str\<close> methods are modelled on ASCII.  Decoding errors of
    \<open>open()\<close> and I/O errors of the file system (permissions, a full disk, a path
    that is a directory) are not modelled.
  \<^item> Timsort: it is represented by the stable sort with the same result.  The
    uniqueness of the stable sort is proved.
  \<^item> Closing the file object: \<open>with\<close> closes and flushes the file on every path,
    which the model reflects by writing the text that \<open>main\<close> produced before the
    exception.
\<close>

lemma msg_key_strip_msg [simp]: "msg_key (strip_msg m) = msg_key m"
  by (simp add: msg_key_def strip_msg_def)

text \<open>
  Claim C7. The pipeline end to end, for any input file: when the input
  is a file of clean record lines printed in the layout of \<open>msgdm.cc\<close>, each with
  an integer message code, and the paths check out, the script prints nothing, exits
  with 0, and replaces the output file by the header, the stripped records rendered in
  the order of the stable sort by message code, and the footer.
\<close>

theorem main_print_file:
  assumes "\<forall>m \<in> set ms. msg_ok m \<and> clean_line (print_msg m) \<and> msg_key m \<noteq> None"
    and "is_dir fs (java_outdir a0)" "files fs (msg_file a1) = Some (print_file ms)"
  shows "main (a0 # a1 # rest) fs = ([], Exit 0, fs\<lparr>files := (files fs)(java_file a0 \<mapsto>
    header a0 @ concat (map output_line (sort_key (\<lambda>m. the (msg_key m)) (map strip_msg ms))) @ footer)\<rparr>)"
proof -
  have p: "parse_msgdm (print_file ms) = Inr (map strip_msg ms)"
    using assms(1) by (simp add: print_file_parses)
  have k: "\<forall>m \<in> set (map strip_msg ms). msg_key m \<noteq> None" using assms(1) by simp
  show ?thesis using main_write_branch [OF assms(2,3) p, of rest] write_java_ok [OF k, of a0] by simp
qed

theorem main_print_file_witness:
  "msg_ok \<lparr>m_name = ''BadCharSet'', m_sub_code = ''ES_DM'', m_msg_code = ''1'', m_severity_code = ''E_FAILED'', m_generic_code = ''EV_USAGE'', m_arg_count = ''0'', m_text = ''Invalid character set.''\<rparr> \<and> clean_line (print_msg \<lparr>m_name = ''BadCharSet'', m_sub_code = ''ES_DM'', m_msg_code = ''1'', m_severity_code = ''E_FAILED'', m_generic_code = ''EV_USAGE'', m_arg_count = ''0'', m_text = ''Invalid character set.''\<rparr>) \<and> msg_key \<lparr>m_name = ''BadCharSet'', m_sub_code = ''ES_DM'', m_msg_code = ''1'', m_severity_code = ''E_FAILED'', m_generic_code = ''EV_USAGE'', m_arg_count = ''0'', m_text = ''Invalid character set.''\<rparr> \<noteq> None \<and>
   main sample_args (sample_fs (print_file [\<lparr>m_name = ''BadCharSet'', m_sub_code = ''ES_DM'', m_msg_code = ''1'', m_severity_code = ''E_FAILED'', m_generic_code = ''EV_USAGE'', m_arg_count = ''0'', m_text = ''Invalid character set.''\<rparr>])) =
   ([], Exit 0, (sample_fs (print_file [\<lparr>m_name = ''BadCharSet'', m_sub_code = ''ES_DM'', m_msg_code = ''1'', m_severity_code = ''E_FAILED'', m_generic_code = ''EV_USAGE'', m_arg_count = ''0'', m_text = ''Invalid character set.''\<rparr>]))\<lparr>files :=
      [''c/msgs/msgdm.cc'' \<mapsto> print_file [\<lparr>m_name = ''BadCharSet'', m_sub_code = ''ES_DM'', m_msg_code = ''1'', m_severity_code = ''E_FAILED'', m_generic_code = ''EV_USAGE'', m_arg_count = ''0'', m_text = ''Invalid character set.''\<rparr>],
       java_file ''gen.py'' \<mapsto> header ''gen.py'' @
         [CHR 0x0A] @ ''    /**'' @ [CHR 0x0A] @
         ''     * BadCharSet'' @ [CHR 0x0A] @
         ''     * Severity {@link MessageSeverityCode#E_FAILED}'' @ [CHR 0x0A] @
         ''     * Subsystem code {@link MessageSubsystemCode#ES_DM}'' @ [CHR 0x0A] @
         ''     * Generic code {@link MessageGenericCode#EV_USAGE},'' @ [CHR 0x0A] @
         ''     * argument count 0,'' @ [CHR 0x0A] @
         ''     * Text: '' @ [CHR 0x22] @ ''Invalid character set.'' @ [CHR 0x22] @ [CHR 0x0A] @
         ''     */'' @ [CHR 0x0A] @
         ''    int BAD_CHAR_SET = 1;'' @ [CHR 0x0A] @ footer]\<rparr>)"
proof -
  have h: "msg_ok \<lparr>m_name = ''BadCharSet'', m_sub_code = ''ES_DM'', m_msg_code = ''1'', m_severity_code = ''E_FAILED'', m_generic_code = ''EV_USAGE'', m_arg_count = ''0'', m_text = ''Invalid character set.''\<rparr>" "clean_line (print_msg \<lparr>m_name = ''BadCharSet'', m_sub_code = ''ES_DM'', m_msg_code = ''1'', m_severity_code = ''E_FAILED'', m_generic_code = ''EV_USAGE'', m_arg_count = ''0'', m_text = ''Invalid character set.''\<rparr>)" "msg_key \<lparr>m_name = ''BadCharSet'', m_sub_code = ''ES_DM'', m_msg_code = ''1'', m_severity_code = ''E_FAILED'', m_generic_code = ''EV_USAGE'', m_arg_count = ''0'', m_text = ''Invalid character set.''\<rparr> \<noteq> None"
    "is_dir (sample_fs (print_file [\<lparr>m_name = ''BadCharSet'', m_sub_code = ''ES_DM'', m_msg_code = ''1'', m_severity_code = ''E_FAILED'', m_generic_code = ''EV_USAGE'', m_arg_count = ''0'', m_text = ''Invalid character set.''\<rparr>])) (java_outdir ''gen.py'')"
    "files (sample_fs (print_file [\<lparr>m_name = ''BadCharSet'', m_sub_code = ''ES_DM'', m_msg_code = ''1'', m_severity_code = ''E_FAILED'', m_generic_code = ''EV_USAGE'', m_arg_count = ''0'', m_text = ''Invalid character set.''\<rparr>])) (msg_file ''c'') = Some (print_file [\<lparr>m_name = ''BadCharSet'', m_sub_code = ''ES_DM'', m_msg_code = ''1'', m_severity_code = ''E_FAILED'', m_generic_code = ''EV_USAGE'', m_arg_count = ''0'', m_text = ''Invalid character set.''\<rparr>])"
    by (simp_all add: msg_ok_def field_ok_def close_tail_def lit_def skip_ws_def clean_line_def
        print_msg_def py_find_def find_from.simps int_eval java_outdir_def msg_file_def py_join_def
        py_dirname_def REL_INFILE_def REL_OUTDIR_def)
  have o: "concat (map output_line (sort_key (\<lambda>m. the (msg_key m)) (map strip_msg [\<lparr>m_name = ''BadCharSet'', m_sub_code = ''ES_DM'', m_msg_code = ''1'', m_severity_code = ''E_FAILED'', m_generic_code = ''EV_USAGE'', m_arg_count = ''0'', m_text = ''Invalid character set.''\<rparr>]))) =
         [CHR 0x0A] @ ''    /**'' @ [CHR 0x0A] @
         ''     * BadCharSet'' @ [CHR 0x0A] @
         ''     * Severity {@link MessageSeverityCode#E_FAILED}'' @ [CHR 0x0A] @
         ''     * Subsystem code {@link MessageSubsystemCode#ES_DM}'' @ [CHR 0x0A] @
         ''     * Generic code {@link MessageGenericCode#EV_USAGE},'' @ [CHR 0x0A] @
         ''     * argument count 0,'' @ [CHR 0x0A] @
         ''     * Text: '' @ [CHR 0x22] @ ''Invalid character set.'' @ [CHR 0x22] @ [CHR 0x0A] @
         ''     */'' @ [CHR 0x0A] @
         ''    int BAD_CHAR_SET = 1;'' @ [CHR 0x0A]"
    by (simp add: strip_msg_def py_strip_def py_lstrip_def py_rstrip_def py_char_defs output_line_def
        map_code_def constant_mapping_def code_link_def to_java_id_def replace_char_def)
  have j: "java_file ''gen.py'' \<noteq> ''c/msgs/msgdm.cc''"
    by (simp add: java_file_def java_outdir_def py_join_def py_dirname_def REL_OUTDIR_def OUTFILE_def)
  have "main sample_args (sample_fs (print_file [\<lparr>m_name = ''BadCharSet'', m_sub_code = ''ES_DM'', m_msg_code = ''1'', m_severity_code = ''E_FAILED'', m_generic_code = ''EV_USAGE'', m_arg_count = ''0'', m_text = ''Invalid character set.''\<rparr>])) =
    ([], Exit 0, (sample_fs (print_file [\<lparr>m_name = ''BadCharSet'', m_sub_code = ''ES_DM'', m_msg_code = ''1'', m_severity_code = ''E_FAILED'', m_generic_code = ''EV_USAGE'', m_arg_count = ''0'', m_text = ''Invalid character set.''\<rparr>]))\<lparr>files := (files (sample_fs (print_file [\<lparr>m_name = ''BadCharSet'', m_sub_code = ''ES_DM'', m_msg_code = ''1'', m_severity_code = ''E_FAILED'', m_generic_code = ''EV_USAGE'', m_arg_count = ''0'', m_text = ''Invalid character set.''\<rparr>])))(java_file ''gen.py'' \<mapsto>
      header ''gen.py'' @ concat (map output_line (sort_key (\<lambda>m. the (msg_key m)) (map strip_msg [\<lparr>m_name = ''BadCharSet'', m_sub_code = ''ES_DM'', m_msg_code = ''1'', m_severity_code = ''E_FAILED'', m_generic_code = ''EV_USAGE'', m_arg_count = ''0'', m_text = ''Invalid character set.''\<rparr>]))) @ footer)\<rparr>)"
    using h main_print_file [of "[\<lparr>m_name = ''BadCharSet'', m_sub_code = ''ES_DM'', m_msg_code = ''1'', m_severity_code = ''E_FAILED'', m_generic_code = ''EV_USAGE'', m_arg_count = ''0'', m_text = ''Invalid character set.''\<rparr>]" "sample_fs (print_file [\<lparr>m_name = ''BadCharSet'', m_sub_code = ''ES_DM'', m_msg_code = ''1'', m_severity_code = ''E_FAILED'', m_generic_code = ''EV_USAGE'', m_arg_count = ''0'', m_text = ''Invalid character set.''\<rparr>])" "''gen.py''" "''c''" "[]"] by simp
  with h o j show ?thesis by (simp add: fun_upd_twist)
qed

end
